(* ===== verification/Go_Prelude.thy ===== *)
theory Go_Prelude
  imports Main "HOL-Library.Word" "HOL-Library.Monad_Syntax" "HOL-Library.Sublist"
begin

text \<open>
  The shared vocabulary of the development: how Go values and Go run-time panics are written
  in HOL, and the generic facts on lists, options and big-endian numbers that the component
  theories rest on.

  \<^item> A Go byte is an 8-bit value; HOL's type \<^typ>\<open>char\<close> is exactly that, so both a Go
    \<open>string\<close> (an immutable byte sequence) and the contents of a \<open>[]byte\<close> are a
    \<^typ>\<open>string\<close>. \<open>byte c\<close> reads the number.
  \<^item> A Go slice has a length and a capacity: an index expression is checked against the length,
    a slice expression against the capacity. The model of a slice therefore keeps the bytes
    beyond its length that its backing array still holds.
  \<^item> Code that can panic returns an option: \<^const>\<open>None\<close> is the run-time panic, so that
    panic freedom is a theorem and not an assumption.
  \<^item> Code that returns an error value has a sum type, \<^const>\<open>Inl\<close> for the error.
\<close>

section \<open>Collections of facts\<close>

named_theorems go_simps \<open>evaluation rules for Go library functions on ASCII data\<close>
named_theorems panic_free \<open>conditions under which an operation does not panic\<close>

section \<open>Bytes, strings and slices\<close>

type_synonym bytes = string

abbreviation byte :: "char \<Rightarrow> nat" where
  "byte c \<equiv> of_char c"

datatype slice = Slice (vis: bytes) (spare: bytes)

abbreviation full_slice :: "bytes \<Rightarrow> slice" where
  "full_slice bs \<equiv> Slice bs []"

definition slice_len :: "slice \<Rightarrow> nat" where
  "slice_len s = length (vis s)"

definition slice_cap :: "slice \<Rightarrow> nat" where
  "slice_cap s = length (vis s) + length (spare s)"

text \<open>\<open>s[i]\<close>: panics at or beyond the length.\<close>

definition index :: "slice \<Rightarrow> nat \<Rightarrow> char option" where
  "index s i = (if i < length (vis s) then Some (vis s ! i) else None)"

text \<open>\<open>s[i:j]\<close>: panics unless \<open>i \<le> j \<le> cap s\<close>.\<close>

definition subslice :: "slice \<Rightarrow> nat \<Rightarrow> nat \<Rightarrow> slice option" where
  "subslice s i j =
     (if i \<le> j \<and> j \<le> slice_cap s
      then Some (Slice (take (j - i) (drop i (vis s @ spare s))) (drop j (vis s @ spare s)))
      else None)"

text \<open>\<open>int(binary.BigEndian.Uint16(s))\<close>: reads two bytes, panics on a shorter slice.\<close>

definition be_uint16 :: "slice \<Rightarrow> nat option" where
  "be_uint16 s = do { hi \<leftarrow> index s 0; lo \<leftarrow> index s 1; Some (256 * byte hi + byte lo) }"

section \<open>Lemmas on slices\<close>

lemmas byte_less = nat_of_char_less_256

lemma int_byte_eq: "(of_char c :: int) = int (byte c)"
  by (simp only: of_nat_of_char)

lemma int_byte_char_of [simp]: "(of_char (char_of (n :: nat)) :: int) = int (n mod 256)"
  by (simp only: int_byte_eq of_char_of)

lemma index_Some [simp, panic_free]: "i < slice_len s \<Longrightarrow> index s i = Some (vis s ! i)"
  by (simp add: index_def slice_len_def)

lemma index_None [simp]: "slice_len s \<le> i \<Longrightarrow> index s i = None"
  by (simp add: index_def slice_len_def)

lemma slice_len_Slice [simp]: "slice_len (Slice bs sp) = length bs"
  by (simp add: slice_len_def)

lemma slice_len_le_cap: "slice_len s \<le> slice_cap s"
  by (simp add: slice_len_def slice_cap_def)

lemma subslice_within [simp, panic_free]:
  assumes "i \<le> j" and "j \<le> slice_len s"
  shows "subslice s i j = Some (Slice (take (j - i) (drop i (vis s))) (drop j (vis s) @ spare s))"
  using assms by (simp add: subslice_def slice_cap_def slice_len_def)

lemma subslice_None [simp]: "slice_cap s < j \<Longrightarrow> subslice s i j = None"
  by (simp add: subslice_def)

lemma be_uint16_Some [simp, panic_free]:
  "2 \<le> slice_len s \<Longrightarrow> be_uint16 s = Some (256 * byte (vis s ! 0) + byte (vis s ! 1))"
  by (simp add: be_uint16_def)

lemma be_uint16_less: "be_uint16 s = Some n \<Longrightarrow> n < 65536"
proof -
  have "256 * byte a + byte b < 65536" for a b
    using byte_less [of a] byte_less [of b] by linarith
  then show "be_uint16 s = Some n \<Longrightarrow> n < 65536"
    by (auto simp: be_uint16_def bind_eq_Some_conv)
qed

section \<open>Big-endian byte strings\<close>

definition be_val :: "bytes \<Rightarrow> int" where
  "be_val bs = foldl (\<lambda>n c. 256 * n + of_char c) 0 bs"

primrec be_bytes :: "nat \<Rightarrow> int \<Rightarrow> bytes" where
  "be_bytes 0 k = []"
| "be_bytes (Suc n) k = be_bytes n (k div 256) @ [char_of (k mod 256)]"

lemma be_val_Nil [simp]: "be_val [] = 0"
  by (simp add: be_val_def)

lemma be_val_snoc [simp]: "be_val (bs @ [c]) = 256 * be_val bs + of_char c"
  by (simp add: be_val_def)

lemma length_be_bytes [simp]: "length (be_bytes n k) = n"
  by (induction n arbitrary: k) auto

lemma int_byte_bounds: "0 \<le> (of_char c :: int)" "(of_char c :: int) < 256"
  using byte_less [of c] unfolding int_byte_eq by linarith+

lemma be_val_bounds: "0 \<le> be_val bs \<and> be_val bs < 256 ^ length bs"
proof (induction bs rule: rev_induct)
  case Nil
  then show ?case by simp
next
  case (snoc c bs)
  then have "256 * be_val bs + 256 \<le> 256 * 256 ^ length bs" by simp
  with int_byte_bounds [of c] snoc show ?case by simp
qed

lemma be_val_be_bytes: "be_val (be_bytes n k) = k mod 256 ^ n"
proof (induction n arbitrary: k)
  case 0
  then show ?case by simp
next
  case (Suc n)
  have "k mod (256 * 256 ^ n) = 256 * (k div 256 mod 256 ^ n) + k mod 256"
    by (rule zmod_zmult2_eq) simp
  with Suc show ?case by simp
qed

lemma be_bytes_be_val: "be_bytes (length bs) (be_val bs) = bs"
proof (induction bs rule: rev_induct)
  case (snoc c bs)
  have "(256 * be_val bs + of_char c) div 256 = be_val bs"
    "(256 * be_val bs + of_char c) mod 256 = of_char c"
    using int_byte_bounds [of c] by auto
  with snoc show ?case by (simp only: length_append_singleton be_val_snoc be_bytes.simps char_of_char)
qed simp

section \<open>Generic facts on lists and options\<close>

lemma all_le_Suc_split: "(\<forall>j \<le> Suc n. P j) \<longleftrightarrow> P 0 \<and> (\<forall>j \<le> n. P (Suc j))"
  by (metis Suc_le_mono le0 not0_implies_Suc)

lemma bind_not_None:
  "x \<noteq> None \<Longrightarrow> (\<And>v. x = Some v \<Longrightarrow> f v \<noteq> None) \<Longrightarrow> x \<bind> f \<noteq> None"
  by (cases x) auto

lemma list_all2_ex_iff:
  assumes "list_all2 R xs ys" and "\<And>x y. R x y \<Longrightarrow> P x \<longleftrightarrow> Q y"
  shows "(\<exists>x \<in> set xs. P x) \<longleftrightarrow> (\<exists>y \<in> set ys. Q y)"
  using assms by (induction rule: list_all2_induct) auto

lemma dropWhile_hd_not: "dropWhile P xs = ys \<Longrightarrow> ys \<noteq> [] \<Longrightarrow> \<not> P (hd ys)"
  by (metis dropWhile_eq_Nil_conv hd_dropWhile)

lemma takeWhile_nth_lt:
  "i < length (takeWhile P xs) \<Longrightarrow> P (xs ! i)"
  by (metis nth_mem set_takeWhileD takeWhile_nth)

lemma length_takeWhile_eqI:
  assumes "n \<le> length xs" and "\<And>i. i < n \<Longrightarrow> P (xs ! i)" and "n < length xs \<Longrightarrow> \<not> P (xs ! n)"
  shows "length (takeWhile P xs) = n"
  using assms by (metis le_neq_implies_less length_takeWhile_le length_takeWhile_less_P_nth
      linorder_neqE_nat nth_length_takeWhile takeWhile_nth_lt)

end
