(* ===== verification/Go_Unicode.thy ===== *)
theory Go_Unicode
  imports Go_Prelude
begin

text \<open>
  The runes of the Go standard library as the program uses them: the simple lower- and
  upper-case mappings of package \<open>unicode\<close> (the tables \<open>CaseRanges\<close>), the white space of
  \<open>unicode.IsSpace\<close> and the UTF-8 coding of package \<open>unicode/utf8\<close>. A rune is a natural
  number below \<open>0x110000\<close>; a byte string that is not UTF-8 decodes, as in Go, to the
  replacement rune \<open>U+FFFD\<close> with width one. This is where lower-casing a byte string can
  change its length, which matters for the HTTP parser.
\<close>

section \<open>Case tables\<close>

text \<open>
  An entry \<open>(lo, hi, stride, to)\<close> maps \<open>lo + k\<close> to \<open>to + k\<close> for every
  multiple \<open>k\<close> of \<open>stride\<close> up to \<open>hi - lo\<close>. Every other rune maps to itself.
\<close>

type_synonym rune = nat
type_synonym case_range = "nat \<times> nat \<times> nat \<times> nat"

fun in_range :: "rune \<Rightarrow> case_range \<Rightarrow> bool" where
  "in_range r (lo, hi, stride, to) \<longleftrightarrow> lo \<le> r \<and> r \<le> hi \<and> (r - lo) mod stride = 0"

definition case_lookup :: "case_range list \<Rightarrow> rune \<Rightarrow> rune" where
  "case_lookup t r =
     (case find (in_range r) t of None \<Rightarrow> r | Some (lo, _, _, to) \<Rightarrow> to + (r - lo))"

definition lower_ranges :: "case_range list" where
  "lower_ranges = [
    (192, 214, 1, 224), (216, 222, 1, 248), (256, 302, 2, 257), (304, 304, 1, 105),
    (306, 310, 2, 307), (313, 327, 2, 314), (330, 374, 2, 331), (376, 376, 1, 255),
    (377, 381, 2, 378), (385, 385, 1, 595), (386, 388, 2, 387), (390, 390, 1, 596),
    (391, 391, 1, 392), (393, 394, 1, 598), (395, 395, 1, 396), (398, 398, 1, 477),
    (399, 399, 1, 601), (400, 400, 1, 603), (401, 401, 1, 402), (403, 403, 1, 608),
    (404, 404, 1, 611), (406, 406, 1, 617), (407, 407, 1, 616), (408, 408, 1, 409),
    (412, 412, 1, 623), (413, 413, 1, 626), (415, 415, 1, 629), (416, 420, 2, 417),
    (422, 422, 1, 640), (423, 423, 1, 424), (425, 425, 1, 643), (428, 428, 1, 429),
    (430, 430, 1, 648), (431, 431, 1, 432), (433, 434, 1, 650), (435, 437, 2, 436),
    (439, 439, 1, 658), (440, 440, 1, 441), (444, 444, 1, 445), (452, 452, 1, 454),
    (453, 453, 1, 454), (455, 455, 1, 457), (456, 456, 1, 457), (458, 458, 1, 460),
    (459, 475, 2, 460), (478, 494, 2, 479), (497, 497, 1, 499), (498, 500, 2, 499),
    (502, 502, 1, 405), (503, 503, 1, 447), (504, 542, 2, 505), (544, 544, 1, 414),
    (546, 562, 2, 547), (570, 570, 1, 11365), (571, 571, 1, 572), (573, 573, 1, 410),
    (574, 574, 1, 11366), (577, 577, 1, 578), (579, 579, 1, 384), (580, 580, 1, 649),
    (581, 581, 1, 652), (582, 590, 2, 583), (880, 882, 2, 881), (886, 886, 1, 887),
    (895, 895, 1, 1011), (902, 902, 1, 940), (904, 906, 1, 941), (908, 908, 1, 972),
    (910, 911, 1, 973), (913, 929, 1, 945), (931, 939, 1, 963), (975, 975, 1, 983),
    (984, 1006, 2, 985), (1012, 1012, 1, 952), (1015, 1015, 1, 1016), (1017, 1017, 1, 1010),
    (1018, 1018, 1, 1019), (1021, 1023, 1, 891), (1024, 1039, 1, 1104), (1040, 1071, 1, 1072),
    (1120, 1152, 2, 1121), (1162, 1214, 2, 1163), (1216, 1216, 1, 1231), (1217, 1229, 2, 1218),
    (1232, 1326, 2, 1233), (1329, 1366, 1, 1377), (4256, 4293, 1, 11520), (4295, 4295, 1, 11559),
    (4301, 4301, 1, 11565), (5024, 5103, 1, 43888), (5104, 5109, 1, 5112), (7312, 7354, 1, 4304),
    (7357, 7359, 1, 4349), (7680, 7828, 2, 7681), (7838, 7838, 1, 223), (7840, 7934, 2, 7841),
    (7944, 7951, 1, 7936), (7960, 7965, 1, 7952), (7976, 7983, 1, 7968), (7992, 7999, 1, 7984),
    (8008, 8013, 1, 8000), (8025, 8031, 2, 8017), (8040, 8047, 1, 8032), (8072, 8079, 1, 8064),
    (8088, 8095, 1, 8080), (8104, 8111, 1, 8096), (8120, 8121, 1, 8112), (8122, 8123, 1, 8048),
    (8124, 8124, 1, 8115), (8136, 8139, 1, 8050), (8140, 8140, 1, 8131), (8152, 8153, 1, 8144),
    (8154, 8155, 1, 8054), (8168, 8169, 1, 8160), (8170, 8171, 1, 8058), (8172, 8172, 1, 8165),
    (8184, 8185, 1, 8056), (8186, 8187, 1, 8060), (8188, 8188, 1, 8179), (8486, 8486, 1, 969),
    (8490, 8490, 1, 107), (8491, 8491, 1, 229), (8498, 8498, 1, 8526), (8544, 8559, 1, 8560),
    (8579, 8579, 1, 8580), (9398, 9423, 1, 9424), (11264, 11311, 1, 11312),
    (11360, 11360, 1, 11361), (11362, 11362, 1, 619), (11363, 11363, 1, 7549),
    (11364, 11364, 1, 637), (11367, 11371, 2, 11368), (11373, 11373, 1, 593),
    (11374, 11374, 1, 625), (11375, 11375, 1, 592), (11376, 11376, 1, 594),
    (11378, 11378, 1, 11379), (11381, 11381, 1, 11382), (11390, 11391, 1, 575),
    (11392, 11490, 2, 11393), (11499, 11501, 2, 11500), (11506, 11506, 1, 11507),
    (42560, 42604, 2, 42561), (42624, 42650, 2, 42625), (42786, 42798, 2, 42787),
    (42802, 42862, 2, 42803), (42873, 42875, 2, 42874), (42877, 42877, 1, 7545),
    (42878, 42886, 2, 42879), (42891, 42891, 1, 42892), (42893, 42893, 1, 613),
    (42896, 42898, 2, 42897), (42902, 42920, 2, 42903), (42922, 42922, 1, 614),
    (42923, 42923, 1, 604), (42924, 42924, 1, 609), (42925, 42925, 1, 620),
    (42926, 42926, 1, 618), (42928, 42928, 1, 670), (42929, 42929, 1, 647),
    (42930, 42930, 1, 669), (42931, 42931, 1, 43859), (42932, 42946, 2, 42933),
    (42948, 42948, 1, 42900), (42949, 42949, 1, 642), (42950, 42950, 1, 7566),
    (42951, 42953, 2, 42952), (42960, 42960, 1, 42961), (42966, 42968, 2, 42967),
    (42997, 42997, 1, 42998), (65313, 65338, 1, 65345), (66560, 66599, 1, 66600),
    (66736, 66771, 1, 66776), (66928, 66938, 1, 66967), (66940, 66954, 1, 66979),
    (66956, 66962, 1, 66995), (66964, 66965, 1, 67003), (68736, 68786, 1, 68800),
    (71840, 71871, 1, 71872), (93760, 93791, 1, 93792), (125184, 125217, 1, 125218)]"

definition upper_ranges :: "case_range list" where
  "upper_ranges = [
    (181, 181, 1, 924), (224, 246, 1, 192), (248, 254, 1, 216), (255, 255, 1, 376),
    (257, 303, 2, 256), (305, 305, 1, 73), (307, 311, 2, 306), (314, 328, 2, 313),
    (331, 375, 2, 330), (378, 382, 2, 377), (383, 383, 1, 83), (384, 384, 1, 579),
    (387, 389, 2, 386), (392, 392, 1, 391), (396, 396, 1, 395), (402, 402, 1, 401),
    (405, 405, 1, 502), (409, 409, 1, 408), (410, 410, 1, 573), (414, 414, 1, 544),
    (417, 421, 2, 416), (424, 424, 1, 423), (429, 429, 1, 428), (432, 432, 1, 431),
    (436, 438, 2, 435), (441, 441, 1, 440), (445, 445, 1, 444), (447, 447, 1, 503),
    (453, 453, 1, 452), (454, 454, 1, 452), (456, 456, 1, 455), (457, 457, 1, 455),
    (459, 459, 1, 458), (460, 460, 1, 458), (462, 476, 2, 461), (477, 477, 1, 398),
    (479, 495, 2, 478), (498, 498, 1, 497), (499, 499, 1, 497), (501, 501, 1, 500),
    (505, 543, 2, 504), (547, 563, 2, 546), (572, 572, 1, 571), (575, 576, 1, 11390),
    (578, 578, 1, 577), (583, 591, 2, 582), (592, 592, 1, 11375), (593, 593, 1, 11373),
    (594, 594, 1, 11376), (595, 595, 1, 385), (596, 596, 1, 390), (598, 599, 1, 393),
    (601, 601, 1, 399), (603, 603, 1, 400), (604, 604, 1, 42923), (608, 608, 1, 403),
    (609, 609, 1, 42924), (611, 611, 1, 404), (613, 613, 1, 42893), (614, 614, 1, 42922),
    (616, 616, 1, 407), (617, 617, 1, 406), (618, 618, 1, 42926), (619, 619, 1, 11362),
    (620, 620, 1, 42925), (623, 623, 1, 412), (625, 625, 1, 11374), (626, 626, 1, 413),
    (629, 629, 1, 415), (637, 637, 1, 11364), (640, 640, 1, 422), (642, 642, 1, 42949),
    (643, 643, 1, 425), (647, 647, 1, 42929), (648, 648, 1, 430), (649, 649, 1, 580),
    (650, 651, 1, 433), (652, 652, 1, 581), (658, 658, 1, 439), (669, 669, 1, 42930),
    (670, 670, 1, 42928), (837, 837, 1, 921), (881, 883, 2, 880), (887, 887, 1, 886),
    (891, 893, 1, 1021), (940, 940, 1, 902), (941, 943, 1, 904), (945, 961, 1, 913),
    (962, 962, 1, 931), (963, 971, 1, 931), (972, 972, 1, 908), (973, 974, 1, 910),
    (976, 976, 1, 914), (977, 977, 1, 920), (981, 981, 1, 934), (982, 982, 1, 928),
    (983, 983, 1, 975), (985, 1007, 2, 984), (1008, 1008, 1, 922), (1009, 1009, 1, 929),
    (1010, 1010, 1, 1017), (1011, 1011, 1, 895), (1013, 1013, 1, 917), (1016, 1016, 1, 1015),
    (1019, 1019, 1, 1018), (1072, 1103, 1, 1040), (1104, 1119, 1, 1024), (1121, 1153, 2, 1120),
    (1163, 1215, 2, 1162), (1218, 1230, 2, 1217), (1231, 1231, 1, 1216), (1233, 1327, 2, 1232),
    (1377, 1414, 1, 1329), (4304, 4346, 1, 7312), (4349, 4351, 1, 7357), (5112, 5117, 1, 5104),
    (7296, 7296, 1, 1042), (7297, 7297, 1, 1044), (7298, 7298, 1, 1054), (7299, 7300, 1, 1057),
    (7301, 7301, 1, 1058), (7302, 7302, 1, 1066), (7303, 7303, 1, 1122), (7304, 7304, 1, 42570),
    (7545, 7545, 1, 42877), (7549, 7549, 1, 11363), (7566, 7566, 1, 42950),
    (7681, 7829, 2, 7680), (7835, 7835, 1, 7776), (7841, 7935, 2, 7840), (7936, 7943, 1, 7944),
    (7952, 7957, 1, 7960), (7968, 7975, 1, 7976), (7984, 7991, 1, 7992), (8000, 8005, 1, 8008),
    (8017, 8023, 2, 8025), (8032, 8039, 1, 8040), (8048, 8049, 1, 8122), (8050, 8053, 1, 8136),
    (8054, 8055, 1, 8154), (8056, 8057, 1, 8184), (8058, 8059, 1, 8170), (8060, 8061, 1, 8186),
    (8064, 8071, 1, 8072), (8080, 8087, 1, 8088), (8096, 8103, 1, 8104), (8112, 8113, 1, 8120),
    (8115, 8115, 1, 8124), (8126, 8126, 1, 921), (8131, 8131, 1, 8140), (8144, 8145, 1, 8152),
    (8160, 8161, 1, 8168), (8165, 8165, 1, 8172), (8179, 8179, 1, 8188), (8526, 8526, 1, 8498),
    (8560, 8575, 1, 8544), (8580, 8580, 1, 8579), (9424, 9449, 1, 9398),
    (11312, 11359, 1, 11264), (11361, 11361, 1, 11360), (11365, 11365, 1, 570),
    (11366, 11366, 1, 574), (11368, 11372, 2, 11367), (11379, 11379, 1, 11378),
    (11382, 11382, 1, 11381), (11393, 11491, 2, 11392), (11500, 11502, 2, 11499),
    (11507, 11507, 1, 11506), (11520, 11557, 1, 4256), (11559, 11559, 1, 4295),
    (11565, 11565, 1, 4301), (42561, 42605, 2, 42560), (42625, 42651, 2, 42624),
    (42787, 42799, 2, 42786), (42803, 42863, 2, 42802), (42874, 42876, 2, 42873),
    (42879, 42887, 2, 42878), (42892, 42892, 1, 42891), (42897, 42899, 2, 42896),
    (42900, 42900, 1, 42948), (42903, 42921, 2, 42902), (42933, 42947, 2, 42932),
    (42952, 42954, 2, 42951), (42961, 42961, 1, 42960), (42967, 42969, 2, 42966),
    (42998, 42998, 1, 42997), (43859, 43859, 1, 42931), (43888, 43967, 1, 5024),
    (65345, 65370, 1, 65313), (66600, 66639, 1, 66560), (66776, 66811, 1, 66736),
    (66967, 66977, 1, 66928), (66979, 66993, 1, 66940), (66995, 67001, 1, 66956),
    (67003, 67004, 1, 66964), (68800, 68850, 1, 68736), (71872, 71903, 1, 71840),
    (93792, 93823, 1, 93760), (125218, 125251, 1, 125184)]"

section \<open>unicode.ToLower, unicode.ToUpper, unicode.IsSpace\<close>

definition rune_lower :: "rune \<Rightarrow> rune" where
  "rune_lower r =
     (if r < 128 then (if 65 \<le> r \<and> r \<le> 90 then r + 32 else r) else case_lookup lower_ranges r)"

definition rune_upper :: "rune \<Rightarrow> rune" where
  "rune_upper r =
     (if r < 128 then (if 97 \<le> r \<and> r \<le> 122 then r - 32 else r) else case_lookup upper_ranges r)"

definition is_space :: "rune \<Rightarrow> bool" where
  "is_space r =
     (if r < 256 then 9 \<le> r \<and> r \<le> 13 \<or> r = 32 \<or> r = 0x85 \<or> r = 0xA0
      else r = 0x1680 \<or> 0x2000 \<le> r \<and> r \<le> 0x200A \<or> r = 0x2028 \<or> r = 0x2029 \<or> r = 0x202F
           \<or> r = 0x205F \<or> r = 0x3000)"

section \<open>UTF-8\<close>

abbreviation rune_error :: rune where
  "rune_error \<equiv> 0xFFFD"

definition valid_rune :: "rune \<Rightarrow> bool" where
  "valid_rune r \<longleftrightarrow> r < 0xD800 \<or> 0xDFFF < r \<and> r < 0x110000"

text \<open>
  The class of a leading byte: the length of its sequence and the range its second byte must
  lie in, \<^const>\<open>None\<close> for a byte that starts no sequence of two or more bytes.
\<close>

definition lead_class :: "nat \<Rightarrow> (nat \<times> nat \<times> nat) option" where
  "lead_class b =
     (if 0xC2 \<le> b \<and> b \<le> 0xDF then Some (2, 0x80, 0xBF)
      else if b = 0xE0 then Some (3, 0xA0, 0xBF)
      else if b = 0xED then Some (3, 0x80, 0x9F)
      else if 0xE1 \<le> b \<and> b \<le> 0xEF then Some (3, 0x80, 0xBF)
      else if b = 0xF0 then Some (4, 0x90, 0xBF)
      else if 0xF1 \<le> b \<and> b \<le> 0xF3 then Some (4, 0x80, 0xBF)
      else if b = 0xF4 then Some (4, 0x80, 0x8F)
      else None)"

definition continuation :: "char \<Rightarrow> bool" where
  "continuation c \<longleftrightarrow> 0x80 \<le> byte c \<and> byte c \<le> 0xBF"

text \<open>\<open>utf8.DecodeRune\<close>: the first rune of a byte string and its width.\<close>

fun decode_rune :: "bytes \<Rightarrow> rune \<times> nat" where
  "decode_rune [] = (rune_error, 0)"
| "decode_rune (c # cs) =
     (let b = byte c in
      if b < 0x80 then (b, 1)
      else case lead_class b of
        None \<Rightarrow> (rune_error, 1)
      | Some (n, lo, hi) \<Rightarrow>
          if length cs < n - 1 then (rune_error, 1)
          else if byte (cs ! 0) < lo \<or> hi < byte (cs ! 0) then (rune_error, 1)
          else if n = 2 then ((b mod 32) * 64 + byte (cs ! 0) mod 64, 2)
          else if \<not> continuation (cs ! 1) then (rune_error, 1)
          else if n = 3
            then ((b mod 16) * 4096 + (byte (cs ! 0) mod 64) * 64 + byte (cs ! 1) mod 64, 3)
          else if \<not> continuation (cs ! 2) then (rune_error, 1)
          else ((b mod 8) * 262144 + (byte (cs ! 0) mod 64) * 4096
                + (byte (cs ! 1) mod 64) * 64 + byte (cs ! 2) mod 64, 4))"

text \<open>\<open>utf8.DecodeLastRune\<close>: scan back at most four bytes for a byte that can start a rune.\<close>

definition rune_start :: "char \<Rightarrow> bool" where
  "rune_start c \<longleftrightarrow> \<not> continuation c"

definition last_rune_width :: "bytes \<Rightarrow> nat" where
  "last_rune_width s =
     (let n = length s in
      if 2 \<le> n \<and> rune_start (s ! (n - 2)) then 2
      else if 3 \<le> n \<and> rune_start (s ! (n - 3)) then 3
      else if 4 \<le> n \<and> rune_start (s ! (n - 4)) then 4
      else min n 5)"

definition decode_last_rune :: "bytes \<Rightarrow> rune \<times> nat" where
  "decode_last_rune s =
     (if s = [] then (rune_error, 0)
      else if byte (last s) < 0x80 then (byte (last s), 1)
      else let w = last_rune_width s; (r, size) = decode_rune (drop (length s - w) s)
           in if size = w then (r, size) else (rune_error, 1))"

text \<open>\<open>utf8.AppendRune\<close>: the UTF-8 coding of a rune; an invalid one is written as \<open>U+FFFD\<close>.\<close>

definition encode_rune :: "rune \<Rightarrow> bytes" where
  "encode_rune r =
     (if r < 0x80 then [char_of r]
      else if r < 0x800 then [char_of (0xC0 + r div 64), char_of (0x80 + r mod 64)]
      else if \<not> valid_rune r then [char_of (0xEF :: nat), char_of (0xBF :: nat), char_of (0xBD :: nat)]
      else if r < 0x10000
        then [char_of (0xE0 + r div 4096), char_of (0x80 + r div 64 mod 64),
              char_of (0x80 + r mod 64)]
      else [char_of (0xF0 + r div 262144), char_of (0x80 + r div 4096 mod 64),
            char_of (0x80 + r div 64 mod 64), char_of (0x80 + r mod 64)])"

section \<open>Facts on runes\<close>

lemma rune_lower_ascii: "r < 128 \<Longrightarrow> rune_lower r < 128"
  by (simp add: rune_lower_def)

lemma rune_lower_error [simp]: "rune_lower rune_error = rune_error"
proof -
  have "list_all (\<lambda>e. \<not> in_range rune_error e) lower_ranges"
    by (simp add: lower_ranges_def)
  then have "find (in_range rune_error) lower_ranges = None"
    unfolding find_None_iff list_all_iff by blast
  then show ?thesis by (simp add: rune_lower_def case_lookup_def)
qed

lemma decode_rune_ascii [simp]: "byte c < 128 \<Longrightarrow> decode_rune (c # cs) = (byte c, 1)"
  by simp

lemma decode_rune_no_lead:
  "128 \<le> byte c \<Longrightarrow> lead_class (byte c) = None \<Longrightarrow> decode_rune (c # cs) = (rune_error, 1)"
  by simp

lemma encode_rune_ascii [simp]: "r < 128 \<Longrightarrow> encode_rune r = [char_of r]"
  by (simp add: encode_rune_def)

lemma decode_rune_width:
  assumes "decode_rune (c # cs) = (r, w)"
  shows "1 \<le> w \<and> w \<le> Suc (length cs)"
  using assms
  by (auto simp: Let_def lead_class_def Suc_le_eq split: if_splits option.splits)

lemma decode_last_rune_ascii [simp]:
  "byte c < 128 \<Longrightarrow> decode_last_rune (cs @ [c]) = (byte c, 1)"
  by (simp add: decode_last_rune_def)

lemma last_rune_width_bounds: "s \<noteq> [] \<Longrightarrow> 1 \<le> last_rune_width s \<and> last_rune_width s \<le> length s"
  by (auto simp: last_rune_width_def Let_def Suc_le_eq)

lemma decode_last_rune_width:
  assumes "decode_last_rune s = (r, w)" and "s \<noteq> []"
  shows "1 \<le> w \<and> w \<le> length s"
  using assms last_rune_width_bounds [OF assms(2)]
  by (auto simp: decode_last_rune_def Let_def Suc_le_eq split: if_splits prod.splits)

declare decode_rune.simps(2) [simp del]

end
