(* ===== verification/Go_Strings.thy ===== *)
theory Go_Strings
  imports Go_Unicode
begin

text \<open>
  The functions of Go's packages \<open>strings\<close>, \<open>bytes\<close>, \<open>strconv\<close> and \<open>fmt\<close> that the program
  calls, on byte strings: case conversion, trimming, searching, joining and decimal printing.
  \<open>strings.ToLower\<close> and \<open>bytes.ToLower\<close> compute the same bytes and are one function here.
\<close>

section \<open>Case conversion\<close>

definition is_ascii :: "bytes \<Rightarrow> bool" where
  "is_ascii s \<longleftrightarrow> list_all (\<lambda>c. byte c < 128) s"

definition ascii_lower :: "char \<Rightarrow> char" where
  "ascii_lower c = (if 65 \<le> byte c \<and> byte c \<le> 90 then char_of (byte c + 32) else c)"

definition ascii_upper :: "char \<Rightarrow> char" where
  "ascii_upper c = (if 97 \<le> byte c \<and> byte c \<le> 122 then char_of (byte c - 32) else c)"

text \<open>\<open>strings.Map\<close> and \<open>bytes.Map\<close>: decode rune by rune, map, encode.\<close>

fun map_runes :: "(rune \<Rightarrow> rune) \<Rightarrow> bytes \<Rightarrow> bytes" where
  "map_runes f [] = []"
| "map_runes f (c # cs) =
     (let (r, w) = decode_rune (c # cs) in encode_rune (f r) @ map_runes f (drop (w - 1) cs))"

definition ToLower :: "bytes \<Rightarrow> bytes" where
  "ToLower s = (if is_ascii s then map ascii_lower s else map_runes rune_lower s)"

definition ToUpper :: "bytes \<Rightarrow> bytes" where
  "ToUpper s = (if is_ascii s then map ascii_upper s else map_runes rune_upper s)"

section \<open>Trimming\<close>

fun trim_left_space :: "bytes \<Rightarrow> bytes" where
  "trim_left_space [] = []"
| "trim_left_space (c # cs) =
     (let (r, w) = decode_rune (c # cs)
      in if is_space r then trim_left_space (drop (w - 1) cs) else c # cs)"

function trim_right_space :: "bytes \<Rightarrow> bytes" where
  "trim_right_space s =
     (if s = [] then []
      else let (r, w) = decode_last_rune s
           in if is_space r then trim_right_space (take (length s - w) s) else s)"
  by pat_completeness auto
termination
  by (relation "measure length") (auto dest!: decode_last_rune_width [OF sym])

declare trim_right_space.simps [simp del]

definition TrimSpace :: "bytes \<Rightarrow> bytes" where
  "TrimSpace s = trim_right_space (trim_left_space s)"

definition HasPrefix :: "bytes \<Rightarrow> bytes \<Rightarrow> bool" where
  "HasPrefix s p \<longleftrightarrow> take (length p) s = p"

definition HasSuffix :: "bytes \<Rightarrow> bytes \<Rightarrow> bool" where
  "HasSuffix s p \<longleftrightarrow> length p \<le> length s \<and> drop (length s - length p) s = p"

definition TrimPrefix :: "bytes \<Rightarrow> bytes \<Rightarrow> bytes" where
  "TrimPrefix s p = (if HasPrefix s p then drop (length p) s else s)"

definition TrimSuffix :: "bytes \<Rightarrow> bytes \<Rightarrow> bytes" where
  "TrimSuffix s p = (if HasSuffix s p then take (length s - length p) s else s)"

section \<open>Searching, joining, printing\<close>

primrec IndexByte :: "bytes \<Rightarrow> char \<Rightarrow> nat option" where
  "IndexByte [] c = None"
| "IndexByte (x # xs) c = (if x = c then Some 0 else map_option Suc (IndexByte xs c))"

primrec LastIndexByte :: "bytes \<Rightarrow> char \<Rightarrow> nat option" where
  "LastIndexByte [] c = None"
| "LastIndexByte (x # xs) c =
     (case LastIndexByte xs c of
        Some i \<Rightarrow> Some (Suc i)
      | None \<Rightarrow> if x = c then Some 0 else None)"

primrec Index :: "bytes \<Rightarrow> bytes \<Rightarrow> nat option" where
  "Index [] p = (if p = [] then Some 0 else None)"
| "Index (x # xs) p = (if HasPrefix (x # xs) p then Some 0 else map_option Suc (Index xs p))"

definition Contains :: "bytes \<Rightarrow> bytes \<Rightarrow> bool" where
  "Contains s p \<longleftrightarrow> Index s p \<noteq> None"

fun Join :: "bytes list \<Rightarrow> bytes \<Rightarrow> bytes" where
  "Join [] sep = []"
| "Join [s] sep = s"
| "Join (s # t # ss) sep = s @ sep @ Join (t # ss) sep"

definition digit_char :: "nat \<Rightarrow> char" where
  "digit_char d = char_of (48 + d)"

fun decimal :: "nat \<Rightarrow> bytes" where
  "decimal n = (if n < 10 then [digit_char n] else decimal (n div 10) @ [digit_char (n mod 10)])"

declare decimal.simps [simp del]

section \<open>Case conversion and trimming on ASCII\<close>

lemma is_ascii_simps [simp]:
  "is_ascii []" "is_ascii (c # s) \<longleftrightarrow> byte c < 128 \<and> is_ascii s"
  "is_ascii (s @ t) \<longleftrightarrow> is_ascii s \<and> is_ascii t"
  by (auto simp: is_ascii_def)

lemma is_ascii_take [simp]: "is_ascii s \<Longrightarrow> is_ascii (take n s)"
  by (metis append_take_drop_id is_ascii_simps(3))

lemma is_ascii_drop [simp]: "is_ascii s \<Longrightarrow> is_ascii (drop n s)"
  by (metis append_take_drop_id is_ascii_simps(3))

lemma byte_ascii_lower: "byte c < 128 \<Longrightarrow> byte (ascii_lower c) = rune_lower (byte c)"
  by (simp add: ascii_lower_def rune_lower_def)

lemma char_of_rune_lower: "byte c < 128 \<Longrightarrow> char_of (rune_lower (byte c)) = ascii_lower c"
  by (metis byte_ascii_lower char_of_char)

lemma ToLower_ascii [go_simps]: "is_ascii s \<Longrightarrow> ToLower s = map ascii_lower s"
  by (simp add: ToLower_def)

text \<open>The ASCII fast path of \<open>ToLower\<close> agrees with the general path.\<close>

lemma map_runes_ascii: "is_ascii s \<Longrightarrow> map_runes rune_lower s = map ascii_lower s"
  by (induction s) (auto simp: rune_lower_ascii char_of_rune_lower)

lemma ToLower_eq_map_runes: "ToLower s = map_runes rune_lower s"
  by (simp add: ToLower_def map_runes_ascii)

lemma length_ToLower_ascii [simp]: "is_ascii s \<Longrightarrow> length (ToLower s) = length s"
  by (simp add: ToLower_def)

lemma ascii_lower_idem [simp]: "ascii_lower (ascii_lower c) = ascii_lower c"
  by (simp add: ascii_lower_def)

lemma is_ascii_map_lower [simp]: "is_ascii (map ascii_lower s) \<longleftrightarrow> is_ascii s"
proof (induction s)
  case (Cons c s)
  have "byte (ascii_lower c) < 128 \<longleftrightarrow> byte c < 128"
    by (auto simp: ascii_lower_def)
  with Cons show ?case by simp
qed simp

definition space_char :: "char \<Rightarrow> bool" where
  "space_char c \<longleftrightarrow> is_space (byte c)"

lemma trim_left_space_length: "length (trim_left_space s) \<le> length s"
  by (induction s rule: trim_left_space.induct) (force split: prod.splits)+

lemma trim_left_space_ascii:
  "is_ascii s \<Longrightarrow> trim_left_space s = dropWhile space_char s"
  by (induction s) (auto simp: space_char_def)

lemma trim_right_space_ascii:
  "is_ascii s \<Longrightarrow> trim_right_space s = rev (dropWhile space_char (rev s))"
proof (induction s rule: rev_induct)
  case Nil
  then show ?case by (simp add: trim_right_space.simps)
next
  case (snoc c s)
  then show ?case
    by (subst trim_right_space.simps) (auto simp: space_char_def [abs_def])
qed

lemma TrimSpace_ascii [go_simps]:
  "is_ascii s \<Longrightarrow> TrimSpace s = rev (dropWhile space_char (rev (dropWhile space_char s)))"
proof -
  assume a: "is_ascii s"
  then have "is_ascii (dropWhile space_char s)"
    by (metis is_ascii_drop dropWhile_eq_drop)
  with a show ?thesis by (simp add: TrimSpace_def trim_left_space_ascii trim_right_space_ascii)
qed

lemma TrimSpace_no_space:
  assumes "is_ascii s" "\<forall>c \<in> set s. \<not> space_char c"
  shows "TrimSpace s = s"
proof -
  have d: "dropWhile space_char t = t" if "set t \<subseteq> set s" for t
    using that assms(2) by (cases t) auto
  show ?thesis using assms(1) d [of s] d [of "rev s"] by (simp add: TrimSpace_ascii)
qed

lemma TrimSpace_Nil [simp]: "TrimSpace [] = []"
  by (simp add: TrimSpace_def trim_right_space.simps)

text \<open>
  Trimming twice is trimming once, for every byte string: cutting the end of a string can only
  turn its first rune into an invalid one, which is not a space.
\<close>

lemma decode_rune_take:
  "decode_rune (c # take j cs) = decode_rune (c # cs) \<or> decode_rune (c # take j cs) = (rune_error, 1)"
proof (cases "byte c < 0x80 \<or> lead_class (byte c) = None")
  case True
  then show ?thesis by (auto simp: decode_rune.simps Let_def)
next
  case False
  then obtain n lo hi where n: "lead_class (byte c) = Some (n, lo, hi)" by auto
  then have n': "n = 2 \<or> n = 3 \<or> n = 4" by (auto simp: lead_class_def split: if_splits)
  show ?thesis
  proof (cases "min (length cs) j < n - 1")
    case True
    with False n have "decode_rune (c # take j cs) = (rune_error, 1)"
      by (simp add: decode_rune.simps Let_def)
    then show ?thesis ..
  next
    case short: False
    then have "\<not> length cs < n - 1" "\<And>i. i < n - 1 \<Longrightarrow> take j cs ! i = cs ! i" by auto
    with short False n n' have "decode_rune (c # take j cs) = decode_rune (c # cs)"
      by (auto simp: decode_rune.simps Let_def)
    then show ?thesis ..
  qed
qed

lemma trim_left_space_fixed_take:
  assumes "trim_left_space s = s"
  shows "trim_left_space (take k s) = take k s"
proof (cases "take k s")
  case (Cons c t)
  then obtain cs j where s: "s = c # cs" "t = take j cs"
    by (cases s; cases k) auto
  have "length (trim_left_space (drop n cs)) < length (c # cs)" for n
    using trim_left_space_length [of "drop n cs"] by simp
  then have "trim_left_space (drop n cs) \<noteq> c # cs" for n
    by (metis less_irrefl)
  with assms s have "\<not> is_space (fst (decode_rune (c # cs)))"
    by (auto split: prod.splits if_splits)
  moreover have "\<not> is_space rune_error" by (simp add: is_space_def)
  ultimately have "\<not> is_space (fst (decode_rune (c # t)))"
    using decode_rune_take [of c j cs] s(2) by (metis fst_conv)
  then have "trim_left_space (c # t) = c # t" by (simp add: case_prod_beta Let_def)
  with Cons show ?thesis by (simp only:)
qed auto

lemma trim_right_space_rec:
  assumes "s \<noteq> []"
  shows "trim_right_space s =
    (if is_space (fst (decode_last_rune s))
     then trim_right_space (take (length s - snd (decode_last_rune s)) s) else s)"
  using assms by (subst trim_right_space.simps) (simp add: case_prod_beta Let_def)

lemma trim_right_space_induct [case_names Nil stop step]:
  assumes "P []"
    and "\<And>s. s \<noteq> [] \<Longrightarrow> trim_right_space s = s \<Longrightarrow> P s"
    and "\<And>s k. s \<noteq> [] \<Longrightarrow> trim_right_space s = trim_right_space (take k s) \<Longrightarrow> P (take k s) \<Longrightarrow> P s"
  shows "P s"
proof (induction s rule: length_induct)
  case (1 s)
  consider "s = []" | "s \<noteq> []" "\<not> is_space (fst (decode_last_rune s))"
    | "s \<noteq> []" "is_space (fst (decode_last_rune s))" by blast
  then show ?case
  proof cases
    case 3
    let ?k = "length s - snd (decode_last_rune s)"
    from 3 have "length (take ?k s) < length s"
      using decode_last_rune_width [of s] by (cases "decode_last_rune s") auto
    with "1.IH" have "P (take ?k s)" by blast
    with 3 assms(3) [of s ?k] show ?thesis by (simp add: trim_right_space_rec)
  qed (use assms in \<open>auto simp: trim_right_space_rec\<close>)
qed

lemma trim_right_space_take: "\<exists>k. trim_right_space s = take k s"
proof (induction s rule: trim_right_space_induct)
  case Nil
  then show ?case by (simp add: trim_right_space.simps)
next
  case (stop s)
  then show ?case by (intro exI [of _ "length s"]) simp
next
  case (step s k)
  then show ?case by (auto simp: take_take)
qed

lemma trim_right_space_idem: "trim_right_space (trim_right_space s) = trim_right_space s"
  by (induction s rule: trim_right_space_induct) (auto simp: trim_right_space.simps [of "[]"])

lemma trim_left_space_idem: "trim_left_space (trim_left_space s) = trim_left_space s"
  by (induction s rule: trim_left_space.induct) (auto split: prod.splits)

lemma TrimSpace_idem [simp]: "TrimSpace (TrimSpace s) = TrimSpace s"
proof -
  obtain k where k: "trim_right_space (trim_left_space s) = take k (trim_left_space s)"
    using trim_right_space_take by blast
  then have "trim_left_space (trim_right_space (trim_left_space s)) = trim_right_space (trim_left_space s)"
    using trim_left_space_fixed_take [OF trim_left_space_idem] by simp
  then show ?thesis by (simp add: TrimSpace_def trim_right_space_idem)
qed

section \<open>Prefixes, suffixes and searching\<close>

lemma HasPrefix_iff: "HasPrefix s p \<longleftrightarrow> (\<exists>t. s = p @ t)"
  by (metis HasPrefix_def append_eq_conv_conj append_take_drop_id)

lemma HasPrefix_append [simp]: "HasPrefix (p @ t) p"
  by (simp add: HasPrefix_def)

lemma HasPrefix_Cons [simp]: "HasPrefix (x # xs) (y # ys) \<longleftrightarrow> x = y \<and> HasPrefix xs ys"
  by (simp add: HasPrefix_def)

lemma HasPrefix_Nil [simp]: "HasPrefix s []" "HasPrefix [] (y # ys) \<longleftrightarrow> False"
  by (simp_all add: HasPrefix_def)

lemma HasSuffix_single: "HasSuffix s [c] \<longleftrightarrow> s \<noteq> [] \<and> last s = c"
proof (cases s rule: rev_cases)
  case (snoc ys y)
  then show ?thesis by (simp add: HasSuffix_def)
qed (simp add: HasSuffix_def)

lemma TrimSuffix_single: "TrimSuffix s [c] = (if s \<noteq> [] \<and> last s = c then butlast s else s)"
  by (simp add: TrimSuffix_def HasSuffix_single butlast_conv_take)

lemma IndexByte_None_iff: "IndexByte s c = None \<longleftrightarrow> c \<notin> set s"
  by (induction s) auto

text \<open>Cutting a string at the first occurrence of a byte.\<close>

lemma cut_at_IndexByte:
  "(case IndexByte s c of None \<Rightarrow> s | Some i \<Rightarrow> take i s) = takeWhile (\<lambda>x. x \<noteq> c) s"
proof (induction s)
  case (Cons x s)
  then show ?case by (cases "IndexByte s c") auto
qed simp

lemma Index_Some_iff:
  "Index s p = Some i \<longleftrightarrow>
     i \<le> length s \<and> HasPrefix (drop i s) p \<and> (\<forall>j < i. \<not> HasPrefix (drop j s) p)"
proof (induction s arbitrary: i)
  case Nil
  then show ?case by (cases p) (auto simp: HasPrefix_def)
next
  case (Cons x s)
  show ?case
  proof (cases i)
    case 0
    then show ?thesis by auto
  next
    case (Suc k)
    have "(\<forall>j < Suc k. \<not> HasPrefix (drop j (x # s)) p)
          \<longleftrightarrow> \<not> HasPrefix (x # s) p \<and> (\<forall>j < k. \<not> HasPrefix (drop j s) p)"
      by (auto simp: less_Suc_eq_0_disj)
    with Suc Cons show ?thesis by auto
  qed
qed

lemma Index_None_iff: "Index s p = None \<longleftrightarrow> (\<forall>j \<le> length s. \<not> HasPrefix (drop j s) p)"
proof (induction s)
  case Nil
  then show ?case by (cases p) (auto simp: HasPrefix_def)
next
  case (Cons x s)
  have "(\<forall>j \<le> Suc (length s). \<not> HasPrefix (drop j (x # s)) p)
        \<longleftrightarrow> \<not> HasPrefix (x # s) p \<and> (\<forall>j \<le> length s. \<not> HasPrefix (drop j s) p)"
    by (simp add: all_le_Suc_split)
  with Cons show ?case by simp
qed

lemma Contains_iff: "Contains s p \<longleftrightarrow> (\<exists>a b. s = a @ p @ b)"
proof -
  have "Contains s p \<longleftrightarrow> (\<exists>j \<le> length s. HasPrefix (drop j s) p)"
    by (auto simp: Contains_def Index_None_iff)
  also have "\<dots> \<longleftrightarrow> (\<exists>a b. s = a @ p @ b)"
  proof
    assume "\<exists>j \<le> length s. HasPrefix (drop j s) p"
    then obtain j t where "drop j s = p @ t" by (auto simp: HasPrefix_iff)
    then have "s = take j s @ p @ t" by (metis append_take_drop_id)
    then show "\<exists>a b. s = a @ p @ b" by blast
  next
    assume "\<exists>a b. s = a @ p @ b"
    then obtain a b where "s = a @ p @ b" by blast
    then have "length a \<le> length s \<and> HasPrefix (drop (length a) s) p" by simp
    then show "\<exists>j \<le> length s. HasPrefix (drop j s) p" by blast
  qed
  finally show ?thesis .
qed

end
