(* ===== verification/Go_Netip.thy ===== *)
theory Go_Netip
  imports Go_Strings
begin

text \<open>
  Package \<open>net/netip\<close> as the program uses it: addresses (with their IPv6 zone), the text parser
  \<open>ParseAddr\<close>, prefixes, \<open>ParsePrefix\<close>, \<open>Masked\<close> and \<open>Contains\<close>, and the byte forms
  \<open>AddrFromSlice\<close> and \<open>As16\<close>. The parsers are translated statement by statement, the loops
  as recursion over what is left of the input.
\<close>

unbundle bit_operations_syntax

section \<open>Addresses\<close>

datatype addr =
    AddrZero
  | Addr4 "32 word"
  | Addr6 "128 word" (zone: bytes)

datatype netip_error = ParseAddrError bytes | ParsePrefixError bytes

definition Is4 :: "addr \<Rightarrow> bool" where
  "Is4 a = (case a of Addr4 _ \<Rightarrow> True | _ \<Rightarrow> False)"

definition Is6 :: "addr \<Rightarrow> bool" where
  "Is6 a = (case a of Addr6 _ _ \<Rightarrow> True | _ \<Rightarrow> False)"

definition hasZone :: "addr \<Rightarrow> bool" where
  "hasZone a = (case a of Addr6 _ z \<Rightarrow> z \<noteq> [] | _ \<Rightarrow> False)"

definition Is4In6 :: "addr \<Rightarrow> bool" where
  "Is4In6 a = (case a of Addr6 w _ \<Rightarrow> drop_bit 32 w = 0xFFFF | _ \<Rightarrow> False)"

text \<open>\<open>Unmap\<close> turns an IPv4-mapped IPv6 address into the IPv4 address, dropping its zone.\<close>

definition Unmap :: "addr \<Rightarrow> addr" where
  "Unmap a = (case a of Addr6 w _ \<Rightarrow> if Is4In6 a then Addr4 (ucast w) else a | _ \<Rightarrow> a)"

definition BitLen :: "addr \<Rightarrow> nat" where
  "BitLen a = (case a of AddrZero \<Rightarrow> 0 | Addr4 _ \<Rightarrow> 32 | Addr6 _ _ \<Rightarrow> 128)"

definition withoutZone :: "addr \<Rightarrow> addr" where
  "withoutZone a = (case a of Addr6 w _ \<Rightarrow> Addr6 w [] | _ \<Rightarrow> a)"

definition AddrFromSlice :: "bytes \<Rightarrow> addr option" where
  "AddrFromSlice bs =
     (if length bs = 4 then Some (Addr4 (of_int (be_val bs)))
      else if length bs = 16 then Some (Addr6 (of_int (be_val bs)) [])
      else None)"

definition As4 :: "32 word \<Rightarrow> bytes" where
  "As4 w = be_bytes 4 (uint w)"

definition As16 :: "128 word \<Rightarrow> bytes" where
  "As16 w = be_bytes 16 (uint w)"

section \<open>Parsing addresses\<close>

definition is_digit :: "char \<Rightarrow> bool" where
  "is_digit c \<longleftrightarrow> 48 \<le> byte c \<and> byte c \<le> 57"

text \<open>
  The loop of \<open>parseIPv4\<close>: the previous byte, what is left, the value and number of digits of
  the current octet and the octets before it. The result is the four octets.
\<close>

fun parseIPv4_loop :: "char option \<Rightarrow> bytes \<Rightarrow> nat \<Rightarrow> nat \<Rightarrow> nat list \<Rightarrow> nat list option" where
  "parseIPv4_loop prev [] val digLen fields =
     (if length fields < 3 then None else Some (fields @ [val]))"
| "parseIPv4_loop prev (c # cs) val digLen fields =
     (if is_digit c then
        (if digLen = 1 \<and> val = 0 then None
         else if val * 10 + (byte c - 48) > 255 then None
         else parseIPv4_loop (Some c) cs (val * 10 + (byte c - 48)) (Suc digLen) fields)
      else if c = CHR ''.'' then
        (if prev = None \<or> cs = [] \<or> prev = Some (CHR ''.'') then None
         else if length fields = 3 then None
         else parseIPv4_loop (Some c) cs 0 0 (fields @ [val]))
      else None)"

definition octets_val :: "nat list \<Rightarrow> int" where
  "octets_val fs = foldl (\<lambda>n f. 256 * n + int f) 0 fs"

definition parseIPv4 :: "bytes \<Rightarrow> addr option" where
  "parseIPv4 s = map_option (\<lambda>fs. Addr4 (of_int (octets_val fs))) (parseIPv4_loop None s 0 0 [])"

definition hex_digit :: "char \<Rightarrow> int option" where
  "hex_digit c =
     (if is_digit c then Some (of_char c - 48)
      else if 97 \<le> byte c \<and> byte c \<le> 102 then Some (of_char c - 97 + 10)
      else if 65 \<le> byte c \<and> byte c \<le> 70 then Some (of_char c - 65 + 10)
      else None)"

text \<open>
  One group of hexadecimal digits: how many there are and their value, the \<open>uint32\<close> of the
  source. At most five digits are read, so the accumulator stays below \<open>2\<^sup>2\<^sup>0\<close> and never wraps.
\<close>

fun scan_group :: "bytes \<Rightarrow> nat \<Rightarrow> int \<Rightarrow> (nat \<times> int) option" where
  "scan_group [] off acc = Some (off, acc)"
| "scan_group (c # cs) off acc =
     (case hex_digit c of
        None \<Rightarrow> Some (off, acc)
      | Some d \<Rightarrow>
          if off > 3 then None
          else if acc * 16 + d > 65535 then None
          else scan_group cs (Suc off) (acc * 16 + d))"

text \<open>
  The group loop of \<open>parseIPv6\<close>: the address bytes so far, the position of the ellipsis and
  what is left of the text. The result adds the text left when the loop ends.
\<close>

function parseIPv6_loop ::
  "bytes \<Rightarrow> nat option \<Rightarrow> bytes \<Rightarrow> (bytes \<times> nat option \<times> bytes) option" where
  "parseIPv6_loop ip ellipsis s =
     (if \<not> length ip < 16 then Some (ip, ellipsis, s)
      else case scan_group s 0 0 of
        None \<Rightarrow> None
      | Some (off, acc) \<Rightarrow>
          if off = 0 then None
          else if off < length s \<and> s ! off = CHR ''.'' then
            (if ellipsis = None \<and> length ip \<noteq> 12 then None
             else if length ip + 4 > 16 then None
             else map_option (\<lambda>fs. (ip @ map char_of fs, ellipsis, []))
                    (parseIPv4_loop None s 0 0 []))
          else
            (let ip' = ip @ [char_of (acc div 256), char_of (acc mod 256)]; s1 = drop off s in
             if s1 = [] then Some (ip', ellipsis, [])
             else if hd s1 \<noteq> CHR '':'' then None
             else if length s1 = 1 then None
             else if hd (tl s1) = CHR '':'' then
               (if ellipsis \<noteq> None then None
                else if tl (tl s1) = [] then Some (ip', Some (length ip'), [])
                else parseIPv6_loop ip' (Some (length ip')) (tl (tl s1)))
             else parseIPv6_loop ip' ellipsis (tl s1)))"
  by pat_completeness auto
termination
  by (relation "measure (\<lambda>(ip, ellipsis, s). 16 - length ip)") auto

declare parseIPv6_loop.simps [simp del]

definition expand_ellipsis :: "bytes \<Rightarrow> nat option \<Rightarrow> bytes option" where
  "expand_ellipsis ip ellipsis =
     (if length ip < 16
      then map_option (\<lambda>e. take e ip @ replicate (16 - length ip) (CHR 0x00) @ drop e ip) ellipsis
      else if ellipsis \<noteq> None then None
      else Some ip)"

definition parseIPv6_groups :: "bytes \<Rightarrow> bytes option" where
  "parseIPv6_groups s =
     (if HasPrefix s ''::'' \<and> drop 2 s = [] then Some (replicate 16 (CHR 0x00))
      else do {
        (ip, ellipsis, rest) \<leftarrow>
          (if HasPrefix s ''::'' then parseIPv6_loop [] (Some 0) (drop 2 s)
           else parseIPv6_loop [] None s);
        if rest \<noteq> [] then None else expand_ellipsis ip ellipsis })"

definition parseIPv6 :: "bytes \<Rightarrow> addr option" where
  "parseIPv6 s =
     (case IndexByte s (CHR ''%'') of
        None \<Rightarrow> map_option (\<lambda>ip. Addr6 (of_int (be_val ip)) []) (parseIPv6_groups s)
      | Some i \<Rightarrow>
          if drop (Suc i) s = [] then None
          else map_option (\<lambda>ip. Addr6 (of_int (be_val ip)) (drop (Suc i) s))
                 (parseIPv6_groups (take i s)))"

text \<open>\<open>ParseAddr\<close> decides by the first of the bytes dot, colon and percent.\<close>

fun addr_kind :: "bytes \<Rightarrow> char option" where
  "addr_kind [] = None"
| "addr_kind (c # cs) = (if c \<in> set ''.:%'' then Some c else addr_kind cs)"

definition ParseAddr :: "bytes \<Rightarrow> netip_error + addr" where
  "ParseAddr s =
     (case (case addr_kind s of
              None \<Rightarrow> None
            | Some c \<Rightarrow>
                if c = CHR ''.'' then parseIPv4 s
                else if c = CHR '':'' then parseIPv6 s
                else None) of
        None \<Rightarrow> Inl (ParseAddrError s)
      | Some a \<Rightarrow> Inr a)"

section \<open>Prefixes\<close>

text \<open>The length is stored plus one, as in Go; zero marks an invalid prefix.\<close>

record prefix =
  pfx_ip :: addr
  bitsPlusOne :: nat

definition PrefixZero :: prefix where
  "PrefixZero = \<lparr>pfx_ip = AddrZero, bitsPlusOne = 0\<rparr>"

definition PrefixFrom :: "addr \<Rightarrow> nat \<Rightarrow> prefix" where
  "PrefixFrom a bits =
     \<lparr>pfx_ip = withoutZone a,
      bitsPlusOne = (if a \<noteq> AddrZero \<and> bits \<le> BitLen a then Suc bits else 0)\<rparr>"

definition parse_bits :: "bytes \<Rightarrow> nat option" where
  "parse_bits s =
     (if 1 < length s \<and> (byte (hd s) < 49 \<or> 57 < byte (hd s)) then None
      else if s = [] \<or> \<not> list_all is_digit s then None
      else Some (foldl (\<lambda>n c. 10 * n + (byte c - 48)) 0 s))"

definition ParsePrefix :: "bytes \<Rightarrow> netip_error + prefix" where
  "ParsePrefix s =
     (case LastIndexByte s (CHR ''/'') of
        None \<Rightarrow> Inl (ParsePrefixError s)
      | Some i \<Rightarrow>
          (case ParseAddr (take i s) of
             Inl e \<Rightarrow> Inl (ParsePrefixError s)
           | Inr ip \<Rightarrow>
               if hasZone ip then Inl (ParsePrefixError s)
               else case parse_bits (drop (Suc i) s) of
                 None \<Rightarrow> Inl (ParsePrefixError s)
               | Some bits \<Rightarrow>
                   if BitLen ip < bits then Inl (ParsePrefixError s)
                   else Inr (PrefixFrom ip bits)))"

definition pfx_masked :: "prefix \<Rightarrow> prefix" where
  "pfx_masked p =
     (if bitsPlusOne p = 0 then PrefixZero
      else let b = bitsPlusOne p - 1 in
        case pfx_ip p of
          AddrZero \<Rightarrow> PrefixZero
        | Addr4 w \<Rightarrow>
            if 32 < b then PrefixZero else PrefixFrom (Addr4 (w AND NOT (mask (32 - b)))) b
        | Addr6 w z \<Rightarrow>
            if 128 < b then PrefixZero else PrefixFrom (Addr6 (w AND NOT (mask (128 - b))) z) b)"

text \<open>\<open>Contains\<close>: an address with a zone or of the other family is never inside.\<close>

definition pfx_contains :: "prefix \<Rightarrow> addr \<Rightarrow> bool" where
  "pfx_contains p a =
     (if bitsPlusOne p = 0 \<or> hasZone a then False
      else case (pfx_ip p, a) of
        (Addr4 w, Addr4 x) \<Rightarrow> drop_bit (32 - (bitsPlusOne p - 1)) (x XOR w) = 0
      | (Addr6 w _, Addr6 x _) \<Rightarrow> (x XOR w) AND NOT (mask (128 - (bitsPlusOne p - 1))) = 0
      | _ \<Rightarrow> False)"

text \<open>The dotted decimal text of an IPv4 address, as \<open>Addr.String\<close> prints it.\<close>

definition addr4_string :: "32 word \<Rightarrow> bytes" where
  "addr4_string w = Join (map (\<lambda>c. decimal (byte c)) (As4 w)) ''.''"

section \<open>Lemmas on addresses\<close>

lemma Unmap_simps [simp]: "Unmap AddrZero = AddrZero" "Unmap (Addr4 w) = Addr4 w"
  "Unmap (Addr6 v z) = (if Is4In6 (Addr6 v z) then Addr4 (ucast v) else Addr6 v z)"
  by (simp_all add: Unmap_def)

lemma Unmap_idem [simp]: "Unmap (Unmap a) = Unmap a"
  by (cases a) auto

lemma addr_family_simps [simp]:
  "\<not> Is4 AddrZero" "Is4 (Addr4 w)" "\<not> Is4 (Addr6 v z)"
  "\<not> Is6 AddrZero" "\<not> Is6 (Addr4 w)" "Is6 (Addr6 v z)"
  "hasZone (Addr6 v z) \<longleftrightarrow> z \<noteq> []" "\<not> hasZone (Addr4 w)" "\<not> hasZone AddrZero"
  by (simp_all add: Is4_def Is6_def hasZone_def)

lemma addr_family_exhaust: "Is4 a \<or> Is6 a \<or> a = AddrZero"
  by (cases a) auto

lemma AddrFromSlice_no_zone: "AddrFromSlice bs = Some a \<Longrightarrow> \<not> hasZone (Unmap a)"
  by (auto simp: AddrFromSlice_def split: if_splits)

lemma AddrFromSlice_4: "length bs = 4 \<Longrightarrow> AddrFromSlice bs = Some (Addr4 (of_int (be_val bs)))"
  by (simp add: AddrFromSlice_def)

lemma AddrFromSlice_16: "length bs = 16 \<Longrightarrow> AddrFromSlice bs = Some (Addr6 (of_int (be_val bs)) [])"
  by (simp add: AddrFromSlice_def)

lemma length_As [simp]: "length (As4 w) = 4" "length (As16 v) = 16"
  by (simp_all add: As4_def As16_def)

lemma AddrFromSlice_As4 [simp]: "AddrFromSlice (As4 w) = Some (Addr4 w)"
proof -
  have "uint w mod 256 ^ 4 = uint w"
    using uint_lt2p [of w] by simp
  then have "be_val (As4 w) = uint w"
    unfolding As4_def by (simp only: be_val_be_bytes)
  then show ?thesis by (simp add: AddrFromSlice_4)
qed

lemma AddrFromSlice_As16 [simp]: "AddrFromSlice (As16 w) = Some (Addr6 w [])"
proof -
  have "uint w mod 256 ^ 16 = uint w"
    using uint_lt2p [of w] by simp
  then have "be_val (As16 w) = uint w"
    unfolding As16_def by (simp only: be_val_be_bytes)
  then show ?thesis by (simp add: AddrFromSlice_16)
qed

section \<open>Prefix membership as arithmetic on addresses\<close>

text \<open>
  The specification of CIDR membership: the address has the family of the network, no zone, and
  the same leading bits, written as integer division by the size of the host part.
\<close>

definition in_cidr :: "addr \<Rightarrow> nat \<Rightarrow> addr \<Rightarrow> bool" where
  "in_cidr net b a =
     (case (net, a) of
        (Addr4 w, Addr4 x) \<Rightarrow> uint x div 2 ^ (32 - b) = uint w div 2 ^ (32 - b)
      | (Addr6 w _, Addr6 x z) \<Rightarrow> z = [] \<and> uint x div 2 ^ (128 - b) = uint w div 2 ^ (128 - b)
      | _ \<Rightarrow> False)"

lemma drop_bit_eq_iff_div:
  fixes x y :: "'a::len word"
  shows "drop_bit n x = drop_bit n y \<longleftrightarrow> uint x div 2 ^ n = uint y div 2 ^ n"
proof -
  have "uint (drop_bit n w) = uint w div 2 ^ n" for w :: "'a word"
    by (metis drop_bit_eq_div of_nat_div of_nat_numeral of_nat_power uint_nat unat_drop_bit_eq)
  then show ?thesis by (simp add: word_uint_eq_iff)
qed

lemma drop_bit_xor_0_iff:
  fixes x y :: "'a::len word"
  shows "drop_bit n (x XOR y) = 0 \<longleftrightarrow> drop_bit n x = drop_bit n y"
  by (auto simp: bit_eq_iff bit_simps)

lemma and_not_mask_0_iff:
  fixes x :: "'a::len word"
  shows "x AND NOT (mask n) = 0 \<longleftrightarrow> drop_bit n x = 0"
proof
  assume a: "x AND NOT (mask n) = 0"
  show "drop_bit n x = 0"
  proof (rule bit_word_eqI)
    fix i
    have "\<not> bit (x AND NOT (mask n)) (n + i)" using a by simp
    then show "bit (drop_bit n x) i = bit 0 i"
      by (auto simp: bit_simps dest: bit_imp_le_length)
  qed
next
  assume a: "drop_bit n x = 0"
  show "x AND NOT (mask n) = 0"
  proof (rule bit_word_eqI)
    fix i
    have "bit (drop_bit n x) (i - n) = bit x i" if "n \<le> i"
      using that by (simp add: bit_drop_bit_eq)
    with a have "n \<le> i \<Longrightarrow> \<not> bit x i" by simp
    then show "bit (x AND NOT (mask n)) i = bit 0 i"
      by (auto simp: bit_simps not_less)
  qed
qed

lemma pfx_contains_PrefixFrom:
  assumes "b \<le> BitLen net"
  shows "pfx_contains (PrefixFrom net b) a \<longleftrightarrow> in_cidr net b a"
  using assms
  by (cases net; cases a)
     (simp_all add: pfx_contains_def PrefixFrom_def in_cidr_def withoutZone_def BitLen_def
        and_not_mask_0_iff drop_bit_xor_0_iff drop_bit_eq_iff_div del: drop_bit_xor)

lemma drop_bit_and_not_mask:
  fixes x :: "'a::len word"
  shows "drop_bit n (x AND NOT (mask n)) = drop_bit n x"
  by (auto simp: bit_eq_iff bit_simps dest: bit_imp_le_length)

lemma pfx_masked_PrefixFrom:
  assumes "b \<le> BitLen net" and "net \<noteq> AddrZero"
  obtains net' where "pfx_masked (PrefixFrom net b) = PrefixFrom net' b" "BitLen net' = BitLen net"
    "\<And>a. in_cidr net' b a \<longleftrightarrow> in_cidr net b a"
proof (cases net)
  case (Addr4 w)
  with assms have "pfx_masked (PrefixFrom net b) = PrefixFrom (Addr4 (w AND NOT (mask (32 - b)))) b"
    by (simp add: pfx_masked_def PrefixFrom_def withoutZone_def BitLen_def)
  moreover have "in_cidr (Addr4 (w AND NOT (mask (32 - b)))) b a \<longleftrightarrow> in_cidr net b a" for a
    by (cases a) (simp_all add: in_cidr_def Addr4 drop_bit_and_not_mask del: drop_bit_and flip: drop_bit_eq_iff_div)
  ultimately show ?thesis
    using Addr4 by (intro that [of "Addr4 (w AND NOT (mask (32 - b)))"]) (simp_all add: BitLen_def)
next
  case (Addr6 w z)
  with assms have "pfx_masked (PrefixFrom net b) = PrefixFrom (Addr6 (w AND NOT (mask (128 - b))) []) b"
    by (simp add: pfx_masked_def PrefixFrom_def withoutZone_def BitLen_def)
  moreover have "in_cidr (Addr6 (w AND NOT (mask (128 - b))) []) b a \<longleftrightarrow> in_cidr net b a" for a
    by (cases a) (simp_all add: in_cidr_def Addr6 drop_bit_and_not_mask del: drop_bit_and flip: drop_bit_eq_iff_div)
  ultimately show ?thesis
    using Addr6 by (intro that [of "Addr6 (w AND NOT (mask (128 - b))) []"]) (simp_all add: BitLen_def)
qed (use assms in simp)

lemma pfx_contains_masked:
  assumes "b \<le> BitLen net" and "net \<noteq> AddrZero"
  shows "pfx_contains (pfx_masked (PrefixFrom net b)) a \<longleftrightarrow> in_cidr net b a"
  by (rule pfx_masked_PrefixFrom [OF assms]) (use assms in \<open>simp add: pfx_contains_PrefixFrom\<close>)

text \<open>A full-length prefix holds exactly its address.\<close>

lemma in_cidr_full:
  "in_cidr net (BitLen net) a \<longleftrightarrow> net \<noteq> AddrZero \<and> a = withoutZone net"
  by (cases net; cases a) (auto simp: in_cidr_def BitLen_def withoutZone_def word_uint_eq_iff)

section \<open>Reading back a printed IPv4 address\<close>

lemma is_digit_digit_char [simp]: "d < 10 \<Longrightarrow> is_digit (digit_char d)"
  by (simp add: is_digit_def digit_char_def)

lemma byte_digit_char [simp]: "d < 10 \<Longrightarrow> byte (digit_char d) = 48 + d"
  by (simp add: digit_char_def)

text \<open>One printed octet drives the parser from a fresh octet to its value.\<close>

lemma parseIPv4_loop_octet:
  assumes "n < 256"
  shows "parseIPv4_loop prev (decimal n @ rest) 0 0 fs
         = parseIPv4_loop (Some (digit_char (n mod 10))) rest n (length (decimal n)) fs"
proof -
  consider "n < 10" | "10 \<le> n" "n < 100" | "100 \<le> n" by linarith
  then show ?thesis
  proof cases
    case 1
    then show ?thesis by (simp add: decimal.simps)
  next
    case 2
    then have "decimal n = [digit_char (n div 10), digit_char (n mod 10)]"
      by (simp add: decimal.simps [of n] decimal.simps [of "n div 10"])
    moreover from 2 have "n div 10 < 10" "0 < n div 10" by auto
    ultimately show ?thesis using 2 by simp
  next
    case 3
    have d: "decimal n = [digit_char (n div 100), digit_char (n div 10 mod 10), digit_char (n mod 10)]"
    proof -
      from 3 assms have "\<not> n div 10 < 10" "n div 100 < 10" by auto
      with 3 show ?thesis
        by (simp add: decimal.simps [of n] decimal.simps [of "n div 10"]
            decimal.simps [of "n div 100"] div_mult2_eq [symmetric])
    qed
    have v: "n div 100 * 10 + n div 10 mod 10 = n div 10"
      using div_mult_mod_eq [of "n div 10" 10] by (simp add: div_mult2_eq [symmetric])
    from 3 assms have "n div 100 < 10" "0 < n div 100" "n div 10 \<le> 25" by auto
    with d v 3 assms show ?thesis by simp
  qed
qed

lemma parseIPv4_loop_dot:
  assumes "length fs < 3" "d < 10"
  shows "parseIPv4_loop (Some (digit_char d)) (CHR ''.'' # decimal n @ rest) v k fs
         = parseIPv4_loop (Some (CHR ''.'')) (decimal n @ rest) 0 0 (fs @ [v])"
proof -
  have "digit_char d \<noteq> CHR ''.''"
    using is_digit_digit_char [OF assms(2)] by (auto simp: is_digit_def)
  moreover have "decimal n \<noteq> []" by (simp add: decimal.simps [of n])
  ultimately show ?thesis using assms by (simp add: is_digit_def)
qed

lemma parseIPv4_four:
  assumes "a < 256" "b < 256" "c < 256" "d < 256"
  shows "parseIPv4_loop None (Join (map decimal [a, b, c, d]) ''.'') 0 0 [] = Some [a, b, c, d]"
proof -
  have mod10: "n mod 10 < 10" for n :: nat by simp
  note step = parseIPv4_loop_octet [OF assms(1)] parseIPv4_loop_octet [OF assms(2)]
    parseIPv4_loop_octet [OF assms(3)] parseIPv4_loop_octet [OF assms(4), where rest = "[]"]
  note dot = parseIPv4_loop_dot [OF _ mod10] parseIPv4_loop_dot [OF _ mod10, where rest = "[]"]
  have "Join (map decimal [a, b, c, d]) ''.''
        = decimal a @ CHR ''.'' # decimal b @ CHR ''.'' # decimal c @ CHR ''.'' # decimal d @ []"
    by simp
  then show ?thesis
    by (simp only: step dot list.size append.simps) simp
qed

lemma addr_kind_digits: "list_all is_digit s \<Longrightarrow> addr_kind (s @ CHR ''.'' # t) = Some (CHR ''.'')"
  by (induction s) (auto simp: is_digit_def)

lemma decimal_digits: "list_all is_digit (decimal n)"
  by (induction n rule: decimal.induct) (subst decimal.simps, auto)

lemma As4_octets: "\<exists>a b c d. As4 w = [a, b, c, d]"
proof -
  have "length (As4 w) = Suc (Suc (Suc (Suc 0)))" by simp
  then show ?thesis by (simp only: length_Suc_conv length_0_conv) blast
qed

lemma ParseAddr_addr4_string: "ParseAddr (addr4_string w) = Inr (Addr4 w)"
proof -
  obtain a b c d where abcd: "As4 w = [a, b, c, d]" using As4_octets by blast
  then have str: "addr4_string w = Join (map decimal [byte a, byte b, byte c, byte d]) ''.''"
    by (simp add: addr4_string_def)
  then have loop: "parseIPv4_loop None (addr4_string w) 0 0 [] = Some [byte a, byte b, byte c, byte d]"
    by (simp only: parseIPv4_four byte_less)
  have "octets_val [byte a, byte b, byte c, byte d] = be_val (As4 w)"
    by (simp add: octets_val_def be_val_def abcd int_byte_eq)
  moreover have "(of_int (be_val (As4 w)) :: 32 word) = w"
    using AddrFromSlice_As4 [of w] AddrFromSlice_4 [OF length_As(1), of w] by auto
  ultimately have "parseIPv4 (addr4_string w) = Some (Addr4 w)"
    using loop by (simp only: parseIPv4_def option.map)
  moreover have "addr_kind (addr4_string w) = Some (CHR ''.'')"
    using str by (simp add: addr_kind_digits decimal_digits)
  ultimately show ?thesis by (simp add: ParseAddr_def)
qed

end
