(* ===== verification/Config.thy ===== *)
theory Config
  imports Go_Netip
begin

text \<open>
  The data of \<open>config.go\<close> and its small parsers: the configuration structs, the normalisation
  of a choice, the protocol names and the entries of \<open>rules.ips\<close>. The specification of an
  entry (\<open>ip_entry_covers\<close>) is what the README says of it: a bare address stands for itself, a
  CIDR for the addresses that share its leading bits. \<open>loadConfig\<close> is in theory
  \<open>Load_Config\<close>, after the rule compiler it calls.
\<close>

section \<open>Configuration structs\<close>

record IPPortRuleConfig =
  ipc_IP :: bytes
  ipc_Port :: "16 word"
  ipc_Proto :: bytes

record RuleConfig =
  cfg_Domains :: "bytes list"
  cfg_DNSPoisonDomains :: "bytes list"
  cfg_IPs :: "bytes list"
  cfg_IPPorts :: "IPPortRuleConfig list"

record NFQueueConfig =
  QueueNum :: "16 word"
  FirewallBackend :: bytes
  InstallRules :: bool
  Chains :: "bytes list"
  Capture :: bytes
  FailOpen :: bool
  DNSMode :: bytes

record AFXDPConfig =
  Iface :: bytes
  Mode :: bytes

text \<open>\<open>statsEvery\<close> is a \<open>time.Duration\<close>, a number of nanoseconds.\<close>

record AppConfig =
  Engine :: bytes
  Debug :: bool
  StatsInterval :: bytes
  Rules :: RuleConfig
  NFQueue :: NFQueueConfig
  AFXDP :: AFXDPConfig
  statsEvery :: int

section \<open>Errors of configuration and rule compilation\<close>

text \<open>One constructor for each place where \<open>config.go\<close> and \<open>rules.go\<close> return an error.\<close>

datatype config_error =
    OpenError bytes
  | DecodeError bytes
  | InvalidEngine bytes
  | InvalidStatsInterval bytes
  | StatsIntervalNotPositive
  | InvalidFirewallBackend bytes
  | InvalidCapture bytes
  | InvalidDNSMode bytes
  | InvalidChain bytes
  | EmptyIPRule
  | NetipError netip_error
  | NotAnIPAddress bytes
  | MappedCIDR bytes
  | InvalidPortZero addr
  | InvalidProtocol bytes

section \<open>Parsers of config.go\<close>

definition protoTCP :: "8 word" where
  "protoTCP = 6"

definition protoUDP :: "8 word" where
  "protoUDP = 17"

definition normalizeChoice :: "bytes \<Rightarrow> bytes \<Rightarrow> bytes" where
  "normalizeChoice raw fallback =
     (let raw = ToLower (TrimSpace raw) in if raw = [] then fallback else raw)"

definition parseProto :: "bytes \<Rightarrow> config_error + 8 word" where
  "parseProto raw =
     (let p = ToLower (TrimSpace raw) in
      if p = [] \<or> p = ''tcp'' then Inr protoTCP
      else if p = ''udp'' then Inr protoUDP
      else Inl (InvalidProtocol raw))"

definition parseIPPrefix :: "bytes \<Rightarrow> config_error + prefix" where
  "parseIPPrefix raw0 =
     (let raw = TrimSpace raw0 in
      if raw = [] then Inl EmptyIPRule
      else if Contains raw ''/'' then
        (case ParsePrefix raw of
           Inl e \<Rightarrow> Inl (NetipError e)
         | Inr p \<Rightarrow>
             let a = Unmap (pfx_ip p) in
             if \<not> Is4 a \<and> \<not> Is6 a then Inl (NotAnIPAddress raw)
             else if a \<noteq> pfx_ip p then Inl (MappedCIDR raw)
             else Inr (pfx_masked p))
      else
        (case ParseAddr raw of
           Inl e \<Rightarrow> Inl (NetipError e)
         | Inr a0 \<Rightarrow>
             let a = Unmap a0 in
             if Is4 a then Inr (PrefixFrom a 32)
             else if Is6 a then Inr (PrefixFrom a 128)
             else Inl (NotAnIPAddress raw)))"

definition validateNFQueueConfig :: "NFQueueConfig \<Rightarrow> config_error option" where
  "validateNFQueueConfig cfg =
     (if FirewallBackend cfg \<notin>
           {''auto'', ''nftables'', ''nft'', ''iptables'', ''iptables-legacy'', ''none'', ''disabled''}
      then Some (InvalidFirewallBackend (FirewallBackend cfg))
      else if Capture cfg \<notin> {''l7'', ''all''} then Some (InvalidCapture (Capture cfg))
      else if DNSMode cfg \<notin> {''nxdomain'', ''drop''} then Some (InvalidDNSMode (DNSMode cfg))
      else case find (\<lambda>c. normalizeChoice c [] \<notin> {''input'', ''output'', ''forward''}) (Chains cfg) of
        Some c \<Rightarrow> Some (InvalidChain c)
      | None \<Rightarrow> None)"

section \<open>What an entry of the IP list stands for\<close>

definition ip_entry_covers :: "bytes \<Rightarrow> addr \<Rightarrow> bool" where
  "ip_entry_covers raw a =
     (case LastIndexByte raw (CHR ''/'') of
        None \<Rightarrow> (\<exists>a0. ParseAddr raw = Inr a0 \<and> a = withoutZone (Unmap a0))
      | Some i \<Rightarrow>
          (\<exists>net b. ParseAddr (take i raw) = Inr net \<and> parse_bits (drop (Suc i) raw) = Some b
             \<and> in_cidr net b a))"

section \<open>Lemmas\<close>

lemma LastIndexByte_None_iff: "LastIndexByte s c = None \<longleftrightarrow> c \<notin> set s"
  by (induction s) (auto split: option.splits)

lemma Contains_single: "Contains s [c] \<longleftrightarrow> c \<in> set s"
  by (auto simp: Contains_iff in_set_conv_decomp)

lemma ParseAddr_not_zero: "ParseAddr s = Inr a \<Longrightarrow> a \<noteq> AddrZero"
  by (auto simp: ParseAddr_def parseIPv4_def parseIPv6_def split: option.splits if_splits)

lemma ParsePrefix_Inr:
  assumes "ParsePrefix s = Inr p"
  obtains i net b where "LastIndexByte s (CHR ''/'') = Some i" "ParseAddr (take i s) = Inr net"
    "\<not> hasZone net" "parse_bits (drop (Suc i) s) = Some b" "b \<le> BitLen net" "p = PrefixFrom net b"
  using assms by (auto simp: ParsePrefix_def not_less split: option.splits sum.splits if_splits)

lemma pfx_ip_PrefixFrom [simp]: "pfx_ip (PrefixFrom a b) = withoutZone a"
  by (simp add: PrefixFrom_def)

text \<open>An accepted entry compiles to a prefix that holds exactly the addresses it stands for.\<close>

lemma parseIPPrefix_covers:
  assumes "parseIPPrefix raw = Inr p"
  shows "pfx_contains p a \<longleftrightarrow> ip_entry_covers (TrimSpace raw) a"
proof (cases "CHR ''/'' \<in> set (TrimSpace raw)")
  case True
  then obtain q where q: "ParsePrefix (TrimSpace raw) = Inr q" "p = pfx_masked q"
    using assms by (auto simp: parseIPPrefix_def Contains_single Let_def split: sum.splits if_splits)
  from q(1) obtain i net b where i: "LastIndexByte (TrimSpace raw) (CHR ''/'') = Some i"
    "ParseAddr (take i (TrimSpace raw)) = Inr net" "parse_bits (drop (Suc i) (TrimSpace raw)) = Some b"
    "b \<le> BitLen net" "q = PrefixFrom net b"
    by (rule ParsePrefix_Inr)
  then show ?thesis
    using q(2) by (simp add: ip_entry_covers_def pfx_contains_masked ParseAddr_not_zero)
next
  case False
  then obtain a0 where a0: "ParseAddr (TrimSpace raw) = Inr a0" "Is4 (Unmap a0) \<or> Is6 (Unmap a0)"
    "p = PrefixFrom (Unmap a0) (BitLen (Unmap a0))"
    using assms
    by (auto simp: parseIPPrefix_def Contains_single Let_def Is4_def Is6_def BitLen_def
        split: sum.splits if_splits addr.splits)
  from a0(2) have "Unmap a0 \<noteq> AddrZero" by auto
  with a0 False show ?thesis
    by (simp add: ip_entry_covers_def LastIndexByte_None_iff [THEN iffD2] pfx_contains_PrefixFrom in_cidr_full)
qed

text \<open>Trimming an entry first changes nothing.\<close>

lemma parseIPPrefix_TrimSpace [simp]: "parseIPPrefix (TrimSpace raw) = parseIPPrefix raw"
  by (simp add: parseIPPrefix_def)

lemma parseProto_cases: "parseProto raw = Inr p \<Longrightarrow> p = protoTCP \<or> p = protoUDP"
  by (auto simp: parseProto_def Let_def split: if_splits)

end
