(* ===== verification/Rules.thy ===== *)
theory Rules
  imports Config
begin

text \<open>
  The rule set of \<open>rules.go\<close>: its compilation from the configuration and its four matchers. A Go
  \<open>map[K]struct{}\<close> is used as a set and is one here; the slice of prefixes is a list. The
  locale \<open>dedupe_loop\<close> is the contract of the two deduplicating loops of the program
  (\<open>dedupeStrings\<close> here and \<open>normalizedChains\<close> in the firewall), the locale
  \<open>domain_matcher\<close> that of the two domain matchers, which only look at the normal form of a name.
\<close>

section \<open>Data\<close>

record ipPortRule =
  rule_Addr :: addr
  rule_Port :: "16 word"
  rule_Proto :: "8 word"

record RuleSet =
  Domains :: "bytes set"
  DNSPoisonDomains :: "bytes set"
  Prefixes :: "prefix list"
  IPPorts :: "ipPortRule set"

section \<open>Operations\<close>

definition cut_at :: "char \<Rightarrow> bytes \<Rightarrow> bytes" where
  "cut_at c s = (case IndexByte s c of None \<Rightarrow> s | Some i \<Rightarrow> take i s)"

definition normalizeDomain :: "bytes \<Rightarrow> bytes" where
  "normalizeDomain input =
     (let s = TrimSpace (ToLower input);
          s = TrimPrefix s ''http://'';
          s = TrimPrefix s ''https://'';
          s = cut_at (CHR ''/'') s;
          s = cut_at (CHR '':'') s
      in TrimSuffix s ''.'')"

definition domainVariants :: "bytes \<Rightarrow> bytes list" where
  "domainVariants domain =
     (let normalized = normalizeDomain domain in
      if normalized = [] then []
      else if HasPrefix normalized ''www.'' then [normalized]
      else [normalized, ''www.'' @ normalized])"

fun dedupe_from :: "bytes list \<Rightarrow> bytes set \<Rightarrow> bytes list" where
  "dedupe_from [] seen = []"
| "dedupe_from (item # items) seen =
     (let item = TrimSpace item in
      if item = [] then dedupe_from items seen
      else if item \<in> seen then dedupe_from items seen
      else item # dedupe_from items (insert item seen))"

definition dedupeStrings :: "bytes list \<Rightarrow> bytes list" where
  "dedupeStrings items = dedupe_from items {}"

definition parseIPPortRule :: "IPPortRuleConfig \<Rightarrow> config_error + ipPortRule" where
  "parseIPPortRule rule =
     (case ParseAddr (TrimSpace (ipc_IP rule)) of
        Inl e \<Rightarrow> Inl (NetipError e)
      | Inr a0 \<Rightarrow>
          let a = Unmap a0 in
          if \<not> Is4 a \<and> \<not> Is6 a then Inl (NotAnIPAddress (ipc_IP rule))
          else if ipc_Port rule = 0 then Inl (InvalidPortZero a)
          else case parseProto (ipc_Proto rule) of
            Inl e \<Rightarrow> Inl e
          | Inr proto \<Rightarrow>
              Inr \<lparr>rule_Addr = a, rule_Port = ipc_Port rule, rule_Proto = proto\<rparr>)"

text \<open>The four loops of \<open>compileRuleSet\<close>; the last two stop at the first error.\<close>

definition compile_domains :: "bytes list \<Rightarrow> bytes set" where
  "compile_domains ds =
     fold (\<lambda>d s. fold insert (domainVariants d) s) (dedupeStrings ds) {}"

fun compile_prefixes :: "bytes list \<Rightarrow> prefix list \<Rightarrow> config_error + prefix list" where
  "compile_prefixes [] acc = Inr acc"
| "compile_prefixes (raw # raws) acc =
     (case parseIPPrefix raw of
        Inl e \<Rightarrow> Inl e
      | Inr p \<Rightarrow> compile_prefixes raws (acc @ [p]))"

fun compile_ports :: "IPPortRuleConfig list \<Rightarrow> ipPortRule set \<Rightarrow> config_error + ipPortRule set" where
  "compile_ports [] acc = Inr acc"
| "compile_ports (rule # rs) acc =
     (case parseIPPortRule rule of
        Inl e \<Rightarrow> Inl e
      | Inr parsed \<Rightarrow> compile_ports rs (insert parsed acc))"

definition compileRuleSet :: "RuleConfig \<Rightarrow> config_error + RuleSet" where
  "compileRuleSet cfg =
     (case compile_prefixes (dedupeStrings (cfg_IPs cfg)) [] of
        Inl e \<Rightarrow> Inl e
      | Inr ps \<Rightarrow>
          (case compile_ports (cfg_IPPorts cfg) {} of
             Inl e \<Rightarrow> Inl e
           | Inr ports \<Rightarrow>
               Inr \<lparr>Domains = compile_domains (cfg_Domains cfg),
                    DNSPoisonDomains = compile_domains (cfg_DNSPoisonDomains cfg),
                    Prefixes = ps, IPPorts = ports\<rparr>))"

definition matchDomain :: "RuleSet \<Rightarrow> bytes \<Rightarrow> bool" where
  "matchDomain r domain \<longleftrightarrow> normalizeDomain domain \<in> Domains r"

definition matchDNSPoison :: "RuleSet \<Rightarrow> bytes \<Rightarrow> bool" where
  "matchDNSPoison r domain \<longleftrightarrow> normalizeDomain domain \<in> DNSPoisonDomains r"

definition matchIP :: "RuleSet \<Rightarrow> addr \<Rightarrow> bool" where
  "matchIP r a = list_ex (\<lambda>p. pfx_contains p (Unmap a)) (Prefixes r)"

definition matchIPPort :: "RuleSet \<Rightarrow> addr \<Rightarrow> 16 word \<Rightarrow> 8 word \<Rightarrow> bool" where
  "matchIPPort r a port proto \<longleftrightarrow>
     \<lparr>rule_Addr = Unmap a, rule_Port = port, rule_Proto = proto\<rparr> \<in> IPPorts r"

section \<open>The contract of a deduplicating loop\<close>

text \<open>
  Each item is normalised; empty and already seen ones are skipped. Whatever the normaliser, the
  result has no duplicates, no empty string, and keeps the first occurrence of each item in order.
\<close>

locale dedupe_loop =
  fixes norm :: "bytes \<Rightarrow> bytes" and loop :: "bytes list \<Rightarrow> bytes set \<Rightarrow> bytes list"
  assumes loop_Nil: "loop [] seen = []"
    and loop_skip: "norm x = [] \<or> norm x \<in> seen \<Longrightarrow> loop (x # xs) seen = loop xs seen"
    and loop_keep: "norm x \<noteq> [] \<Longrightarrow> norm x \<notin> seen \<Longrightarrow>
          loop (x # xs) seen = norm x # loop xs (insert (norm x) seen)"
begin

lemma set_loop: "set (loop xs seen) = norm ` set xs - insert [] seen"
proof (induction xs arbitrary: seen)
  case (Cons x xs)
  show ?case
  proof (cases "norm x = [] \<or> norm x \<in> seen")
    case True
    then show ?thesis using Cons by (auto simp: loop_skip)
  next
    case False
    then show ?thesis using Cons by (auto simp: loop_keep)
  qed
qed (simp add: loop_Nil)

lemma distinct_loop: "distinct (loop xs seen)"
proof (induction xs arbitrary: seen)
  case (Cons x xs)
  show ?case
    by (cases "norm x = [] \<or> norm x \<in> seen") (auto simp: loop_skip loop_keep Cons set_loop)
qed (simp add: loop_Nil)

text \<open>The reference: filter, then keep the first of equal items.\<close>

lemma loop_reference:
  "loop xs seen =
     rev (remdups (rev (filter (\<lambda>s. s \<noteq> [] \<and> s \<notin> seen) (map norm xs))))"
proof (induction xs arbitrary: seen)
  case (Cons x xs)
  have rr: "rev (remdups (rev (y # ys))) = y # rev (remdups (rev (filter (\<lambda>z. z \<noteq> y) ys)))" for y ys
  proof (induction ys rule: rev_induct)
    case (snoc z zs)
    then show ?case by (auto simp: rev_swap)
  qed simp
  show ?case
  proof (cases "norm x = [] \<or> norm x \<in> seen")
    case True
    then show ?thesis using Cons by (auto simp: loop_skip)
  next
    case False
    let ?ys = "filter (\<lambda>s. s \<noteq> [] \<and> s \<notin> seen) (map norm xs)"
    have f: "filter (\<lambda>s. s \<noteq> [] \<and> s \<notin> insert (norm x) seen) (map norm xs)
          = filter (\<lambda>s. s \<noteq> norm x) ?ys"
      by (auto intro: filter_cong)
    from False have "loop (x # xs) seen = norm x # loop xs (insert (norm x) seen)"
      by (simp add: loop_keep)
    also have "\<dots> = norm x # rev (remdups (rev (filter (\<lambda>s. s \<noteq> norm x) ?ys)))"
      by (simp only: Cons f)
    also have "\<dots> = rev (remdups (rev (norm x # ?ys)))" by (rule rr [symmetric])
    also have "norm x # ?ys = filter (\<lambda>s. s \<noteq> [] \<and> s \<notin> seen) (map norm (x # xs))"
      using False by simp
    finally show ?thesis .
  qed
qed (simp add: loop_Nil)

end

interpretation ds: dedupe_loop TrimSpace dedupe_from
  by unfold_locales (auto simp: Let_def)

section \<open>The contract of a domain matcher\<close>

text \<open>A plain host name: lower-case letters, digits, dash, underscore and inner dots.\<close>

definition host_char :: "char \<Rightarrow> bool" where
  "host_char c \<longleftrightarrow> 97 \<le> byte c \<and> byte c \<le> 122 \<or> 48 \<le> byte c \<and> byte c \<le> 57 \<or> c \<in> set ''-_.''"

definition plain_host :: "bytes \<Rightarrow> bool" where
  "plain_host h \<longleftrightarrow> h \<noteq> [] \<and> list_all host_char h \<and> last h \<noteq> CHR ''.''"

locale domain_matcher =
  fixes matches :: "bytes \<Rightarrow> bool" and keys :: "bytes set"
  assumes matches_iff: "matches d \<longleftrightarrow> normalizeDomain d \<in> keys"
begin

lemma matches_cong: "normalizeDomain d = normalizeDomain d' \<Longrightarrow> matches d \<longleftrightarrow> matches d'"
  by (simp add: matches_iff)

lemma matches_normal: "normalizeDomain d = h \<Longrightarrow> matches d \<longleftrightarrow> h \<in> keys"
  by (simp add: matches_iff)

end

interpretation dm: domain_matcher "matchDomain r" "Domains r" for r
  by unfold_locales (simp add: matchDomain_def)

interpretation dp: domain_matcher "matchDNSPoison r" "DNSPoisonDomains r" for r
  by unfold_locales (simp add: matchDNSPoison_def)

section \<open>Normal forms of host names\<close>

lemma host_charD:
  assumes "host_char c"
  shows "byte c < 128" "\<not> space_char c" "c \<noteq> CHR ''/''" "c \<noteq> CHR '':''" "ascii_lower c = c"
  using assms by (auto simp: host_char_def space_char_def is_space_def ascii_lower_def)

lemma cut_at_takeWhile: "cut_at c s = takeWhile (\<lambda>x. x \<noteq> c) s"
  by (simp add: cut_at_def cut_at_IndexByte)

text \<open>
  The ways a host name is written in a Host header, a configuration entry or a query name:
  surrounded by white space, with a scheme, in any case, with a final dot, and followed by a port
  or a path.
\<close>

definition tail_ok :: "bytes \<Rightarrow> bool" where
  "tail_ok t \<longleftrightarrow> is_ascii t \<and>
     (t = [] \<or> hd t = CHR ''/'' \<or> hd t = CHR '':'' \<and> tl t \<noteq> [] \<and> is_digit (hd (tl t)))"

inductive spells :: "bytes \<Rightarrow> bytes \<Rightarrow> bool" where
  "list_all space_char ws \<Longrightarrow> is_ascii ws \<Longrightarrow> scheme \<in> {[], ''http://'', ''https://''} \<Longrightarrow>
   map ascii_lower h' = h \<Longrightarrow> dot \<in> {[], ''.''} \<Longrightarrow> tail_ok t \<Longrightarrow>
   list_all space_char ws' \<Longrightarrow> is_ascii ws' \<Longrightarrow>
   spells h (ws @ scheme @ h' @ dot @ t @ ws')"

lemma no_scheme_prefix:
  assumes "list_all host_char a" "tail_ok t" "list_all host_char p"
  shows "\<not> HasPrefix (a @ t) (p @ ''://'')"
proof
  assume "HasPrefix (a @ t) (p @ ''://'')"
  then obtain u where u: "a @ t = p @ ''://'' @ u" by (auto simp: HasPrefix_iff)
  have "takeWhile host_char (a @ t) = a"
    using assms(1,2) by (cases t) (auto simp: list_all_iff tail_ok_def host_char_def is_digit_def)
  moreover have "takeWhile host_char (p @ ''://'' @ u) = p"
    using assms(3) by (auto simp: list_all_iff host_char_def)
  ultimately have "a = p" using u by simp
  with u have "t = ''://'' @ u" by simp
  with assms(2) show False by (simp add: tail_ok_def is_digit_def)
qed

lemma cut_host:
  assumes "list_all host_char a" "tail_ok t"
  shows "cut_at (CHR '':'') (cut_at (CHR ''/'') (a @ t)) = a"
proof -
  have a: "\<forall>x \<in> set a. x \<noteq> CHR ''/'' \<and> x \<noteq> CHR '':''"
    using assms(1) by (auto simp: list_all_iff dest: host_charD)
  then have tw: "takeWhile (\<lambda>x. x \<noteq> CHR ''/'') (a @ u) = a @ takeWhile (\<lambda>x. x \<noteq> CHR ''/'') u"
    "takeWhile (\<lambda>x. x \<noteq> CHR '':'') (a @ u) = a @ takeWhile (\<lambda>x. x \<noteq> CHR '':'') u" for u
    by simp_all
  have "takeWhile (\<lambda>x. x \<noteq> CHR '':'') (takeWhile (\<lambda>x. x \<noteq> CHR ''/'') t) = []"
    using assms(2) by (cases t) (auto simp: tail_ok_def)
  then show ?thesis by (simp add: cut_at_takeWhile tw)
qed

lemma trim_end_keep:
  assumes "a \<noteq> []" "\<not> space_char (last a)"
  shows "rev (dropWhile space_char (rev (a @ t))) = a @ rev (dropWhile space_char (rev t))"
  using assms by (cases a rule: rev_cases) (auto simp: dropWhile_append)

lemma trim_end_spaces:
  "list_all space_char ws \<Longrightarrow> dropWhile space_char (rev (t @ ws)) = dropWhile space_char (rev t)"
  by (simp add: list_all_iff dropWhile_append)

lemma tail_ok_trim: "tail_ok t \<Longrightarrow> tail_ok (rev (dropWhile space_char (rev t)))"
proof (cases t)
  case (Cons c u)
  assume t: "tail_ok t"
  have c: "\<not> space_char c" using t Cons by (auto simp: tail_ok_def space_char_def is_space_def)
  have asc: "is_ascii (rev (dropWhile space_char (rev u)))"
    using t Cons by (auto simp: tail_ok_def is_ascii_def list_all_iff dest: set_dropWhileD)
  have "rev (dropWhile space_char (rev t)) = c # rev (dropWhile space_char (rev u))"
    using trim_end_keep [of "[c]" u] c Cons by simp
  moreover have "u \<noteq> [] \<Longrightarrow> is_digit (hd u) \<Longrightarrow>
      rev (dropWhile space_char (rev u)) \<noteq> [] \<and> hd (rev (dropWhile space_char (rev u))) = hd u"
    using trim_end_keep [of "[hd u]" "tl u"]
    by (cases u) (auto simp: is_digit_def space_char_def is_space_def)
  ultimately show ?thesis using t Cons asc by (auto simp: tail_ok_def)
qed simp

lemma space_char_lower: "space_char c \<Longrightarrow> ascii_lower c = c"
  by (auto simp: space_char_def is_space_def ascii_lower_def)

lemma tail_ok_lower: "tail_ok t \<Longrightarrow> tail_ok (map ascii_lower t)"
proof -
  assume t: "tail_ok t"
  have "ascii_lower c = c" if "is_digit c" for c
    using that by (simp add: ascii_lower_def is_digit_def)
  moreover have "ascii_lower (CHR ''/'') = CHR ''/''" "ascii_lower (CHR '':'') = CHR '':''"
    by (simp_all add: ascii_lower_def)
  ultimately show ?thesis using t unfolding tail_ok_def
    by (metis (no_types, lifting) is_ascii_map_lower list.map_disc_iff list.map_sel(1) map_tl)
qed

lemma strip_scheme:
  assumes "list_all host_char a" "tail_ok t" "scheme \<in> {[], ''http://'', ''https://''}"
  shows "TrimPrefix (TrimPrefix (scheme @ a @ t) ''http://'') ''https://'' = a @ t"
proof -
  have "list_all host_char ''http''" "list_all host_char ''https''"
    by (simp_all add: host_char_def)
  then have "\<not> HasPrefix (a @ t) ''http://''" "\<not> HasPrefix (a @ t) ''https://''"
    using no_scheme_prefix [OF assms(1,2), of "''http''"] no_scheme_prefix [OF assms(1,2), of "''https''"]
    by simp_all
  then have n: "TrimPrefix (a @ t) ''http://'' = a @ t" "TrimPrefix (a @ t) ''https://'' = a @ t"
    by (simp_all add: TrimPrefix_def)
  have p: "TrimPrefix (p @ u) p = u" for p u by (simp add: TrimPrefix_def)
  have "\<not> HasPrefix (''https://'' @ a @ t) ''http://''" by simp
  then have q: "TrimPrefix (''https://'' @ a @ t) ''http://'' = ''https://'' @ a @ t"
    by (simp only: TrimPrefix_def if_False)
  consider "scheme = []" | "scheme = ''http://''" | "scheme = ''https://''" using assms(3) by blast
  then show ?thesis by cases (simp_all only: n p q append_Nil)
qed

text \<open>Every spelling of a plain host name normalises to it.\<close>

lemma normalizeDomain_spells:
  assumes "spells h s" "plain_host h"
  shows "normalizeDomain s = h"
  using assms(1)
proof cases
  case (1 ws scheme h' dot t ws')
  let ?L = "map ascii_lower"
  have hc: "list_all host_char h" "h \<noteq> []" "last h \<noteq> CHR ''.''"
    using assms(2) by (auto simp: plain_host_def)
  have "is_ascii h" using hc(1) by (auto simp: is_ascii_def list_all_iff dest: host_charD)
  with 1(5) have asc_h: "is_ascii h'" by (metis is_ascii_map_lower)
  have Lws: "list_all space_char (?L ws)" "list_all space_char (?L ws')"
    using 1(2,8) by (auto simp: list_all_iff space_char_lower)
  have Lt: "tail_ok (?L t)" using 1(7) by (rule tail_ok_lower)
  define a where "a = h @ dot"
  have hca: "list_all host_char a" "a \<noteq> []" using hc 1(6) by (auto simp: a_def host_char_def)
  then have "host_char (last a)" "host_char (hd (scheme @ a))"
    using 1(4) by (auto simp: list_all_iff host_char_def [of "CHR ''h''"])
  then have sp: "\<not> space_char (last a)" "\<not> space_char (hd (scheme @ a))"
    by (blast dest: host_charD(2))+
  define t' where "t' = rev (dropWhile space_char (rev (?L t)))"
  have sch: "?L scheme = scheme" "is_ascii scheme" and dot: "?L dot = dot" "is_ascii dot"
    using 1(4,6) by (auto simp: ascii_lower_def)
  have Ls: "?L s = ?L ws @ (scheme @ a) @ ?L t @ ?L ws'"
    using 1 sch dot by (simp add: a_def)
  have "is_ascii s" using 1 asc_h sch dot by (auto simp: tail_ok_def)
  then have "TrimSpace (ToLower s) = rev (dropWhile space_char (rev (dropWhile space_char (?L s))))"
    by (simp add: ToLower_ascii TrimSpace_ascii)
  also have "dropWhile space_char (?L s) = (scheme @ a) @ ?L t @ ?L ws'"
    using Lws(1) sp(2) hca(2) unfolding Ls
    by (subst dropWhile_append2) (auto simp: list_all_iff dropWhile_eq_self_iff hd_append split: if_splits)
  also have "rev (dropWhile space_char (rev ((scheme @ a) @ ?L t @ ?L ws'))) = scheme @ a @ t'"
    using trim_end_keep [of "scheme @ a" "?L t @ ?L ws'"] trim_end_spaces [OF Lws(2), of "?L t"] sp hca(2)
    by (simp add: t'_def)
  finally have ts: "TrimSpace (ToLower s) = scheme @ a @ t'" .
  have t': "tail_ok t'" unfolding t'_def by (rule tail_ok_trim [OF Lt])
  have "normalizeDomain s = TrimSuffix a ''.''"
    using strip_scheme [OF hca(1) t' 1(4)] cut_host [OF hca(1) t']
    by (simp add: normalizeDomain_def ts)
  also have "\<dots> = h" using hc(2,3) 1(6) by (auto simp: TrimSuffix_single a_def)
  finally show ?thesis .
qed

section \<open>What compilation puts into the rule set\<close>

lemma normalizeDomain_Nil [simp]: "normalizeDomain [] = []"
  by (simp add: normalizeDomain_def ToLower_def TrimPrefix_def cut_at_def TrimSuffix_def HasSuffix_def)

lemma set_domainVariants:
  "v \<in> set (domainVariants d) \<longleftrightarrow>
     normalizeDomain d \<noteq> [] \<and>
     (v = normalizeDomain d \<or>
      \<not> HasPrefix (normalizeDomain d) ''www.'' \<and> v = ''www.'' @ normalizeDomain d)"
  by (auto simp: domainVariants_def Let_def)

lemma set_dedupeStrings: "set (dedupeStrings xs) = TrimSpace ` set xs - {[]}"
  by (simp add: dedupeStrings_def ds.set_loop)

lemma ex_dedupeStrings:
  "(\<exists>x \<in> set (dedupeStrings xs). P x) \<longleftrightarrow> (\<exists>x \<in> set xs. TrimSpace x \<noteq> [] \<and> P (TrimSpace x))"
  unfolding set_dedupeStrings by blast

lemma all_dedupeStrings:
  "(\<forall>x \<in> set (dedupeStrings xs). P x) \<longleftrightarrow> (\<forall>x \<in> set xs. TrimSpace x = [] \<or> P (TrimSpace x))"
  unfolding set_dedupeStrings by blast

lemma compile_domains_iff:
  "v \<in> compile_domains ds \<longleftrightarrow> (\<exists>d \<in> set ds. v \<in> set (domainVariants (TrimSpace d)))"
proof -
  have f: "fold (\<lambda>d s. fold insert (domainVariants d) s) xs S
        = S \<union> (\<Union>d \<in> set xs. set (domainVariants d))" for xs S
  proof (induction xs arbitrary: S)
    case (Cons x xs)
    have "fold insert ys S = set ys \<union> S" for ys and S :: "bytes set"
      by (induction ys arbitrary: S) auto
    with Cons show ?case by auto
  qed simp
  have "domainVariants [] = []" by (simp add: domainVariants_def)
  then show ?thesis by (auto simp: compile_domains_def f set_dedupeStrings)
qed

lemma compile_prefixes_Inr:
  "compile_prefixes raws acc = Inr ps \<longleftrightarrow>
     (\<exists>qs. ps = acc @ qs \<and> list_all2 (\<lambda>raw q. parseIPPrefix raw = Inr q) raws qs)"
proof (induction raws acc rule: compile_prefixes.induct)
  case (2 raw raws acc)
  then show ?case by (auto simp: list_all2_Cons1 split: sum.splits)
qed auto

lemma compile_ports_Inr:
  "compile_ports rs acc = Inr ports \<longleftrightarrow>
     (\<forall>r \<in> set rs. \<not> isl (parseIPPortRule r)) \<and> ports = acc \<union> {p. \<exists>r \<in> set rs. parseIPPortRule r = Inr p}"
proof (induction rs acc rule: compile_ports.induct)
  case (2 rule rs acc)
  then show ?case by (auto split: sum.splits)
qed auto

lemma compileRuleSet_Inr:
  assumes "compileRuleSet cfg = Inr r"
  shows "Domains r = compile_domains (cfg_Domains cfg)"
    and "DNSPoisonDomains r = compile_domains (cfg_DNSPoisonDomains cfg)"
    and "list_all2 (\<lambda>raw q. parseIPPrefix raw = Inr q) (dedupeStrings (cfg_IPs cfg)) (Prefixes r)"
    and "IPPorts r = {p. \<exists>c \<in> set (cfg_IPPorts cfg). parseIPPortRule c = Inr p}"
  using assms
  by (auto simp: compileRuleSet_def compile_prefixes_Inr compile_ports_Inr split: sum.splits)

lemma parseIPPortRule_Inr:
  "parseIPPortRule c = Inr p \<longleftrightarrow>
     (\<exists>a0. ParseAddr (TrimSpace (ipc_IP c)) = Inr a0 \<and> (Is4 (Unmap a0) \<or> Is6 (Unmap a0))
        \<and> ipc_Port c \<noteq> 0 \<and> parseProto (ipc_Proto c) = Inr (rule_Proto p)
        \<and> rule_Addr p = Unmap a0 \<and> rule_Port p = ipc_Port c)"
  by (auto simp: parseIPPortRule_def Let_def split: sum.splits)

lemma compile_prefixes_succeeds:
  "(\<exists>ps. compile_prefixes raws acc = Inr ps) \<longleftrightarrow> (\<forall>raw \<in> set raws. \<exists>p. parseIPPrefix raw = Inr p)"
proof (induction raws arbitrary: acc)
  case (Cons raw raws)
  then show ?case by (cases "parseIPPrefix raw") auto
qed simp

lemma Is4_or_Is6_ParseAddr: "ParseAddr s = Inr a \<Longrightarrow> Is4 (Unmap a) \<or> Is6 (Unmap a)"
  using ParseAddr_not_zero [of s a] by (cases a) auto

lemma compile_ports_succeeds:
  "(\<exists>ports. compile_ports rs acc = Inr ports) \<longleftrightarrow>
     (\<forall>c \<in> set rs. (\<exists>a. ParseAddr (TrimSpace (ipc_IP c)) = Inr a)
        \<and> ipc_Port c \<noteq> 0 \<and> (\<exists>q. parseProto (ipc_Proto c) = Inr q))"
proof (induction rs arbitrary: acc)
  case (Cons c rs)
  have "(\<exists>p. parseIPPortRule c = Inr p) \<longleftrightarrow> (\<exists>a. ParseAddr (TrimSpace (ipc_IP c)) = Inr a)
        \<and> ipc_Port c \<noteq> 0 \<and> (\<exists>q. parseProto (ipc_Proto c) = Inr q)"
    by (auto simp: parseIPPortRule_def Let_def dest: Is4_or_Is6_ParseAddr split: sum.splits)
  with Cons show ?case by (cases "parseIPPortRule c") auto
qed simp

lemma space_char_lower_iff: "space_char (ascii_lower c) \<longleftrightarrow> space_char c"
proof (cases "65 \<le> byte c \<and> byte c \<le> 90")
  case True
  then have "\<not> space_char c" by (auto simp: space_char_def is_space_def)
  moreover from True have "byte (ascii_lower c) = byte c + 32" by (simp add: ascii_lower_def)
  with True have "\<not> space_char (ascii_lower c)" unfolding space_char_def is_space_def by presburger
  ultimately show ?thesis by simp
next
  case False
  then have "ascii_lower c = c" by (auto simp: ascii_lower_def)
  then show ?thesis by simp
qed

lemma TrimSpace_ascii_lower:
  assumes "is_ascii s"
  shows "TrimSpace (map ascii_lower s) = map ascii_lower (TrimSpace s)"
proof -
  have d: "dropWhile space_char (map ascii_lower u) = map ascii_lower (dropWhile space_char u)" for u
    by (simp add: dropWhile_map o_def space_char_lower_iff)
  show ?thesis using assms by (simp add: TrimSpace_ascii d rev_map)
qed

lemma is_ascii_TrimSpace: "is_ascii s \<Longrightarrow> is_ascii (TrimSpace s)"
  by (auto simp: TrimSpace_ascii is_ascii_def list_all_iff dest!: set_dropWhileD)

lemma normalizeDomain_TrimSpace: "is_ascii d \<Longrightarrow> normalizeDomain (TrimSpace d) = normalizeDomain d"
  by (simp add: normalizeDomain_def ToLower_ascii is_ascii_TrimSpace TrimSpace_ascii_lower)

lemma spells_ascii: "spells h d \<Longrightarrow> plain_host h \<Longrightarrow> is_ascii d"
proof (erule spells.cases)
  fix ws scheme h' ha dot t ws'
  assume eq: "h = ha" "d = ws @ scheme @ h' @ dot @ t @ ws'" and h': "map ascii_lower h' = ha"
    and h: "plain_host h" and rest: "is_ascii ws" "scheme \<in> {[], ''http://'', ''https://''}"
    "dot \<in> {[], ''.''}" "tail_ok t" "is_ascii ws'"
  from h have "is_ascii h" by (auto simp: plain_host_def is_ascii_def list_all_iff dest: host_charD)
  with eq h' have "is_ascii h'" by (metis is_ascii_map_lower)
  with eq rest show "is_ascii d" by (auto simp: tail_ok_def)
qed

lemma plain_host_www: "plain_host h \<Longrightarrow> plain_host (''www.'' @ h)"
  by (auto simp: plain_host_def host_char_def)

section \<open>What the configuration asks for\<close>

text \<open>The four lists of a \<open>RuleConfig\<close> as predicates, without the compiled tables.\<close>

definition domain_listed :: "bytes list \<Rightarrow> bytes \<Rightarrow> bool" where
  "domain_listed ds s \<longleftrightarrow>
    (\<exists>d \<in> set ds. let n = normalizeDomain (TrimSpace d) in
       n \<noteq> [] \<and> (normalizeDomain s = n \<or> \<not> HasPrefix n ''www.'' \<and> normalizeDomain s = ''www.'' @ n))"

definition ip_listed :: "bytes list \<Rightarrow> addr \<Rightarrow> bool" where
  "ip_listed raws a \<longleftrightarrow> (\<exists>raw \<in> set raws. TrimSpace raw \<noteq> [] \<and> ip_entry_covers (TrimSpace raw) (Unmap a))"

definition port_listed :: "IPPortRuleConfig list \<Rightarrow> addr \<Rightarrow> 16 word \<Rightarrow> 8 word \<Rightarrow> bool" where
  "port_listed cs a port proto \<longleftrightarrow>
    (\<exists>c \<in> set cs. \<exists>a0. ParseAddr (TrimSpace (ipc_IP c)) = Inr a0 \<and> Unmap a0 = Unmap a
       \<and> ipc_Port c = port \<and> parseProto (ipc_Proto c) = Inr proto)"

lemma match_domain_listed:
  assumes "compileRuleSet cfg = Inr r"
  shows "matchDomain r s \<longleftrightarrow> domain_listed (cfg_Domains cfg) s"
    and "matchDNSPoison r s \<longleftrightarrow> domain_listed (cfg_DNSPoisonDomains cfg) s"
  by (simp_all add: dm.matches_iff dp.matches_iff compileRuleSet_Inr(1,2) [OF assms] compile_domains_iff
      set_domainVariants Let_def domain_listed_def)

lemma match_ip_listed:
  assumes "compileRuleSet cfg = Inr r"
  shows "matchIP r a \<longleftrightarrow> ip_listed (cfg_IPs cfg) a"
proof -
  have "matchIP r a \<longleftrightarrow> (\<exists>raw \<in> set (dedupeStrings (cfg_IPs cfg)). ip_entry_covers (TrimSpace raw) (Unmap a))"
    using list_all2_ex_iff [OF compileRuleSet_Inr(3) [OF assms], of
        "\<lambda>raw. ip_entry_covers (TrimSpace raw) (Unmap a)" "\<lambda>p. pfx_contains p (Unmap a)"]
    by (simp add: matchIP_def list_ex_iff parseIPPrefix_covers)
  then show ?thesis by (simp add: ex_dedupeStrings ip_listed_def)
qed

lemma match_port_listed:
  assumes "compileRuleSet cfg = Inr r"
  shows "matchIPPort r a port proto \<longleftrightarrow> port_listed (cfg_IPPorts cfg) a port proto"
proof -
  have ok: "\<forall>c \<in> set (cfg_IPPorts cfg). \<exists>p. parseIPPortRule c = Inr p"
    using assms by (auto simp: compileRuleSet_def compile_ports_Inr isl_def split: sum.splits)
       (metis sum.exhaust)
  show ?thesis
    using ok Is4_or_Is6_ParseAddr
    unfolding matchIPPort_def compileRuleSet_Inr(4) [OF assms] parseIPPortRule_Inr port_listed_def
    by (auto; metis)
qed

lemmas match_listed = match_domain_listed match_ip_listed match_port_listed

section \<open>Correctness of the rule set\<close>

text \<open>
  A name matches the domain rules exactly when its normal form is the normal form of a
  configured domain, or that normal form with \<open>www.\<close> put in front where the configured one does
  not start with \<open>www.\<close> already. Empty entries add nothing.
\<close>

lemma matchDomain_iff:
  assumes "compileRuleSet cfg = Inr r"
  shows "matchDomain r s \<longleftrightarrow>
    (\<exists>d \<in> set (cfg_Domains cfg). let n = normalizeDomain (TrimSpace d) in
       n \<noteq> [] \<and> (normalizeDomain s = n \<or> \<not> HasPrefix n ''www.'' \<and> normalizeDomain s = ''www.'' @ n))"
  by (simp add: match_listed [OF assms] domain_listed_def)

text \<open>
  C24: A configured host name is blocked however it is spelled: with surrounding white space, a
  scheme, upper-case letters, a final dot, a port or a path, in the configuration and in the
  request alike; and so is its \<open>www.\<close> variant.
\<close>

theorem matchDomain_spellings:
  assumes "compileRuleSet cfg = Inr r" and "d \<in> set (cfg_Domains cfg)"
    and "plain_host h" and "spells h d"
    and "spells h s \<or> \<not> HasPrefix h ''www.'' \<and> spells (''www.'' @ h) s"
  shows "matchDomain r s"
proof -
  have "normalizeDomain (TrimSpace d) = h"
    using assms(3,4) by (simp add: normalizeDomain_TrimSpace spells_ascii normalizeDomain_spells)
  moreover have "normalizeDomain s = h \<or> \<not> HasPrefix h ''www.'' \<and> normalizeDomain s = ''www.'' @ h"
    using assms(3,5) normalizeDomain_spells plain_host_www by blast
  moreover have "h \<noteq> []" using assms(3) by (simp add: plain_host_def)
  ultimately show ?thesis
    using assms(2)
    by (auto simp: dm.matches_iff compileRuleSet_Inr(1) [OF assms(1)] compile_domains_iff set_domainVariants)
qed

text \<open>
  The DNS rules are compiled and matched like the domain rules, from their own list: a query
  name is poisoned exactly when its normal form is that of a configured name or its \<open>www.\<close>
  variant.
\<close>

lemma matchDNSPoison_iff:
  assumes "compileRuleSet cfg = Inr r"
  shows "matchDNSPoison r s \<longleftrightarrow>
    (\<exists>d \<in> set (cfg_DNSPoisonDomains cfg). let n = normalizeDomain (TrimSpace d) in
       n \<noteq> [] \<and> (normalizeDomain s = n \<or> \<not> HasPrefix n ''www.'' \<and> normalizeDomain s = ''www.'' @ n))"
  by (simp add: match_listed [OF assms] domain_listed_def)

text \<open>
  C25: The compiled prefixes implement the configured IP list: an address is blocked exactly when
  some non-empty entry covers it, a bare address covering itself and a CIDR the addresses with its
  leading bits. An IPv4-mapped IPv6 address is looked up as the IPv4 address.
\<close>

theorem matchIP_iff:
  assumes "compileRuleSet cfg = Inr r"
  shows "matchIP r a \<longleftrightarrow>
    (\<exists>raw \<in> set (cfg_IPs cfg). TrimSpace raw \<noteq> [] \<and> ip_entry_covers (TrimSpace raw) (Unmap a))"
  by (simp add: match_listed [OF assms] ip_listed_def)

text \<open>
  C26: An address, port and protocol are blocked exactly when some configured rule names that
  address (up to IPv4 mapping), that port and that protocol, an empty protocol meaning TCP.
\<close>

theorem matchIPPort_iff:
  assumes "compileRuleSet cfg = Inr r"
  shows "matchIPPort r a port proto \<longleftrightarrow>
    (\<exists>c \<in> set (cfg_IPPorts cfg). \<exists>a0. ParseAddr (TrimSpace (ipc_IP c)) = Inr a0 \<and> Unmap a0 = Unmap a
       \<and> ipc_Port c = port \<and> parseProto (ipc_Proto c) = Inr proto)"
  by (simp add: match_listed [OF assms] port_listed_def)

text \<open>
  C27: A rule set compiles exactly when every non-empty entry of the IP list parses and every
  address-and-port rule has a parsable address, a port other than zero and a known protocol.
\<close>

theorem compileRuleSet_succeeds_iff:
  "(\<exists>r. compileRuleSet cfg = Inr r) \<longleftrightarrow>
     (\<forall>raw \<in> set (cfg_IPs cfg). TrimSpace raw = [] \<or> (\<exists>p. parseIPPrefix raw = Inr p))
     \<and> (\<forall>c \<in> set (cfg_IPPorts cfg). (\<exists>a. ParseAddr (TrimSpace (ipc_IP c)) = Inr a)
          \<and> ipc_Port c \<noteq> 0 \<and> (\<exists>q. parseProto (ipc_Proto c) = Inr q))"
proof -
  have "(\<exists>r. compileRuleSet cfg = Inr r) \<longleftrightarrow>
     (\<exists>ps. compile_prefixes (dedupeStrings (cfg_IPs cfg)) [] = Inr ps)
     \<and> (\<exists>ports. compile_ports (cfg_IPPorts cfg) {} = Inr ports)"
    by (auto simp: compileRuleSet_def split: sum.splits)
  then show ?thesis
    by (simp only: compile_prefixes_succeeds compile_ports_succeeds all_dedupeStrings parseIPPrefix_TrimSpace)
qed

text \<open>
  C40: An address-and-port rule whose address carries an IPv6 zone is accepted, yet no packet can
  match it: packet addresses have no zone, and the rule is looked up by equality.
\<close>

theorem zoned_port_rule_never_matches:
  assumes "compileRuleSet cfg = Inr r"
    and "\<forall>c \<in> set (cfg_IPPorts cfg). \<exists>a0. ParseAddr (TrimSpace (ipc_IP c)) = Inr a0 \<and> hasZone (Unmap a0)"
    and "AddrFromSlice bs = Some a"
  shows "\<not> matchIPPort r a port proto"
proof
  assume "matchIPPort r a port proto"
  then obtain c where c: "c \<in> set (cfg_IPPorts cfg)"
    "parseIPPortRule c = Inr \<lparr>rule_Addr = Unmap a, rule_Port = port, rule_Proto = proto\<rparr>"
    by (auto simp: matchIPPort_def compileRuleSet_Inr(4) [OF assms(1)])
  then have "hasZone (Unmap a)" using assms(2) by (auto simp: parseIPPortRule_Inr)
  with AddrFromSlice_no_zone [OF assms(3)] show False by simp
qed

section \<open>The rules of the example configuration\<close>

definition example_rules :: RuleConfig where
  "example_rules =
     \<lparr>cfg_Domains = [''example.com''], cfg_DNSPoisonDomains = [''example.com''],
      cfg_IPs = [''203.0.113.10'', ''198.51.100.0/24'', ''2001:db8::/32''],
      cfg_IPPorts = [\<lparr>ipc_IP = ''1.2.3.4'', ipc_Port = 443, ipc_Proto = ''tcp''\<rparr>,
                     \<lparr>ipc_IP = ''2001:db8::1'', ipc_Port = 443, ipc_Proto = ''tcp''\<rparr>]\<rparr>"

definition example_ruleset :: RuleSet where
  "example_ruleset =
     \<lparr>Domains = {''example.com'', ''www.example.com''},
      DNSPoisonDomains = {''example.com'', ''www.example.com''},
      Prefixes = [PrefixFrom (Addr4 0xCB00710A) 32, PrefixFrom (Addr4 0xC6336400) 24,
                  PrefixFrom (Addr6 0x20010DB8000000000000000000000000 []) 32],
      IPPorts = {\<lparr>rule_Addr = Addr4 0x01020304, rule_Port = 443, rule_Proto = 6\<rparr>,
                 \<lparr>rule_Addr = Addr6 0x20010DB8000000000000000000000001 [], rule_Port = 443, rule_Proto = 6\<rparr>}\<rparr>"

lemma compile_example: "compileRuleSet example_rules = Inr example_ruleset"
proof -
  have "dedupeStrings [''example.com''] = [''example.com'']" by code_simp
  moreover have "domainVariants ''example.com'' = [''example.com'', ''www.example.com'']" by code_simp
  ultimately have d: "compile_domains [''example.com''] = {''example.com'', ''www.example.com''}"
    by (simp add: compile_domains_def insert_commute)
  have p: "compile_prefixes (dedupeStrings (cfg_IPs example_rules)) [] = Inr (Prefixes example_ruleset)"
    by code_simp
  have "parseIPPortRule \<lparr>ipc_IP = ''1.2.3.4'', ipc_Port = 443, ipc_Proto = ''tcp''\<rparr>
        = Inr \<lparr>rule_Addr = Addr4 0x01020304, rule_Port = 443, rule_Proto = 6\<rparr>"
    "parseIPPortRule \<lparr>ipc_IP = ''2001:db8::1'', ipc_Port = 443, ipc_Proto = ''tcp''\<rparr>
        = Inr \<lparr>rule_Addr = Addr6 0x20010DB8000000000000000000000001 [], rule_Port = 443, rule_Proto = 6\<rparr>"
    by code_simp+
  then have "compile_ports (cfg_IPPorts example_rules) {} = Inr (IPPorts example_ruleset)"
    by (simp add: example_rules_def example_ruleset_def insert_commute)
  with d p show ?thesis
    unfolding compileRuleSet_def by (simp add: example_rules_def example_ruleset_def)
qed

lemma plain_host_example: "plain_host ''example.com''"
  by (simp add: plain_host_def host_char_def)

lemma spells_host: "map ascii_lower h' = h \<Longrightarrow> dot \<in> {[], ''.''} \<Longrightarrow> tail_ok t \<Longrightarrow> spells h (h' @ dot @ t)"
  using spells.intros [of "[]" "[]" h' h dot t "[]"] by simp

theorem matchDomain_spellings_witness: "matchDomain example_ruleset ''WWW.Example.com.:8080/x''"
proof (rule matchDomain_spellings [OF compile_example, of "''example.com''" "''example.com''"])
  show "''example.com'' \<in> set (cfg_Domains example_rules)" by (simp add: example_rules_def)
  show "plain_host ''example.com''" by (rule plain_host_example)
  show "spells ''example.com'' ''example.com''"
    using spells_host [of "''example.com''" _ "[]" "[]"] by (simp add: ascii_lower_def tail_ok_def)
  have "spells (''www.'' @ ''example.com'') (''WWW.Example.com'' @ ''.'' @ '':8080/x'')"
  proof (rule spells_host)
    show "map ascii_lower ''WWW.Example.com'' = ''www.'' @ ''example.com''" by code_simp
  qed (simp_all add: tail_ok_def is_digit_def)
  then show "spells ''example.com'' ''WWW.Example.com.:8080/x'' \<or>
      \<not> HasPrefix ''example.com'' ''www.'' \<and> spells (''www.'' @ ''example.com'') ''WWW.Example.com.:8080/x''"
    by simp
qed

theorem matchIP_iff_witness:
  "matchIP example_ruleset (Addr4 0xC6336407) \<longleftrightarrow>
    (\<exists>raw \<in> set (cfg_IPs example_rules). TrimSpace raw \<noteq> []
       \<and> ip_entry_covers (TrimSpace raw) (Unmap (Addr4 0xC6336407)))"
  by (rule matchIP_iff [OF compile_example])

theorem matchIPPort_iff_witness:
  "matchIPPort example_ruleset (Addr4 0x01020304) 443 protoTCP \<longleftrightarrow>
    (\<exists>c \<in> set (cfg_IPPorts example_rules). \<exists>a0. ParseAddr (TrimSpace (ipc_IP c)) = Inr a0
       \<and> Unmap a0 = Unmap (Addr4 0x01020304) \<and> ipc_Port c = 443 \<and> parseProto (ipc_Proto c) = Inr protoTCP)"
  by (rule matchIPPort_iff [OF compile_example])

definition unknown_proto_rules :: RuleConfig where
  "unknown_proto_rules =
     \<lparr>cfg_Domains = [], cfg_DNSPoisonDomains = [], cfg_IPs = ['' 10.0.0.0/8''],
      cfg_IPPorts = [\<lparr>ipc_IP = ''10.0.0.1'', ipc_Port = 53, ipc_Proto = ''sctp''\<rparr>]\<rparr>"

theorem compileRuleSet_succeeds_witness:
  "(\<exists>r. compileRuleSet (unknown_proto_rules\<lparr>cfg_IPPorts := []\<rparr>) = Inr r)
   \<and> \<not> (\<exists>r. compileRuleSet unknown_proto_rules = Inr r)"
proof -
  have "\<not> isl (parseIPPrefix '' 10.0.0.0/8'')" "isl (parseProto ''sctp'')" by code_simp+
  then have "\<exists>p. parseIPPrefix '' 10.0.0.0/8'' = Inr p" "\<not> (\<exists>q. parseProto ''sctp'' = Inr q)"
    by (metis sum.exhaust isl_def, metis sum.disc(2))
  then show ?thesis
    by (simp add: compileRuleSet_succeeds_iff) (simp add: unknown_proto_rules_def)
qed

definition zoned_rules :: RuleConfig where
  "zoned_rules =
     \<lparr>cfg_Domains = [], cfg_DNSPoisonDomains = [], cfg_IPs = [],
      cfg_IPPorts = [\<lparr>ipc_IP = ''fe80::1%eth0'', ipc_Port = 443, ipc_Proto = []\<rparr>]\<rparr>"

theorem zoned_port_rule_witness:
  "\<exists>r. compileRuleSet zoned_rules = Inr r \<and>
     \<not> matchIPPort r (Addr6 0xFE800000000000000000000000000001 []) 443 protoTCP"
proof -
  let ?a = "Addr6 0xFE800000000000000000000000000001 ''eth0''"
  have a: "ParseAddr (TrimSpace ''fe80::1%eth0'') = Inr ?a" by code_simp
  have z: "hasZone (Unmap ?a)" by code_simp
  have "\<not> isl (compileRuleSet zoned_rules)" by code_simp
  then obtain r where r: "compileRuleSet zoned_rules = Inr r" by (cases "compileRuleSet zoned_rules") auto
  have "\<not> matchIPPort r (Addr6 0xFE800000000000000000000000000001 []) 443 protoTCP"
    by (rule zoned_port_rule_never_matches [OF r _ AddrFromSlice_As16])
       (use a z in \<open>simp add: zoned_rules_def\<close>)
  with r show ?thesis by blast
qed

end
