(* ===== verification/Go_Json.thy ===== *)
theory Go_Json
  imports Go_Netip
begin

text \<open>
  What the program uses of the package \<open>encoding/json\<close>: reading the first JSON value of a file. The
  lexer takes one token off the input; the parser is the scanner of the package, a machine with a stack
  of the open arrays and objects (at most \<open>maxNestingDepth\<close> of them). Whatever follows the first
  value is not looked at. Strings are unquoted the way the package does it: escapes and surrogate
  pairs are resolved, and invalid UTF-8 is replaced. The decoding of a value into the configuration
  structs is in theory \<open>Load_Config\<close>.

  \<open>print_json\<close> is a reference printer, and the theory ends with the round trip of printer and parser.
\<close>

datatype json =
    JNull
  | JBool bool
  | JNum bytes
  | JStr bytes
  | JArr "json list"
  | JObj "(bytes \<times> json) list"

section \<open>Strings\<close>

abbreviation quote :: char where "quote \<equiv> CHR 0x22"
abbreviation backslash :: char where "backslash \<equiv> CHR 0x5C"

definition simple_escape :: "char \<Rightarrow> char option" where
  "simple_escape c =
     (if c \<in> {quote, backslash, CHR ''/''} then Some c
      else if c = CHR ''b'' then Some (CHR 0x08)
      else if c = CHR ''f'' then Some (CHR 0x0C)
      else if c = CHR ''n'' then Some (CHR 0x0A)
      else if c = CHR ''r'' then Some (CHR 0x0D)
      else if c = CHR ''t'' then Some (CHR 0x09)
      else None)"

definition is_hex :: "char \<Rightarrow> bool" where
  "is_hex c \<longleftrightarrow> hex_digit c \<noteq> None"

text \<open>The text of a string literal behind its opening quote, still quoted, and the rest of the input.\<close>

fun scan_string :: "bytes \<Rightarrow> (bytes \<times> bytes) option" where
  "scan_string [] = None"
| "scan_string (c # s) =
     (if c = quote then Some ([], s)
      else if c = backslash then
        (case s of
           [] \<Rightarrow> None
         | e # t \<Rightarrow>
             if e = CHR ''u'' then
               (case t of
                  h1 # h2 # h3 # h4 # u \<Rightarrow>
                    if is_hex h1 \<and> is_hex h2 \<and> is_hex h3 \<and> is_hex h4
                    then map_option (\<lambda>(r, x). (c # e # h1 # h2 # h3 # h4 # r, x)) (scan_string u)
                    else None
                | _ \<Rightarrow> None)
             else if simple_escape e \<noteq> None
             then map_option (\<lambda>(r, x). (c # e # r, x)) (scan_string t)
             else None)
      else if byte c < 32 then None
      else map_option (\<lambda>(r, x). (c # r, x)) (scan_string s))"

definition hex4 :: "char \<Rightarrow> char \<Rightarrow> char \<Rightarrow> char \<Rightarrow> rune" where
  "hex4 h1 h2 h3 h4 = nat (foldl (\<lambda>n h. n * 16 + (case hex_digit h of Some d \<Rightarrow> d | None \<Rightarrow> 0)) 0 [h1, h2, h3, h4])"

text \<open>\<open>getu4\<close>: a \<open>\u\<close> escape at the front.\<close>

definition getu4 :: "bytes \<Rightarrow> rune option" where
  "getu4 s =
     (case s of
        b # u # h1 # h2 # h3 # h4 # _ \<Rightarrow>
          if b = backslash \<and> u = CHR ''u'' \<and> is_hex h1 \<and> is_hex h2 \<and> is_hex h3 \<and> is_hex h4
          then Some (hex4 h1 h2 h3 h4) else None
      | _ \<Rightarrow> None)"

definition is_surrogate :: "rune \<Rightarrow> bool" where
  "is_surrogate r \<longleftrightarrow> 0xD800 \<le> r \<and> r < 0xE000"

definition surrogate_pair :: "rune \<Rightarrow> rune option \<Rightarrow> rune option" where
  "surrogate_pair r1 r2 =
     (case r2 of
        Some r2 \<Rightarrow>
          if 0xD800 \<le> r1 \<and> r1 < 0xDC00 \<and> 0xDC00 \<le> r2 \<and> r2 < 0xE000
          then Some ((r1 - 0xD800) * 0x400 + (r2 - 0xDC00) + 0x10000) else None
      | None \<Rightarrow> None)"

function unquote :: "bytes \<Rightarrow> bytes" where
  "unquote s =
     (case s of
        [] \<Rightarrow> []
      | c # t \<Rightarrow>
          if c = backslash then
            (case getu4 s of
               Some r \<Rightarrow>
                 if is_surrogate r then
                   (case surrogate_pair r (getu4 (drop 6 s)) of
                      Some p \<Rightarrow> encode_rune p @ unquote (drop 12 s)
                    | None \<Rightarrow> encode_rune rune_error @ unquote (drop 6 s))
                 else encode_rune r @ unquote (drop 6 s)
             | None \<Rightarrow>
                 (case t of
                    [] \<Rightarrow> []
                  | e # u \<Rightarrow> (case simple_escape e of Some d \<Rightarrow> [d] | None \<Rightarrow> []) @ unquote u))
          else if byte c < 0x80 then c # unquote t
          else encode_rune (fst (decode_rune s)) @ unquote (drop (max 1 (snd (decode_rune s))) s))"
  by pat_completeness auto
termination
  by (relation "measure length") auto

declare unquote.simps [simp del]

section \<open>Tokens\<close>

datatype token =
    TLBrace | TRBrace | TLBrack | TRBrack | TColon | TComma
  | TStr bytes | TNum bytes | TTrue | TFalse | TNull

definition json_space :: "char \<Rightarrow> bool" where
  "json_space c \<longleftrightarrow> c \<in> {CHR '' '', CHR 0x09, CHR 0x0D, CHR 0x0A}"

text \<open>The digits at the front, at least one.\<close>

definition digits1 :: "bytes \<Rightarrow> (bytes \<times> bytes) option" where
  "digits1 s = (let d = takeWhile is_digit s in if d = [] then None else Some (d, dropWhile is_digit s))"

definition lex_int :: "bytes \<Rightarrow> (bytes \<times> bytes) option" where
  "lex_int s =
     (case s of
        [] \<Rightarrow> None
      | c # t \<Rightarrow> if c = CHR ''0'' then Some ([c], t) else digits1 s)"

definition lex_frac :: "bytes \<Rightarrow> (bytes \<times> bytes) option" where
  "lex_frac s =
     (case s of
        c # t \<Rightarrow> if c = CHR ''.'' then map_option (\<lambda>(d, r). (c # d, r)) (digits1 t) else Some ([], s)
      | [] \<Rightarrow> Some ([], s))"

definition lex_exp :: "bytes \<Rightarrow> (bytes \<times> bytes) option" where
  "lex_exp s =
     (case s of
        c # t \<Rightarrow>
          if c = CHR ''e'' \<or> c = CHR ''E'' then
            (case t of
               sg # u \<Rightarrow>
                 if sg = CHR ''+'' \<or> sg = CHR ''-'' then map_option (\<lambda>(d, r). (c # sg # d, r)) (digits1 u)
                 else map_option (\<lambda>(d, r). (c # d, r)) (digits1 t)
             | [] \<Rightarrow> None)
          else Some ([], s)
      | [] \<Rightarrow> Some ([], s))"

definition lex_number :: "bytes \<Rightarrow> (bytes \<times> bytes) option" where
  "lex_number s =
     (let (m, s0) = (if s \<noteq> [] \<and> hd s = CHR ''-'' then (''-'', tl s) else ([], s)) in
      do {
        (i, s1) \<leftarrow> lex_int s0;
        (f, s2) \<leftarrow> lex_frac s1;
        (e, s3) \<leftarrow> lex_exp s2;
        Some (m @ i @ f @ e, s3) })"

definition lex_word :: "bytes \<Rightarrow> token \<Rightarrow> bytes \<Rightarrow> (token \<times> bytes) option" where
  "lex_word word tok s = (if HasPrefix s word then Some (tok, drop (length word) s) else None)"

definition next_token :: "bytes \<Rightarrow> (token \<times> bytes) option" where
  "next_token s0 =
     (case dropWhile json_space s0 of
        [] \<Rightarrow> None
      | c # s \<Rightarrow>
          if c = CHR ''{'' then Some (TLBrace, s)
          else if c = CHR ''}'' then Some (TRBrace, s)
          else if c = CHR ''['' then Some (TLBrack, s)
          else if c = CHR '']'' then Some (TRBrack, s)
          else if c = CHR '':'' then Some (TColon, s)
          else if c = CHR '','' then Some (TComma, s)
          else if c = quote then map_option (\<lambda>(raw, r). (TStr (unquote raw), r)) (scan_string s)
          else if c = CHR ''t'' then lex_word ''true'' TTrue (c # s)
          else if c = CHR ''f'' then lex_word ''false'' TFalse (c # s)
          else if c = CHR ''n'' then lex_word ''null'' TNull (c # s)
          else map_option (\<lambda>(n, r). (TNum n, r)) (lex_number (c # s)))"

lemma scan_string_length: "scan_string s = Some (r, t) \<Longrightarrow> length t < length s"
  by (induction s arbitrary: r t rule: scan_string.induct)
     (fastforce split: if_splits list.splits)+

lemma digits1_length: "digits1 s = Some (d, r) \<Longrightarrow> length r < length s"
proof -
  assume "digits1 s = Some (d, r)"
  then have "takeWhile is_digit s \<noteq> []" "r = dropWhile is_digit s" by (auto simp: digits1_def Let_def split: if_splits)
  then show ?thesis
    by (cases s) (auto simp: less_Suc_eq_le length_dropWhile_le split: if_splits)
qed

lemma lex_number_length: "lex_number s = Some (n, r) \<Longrightarrow> length r < length s"
proof -
  assume "lex_number s = Some (n, r)"
  moreover define s0 where "s0 = (if s \<noteq> [] \<and> hd s = CHR ''-'' then tl s else s)"
  ultimately have "\<exists>i s1 f s2 e. lex_int s0 = Some (i, s1) \<and> lex_frac s1 = Some (f, s2) \<and> lex_exp s2 = Some (e, r)"
    by (auto simp: lex_number_def bind_eq_Some_conv split: if_splits)
  moreover have "length s0 \<le> length s" by (simp add: s0_def)
  ultimately obtain i s1 f s2 e where s0: "length s0 \<le> length s" "lex_int s0 = Some (i, s1)"
    "lex_frac s1 = Some (f, s2)" "lex_exp s2 = Some (e, r)"
    by blast
  have "length s1 < length s0" using s0(2) by (auto simp: lex_int_def dest!: digits1_length split: list.splits if_splits)
  moreover have "length s2 \<le> length s1" using s0(3) digits1_length by (fastforce simp: lex_frac_def split: list.splits if_splits)
  moreover have "length r \<le> length s2" using s0(4) digits1_length by (fastforce simp: lex_exp_def split: list.splits if_splits)
  ultimately show ?thesis using s0(1) by linarith
qed

lemma next_token_length: "next_token s = Some (t, r) \<Longrightarrow> length r < length s"
proof -
  assume n: "next_token s = Some (t, r)"
  obtain c u where u: "dropWhile json_space s = c # u"
    using n by (auto simp: next_token_def split: list.splits)
  have "length (c # u) \<le> length s" using length_dropWhile_le [of json_space s] u by simp
  moreover have "length r < length (c # u)"
    using n u by (auto simp: next_token_def lex_word_def dest: scan_string_length lex_number_length split: if_splits)
  ultimately show ?thesis by linarith
qed

section \<open>The parser\<close>

datatype frame = FArr "json list" | FObj "(bytes \<times> json) list" bytes

text \<open>What the scanner accepts next.\<close>

datatype expect = EValue | EValueOrEnd | EKey | EKeyOrEnd | EColon | ECommaOrEnd

datatype parse_step = Done json | Next expect "frame list"

text \<open>The elements of a frame are kept in reverse order.\<close>

definition deliver :: "json \<Rightarrow> frame list \<Rightarrow> parse_step" where
  "deliver v fs =
     (case fs of
        [] \<Rightarrow> Done v
      | FArr vs # fs \<Rightarrow> Next ECommaOrEnd (FArr (v # vs) # fs)
      | FObj ms k # fs \<Rightarrow> Next ECommaOrEnd (FObj ((k, v) # ms) k # fs))"

definition push :: "frame \<Rightarrow> expect \<Rightarrow> frame list \<Rightarrow> parse_step option" where
  "push f ex fs = (if int (length fs) < 10000 then Some (Next ex (f # fs)) else None)"

definition value_step :: "token \<Rightarrow> frame list \<Rightarrow> parse_step option" where
  "value_step t fs =
     (case t of
        TStr s \<Rightarrow> Some (deliver (JStr s) fs)
      | TNum n \<Rightarrow> Some (deliver (JNum n) fs)
      | TTrue \<Rightarrow> Some (deliver (JBool True) fs)
      | TFalse \<Rightarrow> Some (deliver (JBool False) fs)
      | TNull \<Rightarrow> Some (deliver JNull fs)
      | TLBrack \<Rightarrow> push (FArr []) EValueOrEnd fs
      | TLBrace \<Rightarrow> push (FObj [] []) EKeyOrEnd fs
      | _ \<Rightarrow> None)"

definition end_array :: "frame list \<Rightarrow> parse_step option" where
  "end_array fs = (case fs of FArr vs # fs \<Rightarrow> Some (deliver (JArr (rev vs)) fs) | _ \<Rightarrow> None)"

definition end_object :: "frame list \<Rightarrow> parse_step option" where
  "end_object fs = (case fs of FObj ms _ # fs \<Rightarrow> Some (deliver (JObj (rev ms)) fs) | _ \<Rightarrow> None)"

definition key_step :: "token \<Rightarrow> frame list \<Rightarrow> parse_step option" where
  "key_step t fs =
     (case (t, fs) of
        (TStr k, FObj ms _ # fs) \<Rightarrow> Some (Next EColon (FObj ms k # fs))
      | _ \<Rightarrow> None)"

definition parse_token :: "expect \<Rightarrow> frame list \<Rightarrow> token \<Rightarrow> parse_step option" where
  "parse_token ex fs t =
     (case ex of
        EValue \<Rightarrow> value_step t fs
      | EValueOrEnd \<Rightarrow> if t = TRBrack then end_array fs else value_step t fs
      | EKey \<Rightarrow> key_step t fs
      | EKeyOrEnd \<Rightarrow> if t = TRBrace then end_object fs else key_step t fs
      | EColon \<Rightarrow> if t = TColon then Some (Next EValue fs) else None
      | ECommaOrEnd \<Rightarrow>
          (case fs of
             FArr _ # _ \<Rightarrow> if t = TComma then Some (Next EValue fs) else if t = TRBrack then end_array fs else None
           | FObj _ _ # _ \<Rightarrow> if t = TComma then Some (Next EKey fs) else if t = TRBrace then end_object fs else None
           | [] \<Rightarrow> None))"

function parse_loop :: "expect \<Rightarrow> frame list \<Rightarrow> bytes \<Rightarrow> (json \<times> bytes) option" where
  "parse_loop ex fs s =
     (case next_token s of
        None \<Rightarrow> None
      | Some (t, r) \<Rightarrow>
          (case parse_token ex fs t of
             None \<Rightarrow> None
           | Some (Done v) \<Rightarrow> Some (v, r)
           | Some (Next ex fs) \<Rightarrow> parse_loop ex fs r))"
  by pat_completeness auto
termination
  by (relation "measure (\<lambda>(ex, fs, s). length s)") (auto dest: next_token_length)

declare parse_loop.simps [simp del]

definition parse_json :: "bytes \<Rightarrow> (json \<times> bytes) option" where
  "parse_json s = parse_loop EValue [] s"

section \<open>A printer\<close>

definition escape_char :: "char \<Rightarrow> bytes" where
  "escape_char c = (if c = quote \<or> c = backslash then [backslash, c] else [c])"

definition escaped :: "bytes \<Rightarrow> bytes" where
  "escaped s = concat (map escape_char s)"

definition print_string :: "bytes \<Rightarrow> bytes" where
  "print_string s = quote # escaped s @ [quote]"

definition commas :: "bytes list \<Rightarrow> bytes" where
  "commas xs = (case xs of [] \<Rightarrow> [] | y # ys \<Rightarrow> y @ concat (map (\<lambda>z. CHR '','' # z) ys))"

fun print_json :: "json \<Rightarrow> bytes" where
  "print_json JNull = ''null''"
| "print_json (JBool b) = (if b then ''true'' else ''false'')"
| "print_json (JNum n) = n"
| "print_json (JStr s) = print_string s"
| "print_json (JArr vs) = CHR ''['' # commas (map print_json vs) @ '']''"
| "print_json (JObj ms) = CHR ''{'' # commas (map (\<lambda>(k, v). print_string k @ CHR '':'' # print_json v) ms) @ ''}''"

text \<open>What the printer writes so that it can be read back: printable ASCII strings and plain numbers.\<close>

definition plain_string :: "bytes \<Rightarrow> bool" where
  "plain_string s \<longleftrightarrow> list_all (\<lambda>c. 32 \<le> byte c \<and> byte c < 128) s"

inductive wf_json :: "json \<Rightarrow> bool" where
  wf_null: "wf_json JNull"
| wf_bool: "wf_json (JBool b)"
| wf_num: "wf_json (JNum (decimal n))"
| wf_str: "plain_string s \<Longrightarrow> wf_json (JStr s)"
| wf_arr: "\<forall>v \<in> set vs. wf_json v \<Longrightarrow> wf_json (JArr vs)"
| wf_obj: "\<forall>(k, v) \<in> set ms. plain_string k \<and> wf_json v \<Longrightarrow> wf_json (JObj ms)"

fun json_depth :: "json \<Rightarrow> int" where
  "json_depth (JArr vs) = 1 + fold max (map json_depth vs) 0"
| "json_depth (JObj ms) = 1 + fold max (map (\<lambda>(k, v). json_depth v) ms) 0"
| "json_depth _ = 0"

section \<open>Reading back what was printed\<close>

lemma next_token_punct [simp]:
  "next_token (CHR ''{'' # s) = Some (TLBrace, s)" "next_token (CHR ''}'' # s) = Some (TRBrace, s)"
  "next_token (CHR ''['' # s) = Some (TLBrack, s)" "next_token (CHR '']'' # s) = Some (TRBrack, s)"
  "next_token (CHR '':'' # s) = Some (TColon, s)" "next_token (CHR '','' # s) = Some (TComma, s)"
  by (simp_all add: next_token_def json_space_def)

lemma next_token_words [simp]:
  "next_token (''null'' @ s) = Some (TNull, s)" "next_token (''true'' @ s) = Some (TTrue, s)"
  "next_token (''false'' @ s) = Some (TFalse, s)"
  by (simp_all add: next_token_def json_space_def lex_word_def)

lemma scan_string_plain: "plain_string s \<Longrightarrow> scan_string (escaped s @ quote # r) = Some (escaped s, r)"
proof (induction s)
  case (Cons c s)
  then have IH: "scan_string (escaped s @ quote # r) = Some (escaped s, r)" and c: "32 \<le> byte c"
    by (simp_all add: plain_string_def)
  have e: "escaped (c # s) = escape_char c @ escaped s" by (simp add: escaped_def)
  have "quote \<noteq> CHR ''u''" "backslash \<noteq> CHR ''u''" "backslash \<noteq> quote" by simp_all
  then show ?case
    using IH c unfolding e by (auto simp: escape_char_def simple_escape_def)
qed (simp add: escaped_def)

lemma unquote_plain: "plain_string s \<Longrightarrow> unquote (escaped s) = s"
proof (induction s)
  case Nil
  then show ?case by (simp add: escaped_def unquote.simps)
next
  case (Cons c s)
  then have IH: "unquote (escaped s) = s" and c: "byte c < 128" by (simp_all add: plain_string_def)
  have e: "escaped (c # s) = escape_char c @ escaped s" by (simp add: escaped_def)
  have g: "getu4 (backslash # c # t) = None" if "c = quote \<or> c = backslash" for t
    using that by (auto simp: getu4_def split: list.splits)
  show ?case
    unfolding e using IH c g
    by (subst unquote.simps) (auto simp: escape_char_def simple_escape_def)
qed

lemma next_token_string [simp]: "plain_string s \<Longrightarrow> next_token (print_string s @ r) = Some (TStr s, r)"
  by (simp add: print_string_def next_token_def json_space_def scan_string_plain unquote_plain)

text \<open>A number ends where no character of a number follows.\<close>

definition ends_number :: "bytes \<Rightarrow> bool" where
  "ends_number r \<longleftrightarrow> r = [] \<or> \<not> (is_digit (hd r) \<or> hd r \<in> {CHR ''.'', CHR ''e'', CHR ''E''})"

lemma decimal_not_Nil [simp]: "decimal n \<noteq> []"
  by (subst decimal.simps) simp

lemma decimal_head: "decimal n \<noteq> [] \<and> (hd (decimal n) = CHR ''0'' \<longrightarrow> decimal n = ''0'')"
proof (induction n rule: decimal.induct)
  case (1 n)
  have z: "char_of (48 :: nat) = CHR ''0''" by code_simp
  have inj: "char_of (48 + n) = CHR ''0'' \<longleftrightarrow> n = 0" if "n < 10" for n :: nat
  proof -
    have "byte (char_of (48 + n)) = 48 + n" using that by simp
    moreover have "byte (CHR ''0'') = 48" by simp
    ultimately show ?thesis using z by (metis add_cancel_left_right)
  qed
  show ?case
  proof (cases "n < 10")
    case True
    then show ?thesis by (subst (1 2 3) decimal.simps) (auto simp: digit_char_def inj z)
  next
    case False
    then have IH: "decimal (n div 10) \<noteq> []" "hd (decimal (n div 10)) = CHR ''0'' \<Longrightarrow> decimal (n div 10) = ''0''"
      using 1 by auto
    have "decimal m = ''0'' \<Longrightarrow> m = 0" for m
      by (subst (asm) decimal.simps) (auto simp: digit_char_def inj append_eq_Cons_conv split: if_splits)
    with IH False have "hd (decimal (n div 10)) \<noteq> CHR ''0''"
      by (metis div_eq_0_iff zero_neq_numeral)
    then show ?thesis using False IH(1) by (subst (1 2 3) decimal.simps) (auto simp: hd_append)
  qed
qed

lemma lex_decimal:
  assumes "ends_number r"
  shows "lex_number (decimal n @ r) = Some (decimal n, r)"
proof -
  obtain c t where d: "decimal n = c # t" by (cases "decimal n") auto
  have digs: "is_digit x" if "x \<in> set (decimal n)" for x using that decimal_digits [of n] by (simp add: list_all_iff)
  then have c: "is_digit c" using d by simp
  have "takeWhile is_digit r = []" "dropWhile is_digit r = r"
    using assms by (cases r; simp add: ends_number_def)+
  then have "digits1 (decimal n @ r) = Some (decimal n, r)"
    using digs by (simp add: digits1_def Let_def takeWhile_append2 dropWhile_append2)
  then have i: "lex_int (decimal n @ r) = Some (decimal n, r)"
    using decimal_head [of n] d by (auto simp: lex_int_def)
  have "c \<noteq> CHR ''-''" using c by (auto simp: is_digit_def)
  moreover have "lex_frac r = Some ([], r)" "lex_exp r = Some ([], r)"
    using assms by (cases r; simp add: ends_number_def lex_frac_def lex_exp_def)+
  ultimately show ?thesis using i d by (simp add: lex_number_def)
qed

lemma next_token_decimal: "ends_number r \<Longrightarrow> next_token (decimal n @ r) = Some (TNum (decimal n), r)"
proof -
  assume r: "ends_number r"
  obtain c t where d: "decimal n = c # t" by (cases "decimal n") auto
  then have c: "is_digit c" using decimal_digits [of n] by simp
  then have "c \<notin> {CHR ''{'', CHR ''}'', CHR ''['', CHR '']'', CHR '':'', CHR '','', quote, CHR ''t'', CHR ''f'', CHR ''n''}"
    "\<not> json_space c" by (auto simp: is_digit_def json_space_def)
  then show ?thesis using lex_decimal [OF r, of n] d by (simp add: next_token_def)
qed

text \<open>Where the parser goes on after a value.\<close>

definition resume :: "json \<Rightarrow> frame list \<Rightarrow> bytes \<Rightarrow> (json \<times> bytes) option" where
  "resume v fs r = (case deliver v fs of Done v \<Rightarrow> Some (v, r) | Next ex fs \<Rightarrow> parse_loop ex fs r)"

definition reads_back :: "json \<Rightarrow> bool" where
  "reads_back v \<longleftrightarrow>
     (\<forall>ex fs r. ex \<in> {EValue, EValueOrEnd} \<longrightarrow> json_depth v + int (length fs) \<le> 10000 \<longrightarrow> ends_number r \<longrightarrow>
        parse_loop ex fs (print_json v @ r) = resume v fs r)"

lemma ends_number_punct [simp]:
  "ends_number (CHR '','' # r)" "ends_number (CHR '']'' # r)" "ends_number (CHR ''}'' # r)"
  by (simp_all add: ends_number_def is_digit_def)

lemma parse_elements:
  "\<forall>v \<in> set vs. reads_back v \<and> json_depth v + int (length fs) < 10000 \<Longrightarrow>
   parse_loop ECommaOrEnd (FArr done # fs) (concat (map (\<lambda>v. CHR '','' # print_json v) vs) @ CHR '']'' # r)
   = resume (JArr (rev done @ vs)) fs r"
proof (induction vs arbitrary: "done")
  case Nil
  show ?case
    by (subst parse_loop.simps) (simp add: parse_token_def end_array_def resume_def split: parse_step.split)
next
  case (Cons v vs)
  let ?tail = "concat (map (\<lambda>v. CHR '','' # print_json v) vs) @ CHR '']'' # r"
  have e: "ends_number ?tail" by (cases vs) simp_all
  have "parse_loop ECommaOrEnd (FArr done # fs) (CHR '','' # print_json v @ ?tail)
      = parse_loop EValue (FArr done # fs) (print_json v @ ?tail)"
    by (subst parse_loop.simps) (simp add: parse_token_def)
  also have "\<dots> = resume v (FArr done # fs) ?tail"
    using Cons.prems e by (simp add: reads_back_def)
  also have "\<dots> = parse_loop ECommaOrEnd (FArr (v # done) # fs) ?tail"
    by (simp add: resume_def deliver_def)
  also have "\<dots> = resume (JArr (rev (v # done) @ vs)) fs r" using Cons by simp
  finally show ?case by simp
qed

lemma parse_members:
  "\<forall>(k, v) \<in> set ms. plain_string k \<and> reads_back v \<and> json_depth v + int (length fs) < 10000 \<Longrightarrow>
   parse_loop ECommaOrEnd (FObj done k0 # fs)
     (concat (map (\<lambda>(k, v). CHR '','' # print_string k @ CHR '':'' # print_json v) ms) @ CHR ''}'' # r)
   = resume (JObj (rev done @ ms)) fs r"
proof (induction ms arbitrary: "done" k0)
  case Nil
  show ?case
    by (subst parse_loop.simps) (simp add: parse_token_def end_object_def resume_def split: parse_step.split)
next
  case (Cons m ms)
  obtain k v where m: "m = (k, v)" by fastforce
  let ?tail = "concat (map (\<lambda>(k, v). CHR '','' # print_string k @ CHR '':'' # print_json v) ms) @ CHR ''}'' # r"
  have e: "ends_number ?tail" by (cases ms) (simp_all add: split_beta)
  have "parse_loop ECommaOrEnd (FObj done k0 # fs) (CHR '','' # print_string k @ CHR '':'' # print_json v @ ?tail)
      = parse_loop EKey (FObj done k0 # fs) (print_string k @ CHR '':'' # print_json v @ ?tail)"
    by (subst parse_loop.simps) (simp add: parse_token_def)
  also have "\<dots> = parse_loop EColon (FObj done k # fs) (CHR '':'' # print_json v @ ?tail)"
    using Cons.prems m by (subst parse_loop.simps) (simp add: parse_token_def key_step_def)
  also have "\<dots> = parse_loop EValue (FObj done k # fs) (print_json v @ ?tail)"
    by (subst parse_loop.simps) (simp add: parse_token_def)
  also have "\<dots> = resume v (FObj done k # fs) ?tail"
    using Cons.prems m e by (simp add: reads_back_def)
  also have "\<dots> = parse_loop ECommaOrEnd (FObj ((k, v) # done) k # fs) ?tail"
    by (simp add: resume_def deliver_def)
  also have "\<dots> = resume (JObj (rev ((k, v) # done) @ ms)) fs r" using Cons by simp
  finally show ?case using m by simp
qed

lemma fold_max_ge: "a \<le> fold max xs (a :: int) \<and> (\<forall>x \<in> set xs. x \<le> fold max xs a)"
proof (induction xs arbitrary: a)
  case (Cons x xs)
  from Cons [of "max x a"] show ?case by auto
qed simp

lemma reads_back_atom:
  assumes "\<And>r. ends_number r \<Longrightarrow> next_token (print_json v @ r) = Some (t, r)"
    and "\<And>fs. value_step t fs = Some (deliver v fs)" and "t \<noteq> TRBrack"
  shows "reads_back v"
  unfolding reads_back_def
  using assms by (subst parse_loop.simps) (auto simp: parse_token_def resume_def split: parse_step.split)

lemma reads_back_array:
  assumes "\<forall>v \<in> set vs. reads_back v"
  shows "reads_back (JArr vs)"
  unfolding reads_back_def
proof (intro allI impI)
  fix ex and fs :: "frame list" and r
  assume ex: "ex \<in> {EValue, EValueOrEnd}" and depth: "json_depth (JArr vs) + int (length fs) \<le> 10000"
  have "json_depth v \<le> fold max (map json_depth vs) 0" if "v \<in> set vs" for v
    using that fold_max_ge [where xs = "map json_depth vs" and a = 0] by simp
  then have deep: "\<forall>v \<in> set vs. json_depth v + int (length fs) < 10000" using depth by fastforce
  have "0 \<le> fold max (map json_depth vs) 0" using fold_max_ge [where xs = "map json_depth vs" and a = 0] by simp
  then have "int (length fs) < 10000" using depth by simp
  then have "parse_loop ex fs (print_json (JArr vs) @ r)
      = parse_loop EValueOrEnd (FArr [] # fs) (commas (map print_json vs) @ CHR '']'' # r)"
    using ex by (subst parse_loop.simps) (auto simp: parse_token_def value_step_def push_def)
  also have "\<dots> = resume (JArr vs) fs r"
  proof (cases vs)
    case Nil
    then show ?thesis
      by (subst parse_loop.simps) (simp add: commas_def parse_token_def end_array_def resume_def split: parse_step.split)
  next
    case (Cons v us)
    let ?tail = "concat (map (\<lambda>v. CHR '','' # print_json v) us) @ CHR '']'' # r"
    have e: "ends_number ?tail" by (cases us) simp_all
    have "parse_loop EValueOrEnd (FArr [] # fs) (print_json v @ ?tail) = resume v (FArr [] # fs) ?tail"
      using assms Cons deep e by (simp add: reads_back_def)
    also have "\<dots> = parse_loop ECommaOrEnd (FArr [v] # fs) ?tail" by (simp add: resume_def deliver_def)
    also have "\<dots> = resume (JArr (rev [v] @ us)) fs r"
      by (rule parse_elements) (use assms Cons deep in simp)
    finally show ?thesis using Cons by (simp add: commas_def o_def)
  qed
  finally show "parse_loop ex fs (print_json (JArr vs) @ r) = resume (JArr vs) fs r" .
qed

lemma reads_back_object:
  assumes "\<forall>(k, v) \<in> set ms. plain_string k \<and> reads_back v"
  shows "reads_back (JObj ms)"
  unfolding reads_back_def
proof (intro allI impI)
  fix ex and fs :: "frame list" and r
  assume ex: "ex \<in> {EValue, EValueOrEnd}" and depth: "json_depth (JObj ms) + int (length fs) \<le> 10000"
  let ?ds = "map (\<lambda>(k, v). json_depth v) ms"
  have "json_depth v \<le> fold max ?ds 0" if "(k, v) \<in> set ms" for k v
    using that fold_max_ge [where xs = ?ds and a = 0] by force
  then have deep: "\<forall>(k, v) \<in> set ms. json_depth v + int (length fs) < 10000" using depth by fastforce
  have "0 \<le> fold max ?ds 0" using fold_max_ge [where xs = ?ds and a = 0] by simp
  then have "int (length fs) < 10000" using depth by simp
  then have "parse_loop ex fs (print_json (JObj ms) @ r)
      = parse_loop EKeyOrEnd (FObj [] [] # fs)
          (commas (map (\<lambda>(k, v). print_string k @ CHR '':'' # print_json v) ms) @ CHR ''}'' # r)"
    using ex by (subst parse_loop.simps) (auto simp: parse_token_def value_step_def push_def)
  also have "\<dots> = resume (JObj ms) fs r"
  proof (cases ms)
    case Nil
    then show ?thesis
      by (subst parse_loop.simps) (simp add: commas_def parse_token_def end_object_def resume_def split: parse_step.split)
  next
    case (Cons m us)
    obtain k v where m: "m = (k, v)" by fastforce
    let ?tail = "concat (map (\<lambda>(k, v). CHR '','' # print_string k @ CHR '':'' # print_json v) us) @ CHR ''}'' # r"
    have e: "ends_number ?tail" by (cases us) (simp_all add: split_beta)
    have "parse_loop EKeyOrEnd (FObj [] [] # fs) (print_string k @ CHR '':'' # print_json v @ ?tail)
        = parse_loop EColon (FObj [] k # fs) (CHR '':'' # print_json v @ ?tail)"
      using assms Cons m by (subst parse_loop.simps) (simp add: parse_token_def key_step_def)
    also have "\<dots> = parse_loop EValue (FObj [] k # fs) (print_json v @ ?tail)"
      by (subst parse_loop.simps) (simp add: parse_token_def)
    also have "\<dots> = resume v (FObj [] k # fs) ?tail"
      using assms Cons m deep e by (simp add: reads_back_def)
    also have "\<dots> = parse_loop ECommaOrEnd (FObj [(k, v)] k # fs) ?tail" by (simp add: resume_def deliver_def)
    also have "\<dots> = resume (JObj (rev [(k, v)] @ us)) fs r"
      by (rule parse_members) (use assms Cons deep in auto)
    finally show ?thesis using Cons m by (simp add: commas_def o_def case_prod_unfold)
  qed
  finally show "parse_loop ex fs (print_json (JObj ms) @ r) = resume (JObj ms) fs r" .
qed

lemma wf_reads_back: "wf_json v \<Longrightarrow> reads_back v"
proof (induction rule: wf_json.induct)
  case wf_null
  show ?case by (rule reads_back_atom [of _ TNull]) (simp_all add: value_step_def next_token_words(1) [simplified])
next
  case (wf_bool b)
  show ?case
    by (rule reads_back_atom [of _ "if b then TTrue else TFalse"])
       (simp_all add: value_step_def next_token_words(2,3) [simplified])
next
  case (wf_num n)
  show ?case by (rule reads_back_atom [of _ "TNum (decimal n)"]) (simp_all add: value_step_def next_token_decimal)
next
  case (wf_str s)
  then show ?case by (intro reads_back_atom [of _ "TStr s"]) (simp_all add: value_step_def)
next
  case (wf_arr vs)
  then show ?case by (intro reads_back_array) blast
next
  case (wf_obj ms)
  then show ?case by (intro reads_back_object) auto
qed

text \<open>A printed value is read back, whatever follows it.\<close>

lemma parse_print_json:
  assumes "wf_json v" "json_depth v \<le> 10000" "ends_number r"
  shows "parse_json (print_json v @ r) = Some (v, r)"
  using wf_reads_back [OF assms(1)] assms(2,3) by (simp add: parse_json_def reads_back_def resume_def deliver_def)

end
