(* ===== verification/Load_Config.thy ===== *)
theory Load_Config
  imports Rules Go_Json "HOL-Library.Log_Nat"
begin

text \<open>
  \<open>loadConfig\<close> of \<open>config.go\<close> with what it uses of the standard library: the decoding of a JSON
  value into the configuration structs (package \<open>encoding/json\<close> with \<open>DisallowUnknownFields\<close>, into
  structs that hold the defaults), and \<open>time.ParseDuration\<close>. The file system is a parameter.

  A fraction in a duration goes through \<open>float64\<close>: the model rounds each of the three floating-point
  operations (the conversion of the digits, the division of the unit by the scale, the product) to 53
  bits, to nearest, ties to even. All numbers here are positive and far from the ends of the range.
\<close>

section \<open>Positive doubles\<close>

text \<open>A double is a pair of a mantissa and an exponent, \<open>m * 2 ^ e\<close>; the quotient \<open>p / q\<close> is rounded.\<close>

definition round_half_even :: "int \<Rightarrow> int \<Rightarrow> int" where
  "round_half_even p q =
     (let d = p div q; r = p mod q in
      if 2 * r < q \<or> (2 * r = q \<and> even d) then d else d + 1)"

definition scaled :: "int \<Rightarrow> int \<Rightarrow> int \<Rightarrow> int \<times> int" where
  "scaled p q e = (if 0 \<le> e then (p, q * 2 ^ nat e) else (p * 2 ^ nat (- e), q))"

definition fl :: "int \<Rightarrow> int \<Rightarrow> int \<times> int" where
  "fl p q =
     (let e0 = bitlen p - bitlen q - 53;
          e = (case scaled p q e0 of (a, b) \<Rightarrow> if a < b * 2 ^ 53 then e0 else e0 + 1)
      in case scaled p q e of (a, b) \<Rightarrow> (round_half_even a b, e))"

definition fl_num :: "int \<times> int \<Rightarrow> int" where
  "fl_num x = (case x of (m, e) \<Rightarrow> if 0 \<le> e then m * 2 ^ nat e else m)"

definition fl_den :: "int \<times> int \<Rightarrow> int" where
  "fl_den x = (case x of (m, e) \<Rightarrow> if 0 \<le> e then 1 else 2 ^ nat (- e))"

text \<open>\<open>uint64(float64(f) * (float64(unit) / scale))\<close>\<close>

definition fraction_part :: "int \<Rightarrow> int \<Rightarrow> int \<Rightarrow> int" where
  "fraction_part f unit scale =
     (let x = fl f 1; y = fl unit scale; z = fl (fl_num x * fl_num y) (fl_den x * fl_den y)
      in fl_num z div fl_den z)"

section \<open>time.ParseDuration\<close>

definition digit_value :: "char \<Rightarrow> int" where
  "digit_value c = int (byte c) - 48"

fun leadingInt :: "int \<Rightarrow> bytes \<Rightarrow> (int \<times> bytes) option" where
  "leadingInt x [] = Some (x, [])"
| "leadingInt x (c # s) =
     (if \<not> is_digit c then Some (x, c # s)
      else if x > 2 ^ 63 div 10 then None
      else let x = x * 10 + digit_value c in
        if x > 2 ^ 63 then None else leadingInt x s)"

fun leadingFraction :: "int \<Rightarrow> int \<Rightarrow> bool \<Rightarrow> bytes \<Rightarrow> int \<times> int \<times> bytes" where
  "leadingFraction x scale overflow [] = (x, scale, [])"
| "leadingFraction x scale overflow (c # s) =
     (if \<not> is_digit c then (x, scale, c # s)
      else if overflow then leadingFraction x scale overflow s
      else if x > (2 ^ 63 - 1) div 10 then leadingFraction x scale True s
      else let y = x * 10 + digit_value c in
        if y > 2 ^ 63 then leadingFraction x scale True s
        else leadingFraction y (scale * 10) False s)"

definition unit_ns :: "bytes \<Rightarrow> int option" where
  "unit_ns u =
     (if u = ''ns'' then Some 1
      else if u = ''us'' \<or> u = [CHR 0xC2, CHR 0xB5] @ ''s'' \<or> u = [CHR 0xCE, CHR 0xBC] @ ''s'' then Some 1000
      else if u = ''ms'' then Some 1000000
      else if u = ''s'' then Some 1000000000
      else if u = ''m'' then Some 60000000000
      else if u = ''h'' then Some 3600000000000
      else None)"

definition number_char :: "char \<Rightarrow> bool" where
  "number_char c \<longleftrightarrow> c = CHR ''.'' \<or> is_digit c"

definition duration_fraction :: "bytes \<Rightarrow> int \<times> int \<times> bytes \<times> bool" where
  "duration_fraction s1 =
     (if s1 \<noteq> [] \<and> hd s1 = CHR ''.''
      then case leadingFraction 0 1 False (tl s1) of (f, scale, s) \<Rightarrow> (f, scale, s, length s \<noteq> length (tl s1))
      else (0, 1, s1, False))"

text \<open>One round of the loop: a number with its unit, in nanoseconds, and the rest of the string.\<close>

definition duration_term :: "bytes \<Rightarrow> (int \<times> bytes) option" where
  "duration_term s0 =
     (if s0 = [] \<or> \<not> number_char (hd s0) then None
      else case leadingInt 0 s0 of
        None \<Rightarrow> None
      | Some (v, s1) \<Rightarrow>
          (let pre = (length s1 \<noteq> length s0);
               (f, scale, s2, post) = duration_fraction s1
           in if \<not> pre \<and> \<not> post then None
              else let u = takeWhile (\<lambda>c. \<not> number_char c) s2; s = dropWhile (\<lambda>c. \<not> number_char c) s2 in
                if u = [] then None
                else case unit_ns u of
                  None \<Rightarrow> None
                | Some unit \<Rightarrow>
                    if v > 2 ^ 63 div unit then None
                    else let v = v * unit; v = (if f > 0 then v + fraction_part f unit scale else v) in
                      if f > 0 \<and> v > 2 ^ 63 then None else Some (v, s)))"

lemma leadingInt_length: "leadingInt x s = Some (y, t) \<Longrightarrow> length t \<le> length s"
  by (induction x s rule: leadingInt.induct) (auto simp: Let_def split: if_splits)

lemma leadingFraction_length: "leadingFraction x sc ov s = (f, sc', t) \<Longrightarrow> length t \<le> length s"
  by (induction x sc ov s rule: leadingFraction.induct) (auto simp: Let_def split: if_splits)

lemma duration_term_length: "duration_term s = Some (v, t) \<Longrightarrow> length t < length s"
proof -
  assume d: "duration_term s = Some (v, t)"
  then obtain v0 s1 where l: "leadingInt 0 s = Some (v0, s1)" by (auto simp: duration_term_def split: option.splits if_splits)
  have drop: "takeWhile P u \<noteq> [] \<Longrightarrow> length (dropWhile P u) < length u" for P and u :: bytes
    by (cases u) (auto simp: less_Suc_eq_le length_dropWhile_le split: if_splits)
  obtain f sc s2 post where r: "duration_fraction s1 = (f, sc, s2, post)" by (cases "duration_fraction s1")
  then have "length s2 \<le> length s1"
    using leadingFraction_length [of 0 1 False "tl s1" f sc s2]
    by (auto simp: duration_fraction_def split: if_splits prod.splits)
  moreover have "takeWhile (\<lambda>c. \<not> number_char c) s2 \<noteq> []" "t = dropWhile (\<lambda>c. \<not> number_char c) s2"
    using d l r by (auto simp: duration_term_def Let_def split: option.splits if_splits)
  ultimately show ?thesis using drop leadingInt_length [OF l] by fastforce
qed

text \<open>The sum is a \<open>uint64\<close>.\<close>

function duration_loop :: "int \<Rightarrow> bytes \<Rightarrow> int option" where
  "duration_loop d s =
     (if s = [] then Some d
      else case duration_term s of
        None \<Rightarrow> None
      | Some (v, t) \<Rightarrow> let d = (d + v) mod 2 ^ 64 in
          if d > 2 ^ 63 then None else duration_loop d t)"
  by pat_completeness auto
termination
  by (relation "measure (\<lambda>(d, s). length s)") (auto dest: duration_term_length)

declare duration_loop.simps [simp del]

definition ParseDuration :: "bytes \<Rightarrow> int option" where
  "ParseDuration orig =
     (let signed = (orig \<noteq> [] \<and> hd orig \<in> {CHR ''-'', CHR ''+''});
          neg = (orig \<noteq> [] \<and> hd orig = CHR ''-'');
          s = (if signed then tl orig else orig)
      in if s = ''0'' then Some 0
         else if s = [] then None
         else case duration_loop 0 s of
           None \<Rightarrow> None
         | Some d \<Rightarrow> if neg then Some (- d) else if d > 2 ^ 63 - 1 then None else Some d)"

section \<open>Decoding JSON into the structs\<close>

text \<open>
  A decoder takes the old value, which a JSON \<open>null\<close> leaves as it is, and fails on a value of another
  kind. A slice is decoded into its old elements, and shrinking it keeps the elements behind its new
  length, where a later array for the same key finds them: it is a pair of the elements and of those.
\<close>

definition decode_string :: "bytes \<Rightarrow> json \<Rightarrow> bytes option" where
  "decode_string old j = (case j of JStr s \<Rightarrow> Some s | JNull \<Rightarrow> Some old | _ \<Rightarrow> None)"

definition decode_bool :: "bool \<Rightarrow> json \<Rightarrow> bool option" where
  "decode_bool old j = (case j of JBool b \<Rightarrow> Some b | JNull \<Rightarrow> Some old | _ \<Rightarrow> None)"

text \<open>\<open>strconv.ParseUint\<close> on a JSON number, with the range of \<open>uint16\<close>.\<close>

fun digits_val :: "int \<Rightarrow> bytes \<Rightarrow> int" where
  "digits_val n [] = n"
| "digits_val n (c # s) = digits_val (n * 10 + digit_value c) s"

definition parse_uint16 :: "bytes \<Rightarrow> 16 word option" where
  "parse_uint16 lit =
     (if lit \<noteq> [] \<and> list_all is_digit lit \<and> digits_val 0 lit \<le> 65535 then Some (of_int (digits_val 0 lit)) else None)"

definition decode_uint16 :: "16 word \<Rightarrow> json \<Rightarrow> 16 word option" where
  "decode_uint16 old j = (case j of JNum n \<Rightarrow> parse_uint16 n | JNull \<Rightarrow> Some old | _ \<Rightarrow> None)"

type_synonym 'a goslice = "'a list \<times> 'a list"

fun decode_elems :: "('a \<Rightarrow> json \<Rightarrow> 'a option) \<Rightarrow> 'a \<Rightarrow> 'a list \<Rightarrow> json list \<Rightarrow> 'a goslice option" where
  "decode_elems dec zero olds [] = Some ([], olds)"
| "decode_elems dec zero olds (j # js) =
     (case dec (case olds of old # _ \<Rightarrow> old | [] \<Rightarrow> zero) j of
        None \<Rightarrow> None
      | Some v \<Rightarrow> map_option (\<lambda>(vs, rest). (v # vs, rest)) (decode_elems dec zero (tl olds) js))"

definition decode_slice :: "('a \<Rightarrow> json \<Rightarrow> 'a option) \<Rightarrow> 'a \<Rightarrow> 'a goslice \<Rightarrow> json \<Rightarrow> 'a goslice option" where
  "decode_slice dec zero old j =
     (case j of
        JNull \<Rightarrow> Some ([], [])
      | JArr js \<Rightarrow> if js = [] then Some ([], []) else decode_elems dec zero (fst old @ snd old) js
      | _ \<Rightarrow> None)"

text \<open>The field a key names: exactly, or up to case (two letters outside ASCII fold into it).\<close>

fun fold_name :: "bytes \<Rightarrow> bytes" where
  "fold_name (a # b # s) =
     (if a = CHR 0xC5 \<and> b = CHR 0xBF then CHR ''S'' # fold_name s
      else case s of
        c # t \<Rightarrow>
          if a = CHR 0xE2 \<and> b = CHR 0x84 \<and> c = CHR 0xAA then CHR ''K'' # fold_name t
          else ascii_upper a # fold_name (b # s)
      | [] \<Rightarrow> ascii_upper a # fold_name (b # s))"
| "fold_name s = map ascii_upper s"

definition find_field :: "bytes list \<Rightarrow> bytes \<Rightarrow> bytes option" where
  "find_field names key =
     (if key \<in> set names then Some key else find (\<lambda>n. fold_name n = fold_name key) names)"

fun decode_members :: "bytes list \<Rightarrow> (bytes \<Rightarrow> json \<Rightarrow> 's \<Rightarrow> 's option) \<Rightarrow> (bytes \<times> json) list \<Rightarrow> 's \<Rightarrow> 's option" where
  "decode_members names field [] s = Some s"
| "decode_members names field ((key, j) # ms) s =
     (case find_field names key of
        None \<Rightarrow> None
      | Some name \<Rightarrow> (case field name j s of None \<Rightarrow> None | Some s \<Rightarrow> decode_members names field ms s))"

definition decode_struct :: "bytes list \<Rightarrow> (bytes \<Rightarrow> json \<Rightarrow> 's \<Rightarrow> 's option) \<Rightarrow> 's \<Rightarrow> json \<Rightarrow> 's option" where
  "decode_struct names field old j =
     (case j of JNull \<Rightarrow> Some old | JObj ms \<Rightarrow> decode_members names field ms old | _ \<Rightarrow> None)"

definition decode_ip_port :: "IPPortRuleConfig \<Rightarrow> json \<Rightarrow> IPPortRuleConfig option" where
  "decode_ip_port = decode_struct [''ip'', ''port'', ''proto''] (\<lambda>name j r.
     if name = ''ip'' then map_option (\<lambda>v. r\<lparr>ipc_IP := v\<rparr>) (decode_string (ipc_IP r) j)
     else if name = ''port'' then map_option (\<lambda>v. r\<lparr>ipc_Port := v\<rparr>) (decode_uint16 (ipc_Port r) j)
     else map_option (\<lambda>v. r\<lparr>ipc_Proto := v\<rparr>) (decode_string (ipc_Proto r) j))"

definition zero_ip_port :: IPPortRuleConfig where
  "zero_ip_port = \<lparr>ipc_IP = [], ipc_Port = 0, ipc_Proto = []\<rparr>"

text \<open>The configuration while it is decoded, with the elements behind the ends of its slices.\<close>

record decoding =
  dc_cfg :: AppConfig
  dc_domains :: "bytes list"
  dc_dns :: "bytes list"
  dc_ips :: "bytes list"
  dc_ports :: "IPPortRuleConfig list"
  dc_chains :: "bytes list"

definition set_rules :: "(RuleConfig \<Rightarrow> RuleConfig) \<Rightarrow> decoding \<Rightarrow> decoding" where
  "set_rules f d = d\<lparr>dc_cfg := (dc_cfg d)\<lparr>Rules := f (Rules (dc_cfg d))\<rparr>\<rparr>"

definition set_nfq :: "(NFQueueConfig \<Rightarrow> NFQueueConfig) \<Rightarrow> decoding \<Rightarrow> decoding" where
  "set_nfq f d = d\<lparr>dc_cfg := (dc_cfg d)\<lparr>NFQueue := f (NFQueue (dc_cfg d))\<rparr>\<rparr>"

definition set_xdp :: "(AFXDPConfig \<Rightarrow> AFXDPConfig) \<Rightarrow> decoding \<Rightarrow> decoding" where
  "set_xdp f d = d\<lparr>dc_cfg := (dc_cfg d)\<lparr>AFXDP := f (AFXDP (dc_cfg d))\<rparr>\<rparr>"

definition decode_strings :: "bytes goslice \<Rightarrow> json \<Rightarrow> bytes goslice option" where
  "decode_strings = decode_slice decode_string []"

definition decode_rules :: "decoding \<Rightarrow> json \<Rightarrow> decoding option" where
  "decode_rules = decode_struct [''domains'', ''dns_poison_domains'', ''ips'', ''ip_ports''] (\<lambda>name j d.
     let r = Rules (dc_cfg d) in
     if name = ''domains'' then
       map_option (\<lambda>(v, x). set_rules (\<lambda>r. r\<lparr>cfg_Domains := v\<rparr>) (d\<lparr>dc_domains := x\<rparr>))
         (decode_strings (cfg_Domains r, dc_domains d) j)
     else if name = ''dns_poison_domains'' then
       map_option (\<lambda>(v, x). set_rules (\<lambda>r. r\<lparr>cfg_DNSPoisonDomains := v\<rparr>) (d\<lparr>dc_dns := x\<rparr>))
         (decode_strings (cfg_DNSPoisonDomains r, dc_dns d) j)
     else if name = ''ips'' then
       map_option (\<lambda>(v, x). set_rules (\<lambda>r. r\<lparr>cfg_IPs := v\<rparr>) (d\<lparr>dc_ips := x\<rparr>))
         (decode_strings (cfg_IPs r, dc_ips d) j)
     else
       map_option (\<lambda>(v, x). set_rules (\<lambda>r. r\<lparr>cfg_IPPorts := v\<rparr>) (d\<lparr>dc_ports := x\<rparr>))
         (decode_slice decode_ip_port zero_ip_port (cfg_IPPorts r, dc_ports d) j))"

definition decode_nfqueue :: "decoding \<Rightarrow> json \<Rightarrow> decoding option" where
  "decode_nfqueue = decode_struct
     [''queue_num'', ''firewall_backend'', ''install_rules'', ''chains'', ''capture'', ''fail_open'', ''dns_mode'']
     (\<lambda>name j d. let q = NFQueue (dc_cfg d) in
      if name = ''queue_num'' then map_option (\<lambda>v. set_nfq (\<lambda>q. q\<lparr>QueueNum := v\<rparr>) d) (decode_uint16 (QueueNum q) j)
      else if name = ''firewall_backend'' then
        map_option (\<lambda>v. set_nfq (\<lambda>q. q\<lparr>FirewallBackend := v\<rparr>) d) (decode_string (FirewallBackend q) j)
      else if name = ''install_rules'' then
        map_option (\<lambda>v. set_nfq (\<lambda>q. q\<lparr>InstallRules := v\<rparr>) d) (decode_bool (InstallRules q) j)
      else if name = ''chains'' then
        map_option (\<lambda>(v, x). set_nfq (\<lambda>q. q\<lparr>Chains := v\<rparr>) (d\<lparr>dc_chains := x\<rparr>))
          (decode_strings (Chains q, dc_chains d) j)
      else if name = ''capture'' then map_option (\<lambda>v. set_nfq (\<lambda>q. q\<lparr>Capture := v\<rparr>) d) (decode_string (Capture q) j)
      else if name = ''fail_open'' then map_option (\<lambda>v. set_nfq (\<lambda>q. q\<lparr>FailOpen := v\<rparr>) d) (decode_bool (FailOpen q) j)
      else map_option (\<lambda>v. set_nfq (\<lambda>q. q\<lparr>DNSMode := v\<rparr>) d) (decode_string (DNSMode q) j))"

definition decode_afxdp :: "decoding \<Rightarrow> json \<Rightarrow> decoding option" where
  "decode_afxdp = decode_struct [''iface'', ''mode''] (\<lambda>name j d.
     if name = ''iface'' then map_option (\<lambda>v. set_xdp (\<lambda>x. x\<lparr>Iface := v\<rparr>) d) (decode_string (Iface (AFXDP (dc_cfg d))) j)
     else map_option (\<lambda>v. set_xdp (\<lambda>x. x\<lparr>Mode := v\<rparr>) d) (decode_string (Mode (AFXDP (dc_cfg d))) j))"

definition decode_app :: "decoding \<Rightarrow> json \<Rightarrow> decoding option" where
  "decode_app = decode_struct [''engine'', ''debug'', ''stats_interval'', ''rules'', ''nfqueue'', ''af_xdp''] (\<lambda>name j d.
     if name = ''engine'' then
       map_option (\<lambda>v. d\<lparr>dc_cfg := (dc_cfg d)\<lparr>Engine := v\<rparr>\<rparr>) (decode_string (Engine (dc_cfg d)) j)
     else if name = ''debug'' then
       map_option (\<lambda>v. d\<lparr>dc_cfg := (dc_cfg d)\<lparr>Debug := v\<rparr>\<rparr>) (decode_bool (Debug (dc_cfg d)) j)
     else if name = ''stats_interval'' then
       map_option (\<lambda>v. d\<lparr>dc_cfg := (dc_cfg d)\<lparr>StatsInterval := v\<rparr>\<rparr>) (decode_string (StatsInterval (dc_cfg d)) j)
     else if name = ''rules'' then decode_rules d j
     else if name = ''nfqueue'' then decode_nfqueue d j
     else decode_afxdp d j)"

definition Decode :: "AppConfig \<Rightarrow> bytes \<Rightarrow> AppConfig option" where
  "Decode cfg input =
     (case parse_json input of
        None \<Rightarrow> None
      | Some (j, _) \<Rightarrow>
          map_option dc_cfg
            (decode_app \<lparr>dc_cfg = cfg, dc_domains = [], dc_dns = [], dc_ips = [], dc_ports = [], dc_chains = []\<rparr> j))"

section \<open>loadConfig\<close>

definition default_chains :: "bytes list" where
  "default_chains = [''input'', ''output'', ''forward'']"

definition default_config :: AppConfig where
  "default_config =
     \<lparr>Engine = ''nfqueue'', Debug = False, StatsInterval = [],
      Rules = \<lparr>cfg_Domains = [], cfg_DNSPoisonDomains = [], cfg_IPs = [], cfg_IPPorts = []\<rparr>,
      NFQueue = \<lparr>QueueNum = 100, FirewallBackend = ''auto'', InstallRules = True, Chains = default_chains,
                 Capture = ''l7'', FailOpen = False, DNSMode = ''nxdomain''\<rparr>,
      AFXDP = \<lparr>Iface = [], Mode = []\<rparr>, statsEvery = 5000000000\<rparr>"

text \<open>The normalisation and validation after the decoder.\<close>

definition finish_nfqueue :: "NFQueueConfig \<Rightarrow> NFQueueConfig" where
  "finish_nfqueue q =
     q\<lparr>QueueNum := (if QueueNum q = 0 then 100 else QueueNum q),
       FirewallBackend := normalizeChoice (FirewallBackend q) ''auto'',
       Capture := normalizeChoice (Capture q) ''l7'',
       DNSMode := normalizeChoice (DNSMode q) ''nxdomain'',
       Chains := (if Chains q = [] then default_chains else Chains q)\<rparr>"

definition stats_interval :: "AppConfig \<Rightarrow> config_error + int" where
  "stats_interval cfg =
     (if TrimSpace (StatsInterval cfg) \<noteq> [] then
        (case ParseDuration (TrimSpace (StatsInterval cfg)) of
           None \<Rightarrow> Inl (InvalidStatsInterval (TrimSpace (StatsInterval cfg)))
         | Some d \<Rightarrow> Inr d)
      else Inr (statsEvery cfg))"

definition finish_config :: "AppConfig \<Rightarrow> config_error + AppConfig" where
  "finish_config cfg0 =
     (let cfg = cfg0\<lparr>Engine := normalizeChoice (Engine cfg0) ''nfqueue''\<rparr> in
      if Engine cfg \<notin> {''nfqueue'', ''af_xdp'', ''xdp_fast_path''} then Inl (InvalidEngine (Engine cfg))
      else case stats_interval cfg of
        Inl e \<Rightarrow> Inl e
      | Inr d \<Rightarrow>
          if d \<le> 0 then Inl StatsIntervalNotPositive
          else let cfg = cfg\<lparr>statsEvery := d, NFQueue := finish_nfqueue (NFQueue cfg)\<rparr> in
            case validateNFQueueConfig (NFQueue cfg) of
              Some e \<Rightarrow> Inl e
            | None \<Rightarrow>
                (case compileRuleSet (Rules cfg) of
                   Inl e \<Rightarrow> Inl e
                 | Inr _ \<Rightarrow> Inr cfg))"

definition defaultConfigPath :: bytes where
  "defaultConfigPath = ''config.json''"

text \<open>Opening and reading a file gives its bytes, or fails.\<close>

definition loadConfig :: "(bytes \<Rightarrow> bytes option) \<Rightarrow> bytes \<Rightarrow> config_error + AppConfig" where
  "loadConfig os_Open path0 =
     (let path = TrimSpace path0; path = (if path = [] then defaultConfigPath else path) in
      case os_Open path of
        None \<Rightarrow> Inl (OpenError path)
      | Some input \<Rightarrow>
          (case Decode default_config input of
             None \<Rightarrow> Inl (DecodeError path)
           | Some cfg \<Rightarrow> finish_config cfg))"

end
