(* ===== verification/Load_Config_Properties.thy ===== *)
theory Load_Config_Properties
  imports Load_Config
begin

text \<open>
  Properties of \<open>loadConfig\<close>: every configuration it returns is valid, a configuration written as JSON
  is read back, unknown fields are refused, and durations in seconds mean what they say.
\<close>

section \<open>Durations\<close>

lemma digit_value_digit_char: "d < 10 \<Longrightarrow> digit_value (digit_char d) = int d" "d < 10 \<Longrightarrow> is_digit (digit_char d)"
  by (simp_all add: digit_value_def digit_char_def is_digit_def)

lemma leadingInt_decimal:
  "leadingInt 0 (decimal n @ t) = (if int n \<le> 2 ^ 63 then leadingInt (int n) t else None)"
proof (induction n arbitrary: t rule: decimal.induct)
  case (1 n)
  show ?case
  proof (cases "n < 10")
    case True
    then show ?thesis by (subst decimal.simps) (simp add: digit_value_digit_char)
  next
    case False
    let ?q = "n div 10" and ?d = "digit_char (n mod 10)"
    have n: "int n = int ?q * 10 + int (n mod 10)" by presburger
    have step: "decimal n @ t = decimal ?q @ ?d # t" using False by (subst decimal.simps) simp
    have "leadingInt 0 (decimal n @ t) = (if int ?q \<le> 2 ^ 63 then leadingInt (int ?q) (?d # t) else None)"
      unfolding step by (rule "1.IH" [OF False])
    also have "\<dots> = (if int n \<le> 2 ^ 63 then leadingInt (int n) t else None)"
      using n by (auto simp: digit_value_digit_char)
    finally show ?thesis .
  qed
qed

lemma ParseDuration_seconds:
  "ParseDuration (decimal n @ ''s'') = (if n \<le> 9223372036 then Some (int n * 1000000000) else None)"
proof -
  obtain c u where d: "decimal n = c # u" by (cases "decimal n") auto
  then have c: "is_digit c" using decimal_digits [of n] by simp
  then have sign: "c \<noteq> CHR ''-''" "c \<noteq> CHR ''+''" by (auto simp: is_digit_def)
  have s: "leadingInt x ''s'' = Some (x, ''s'')" for x by (simp add: is_digit_def)
  have f: "duration_fraction ''s'' = (0, 1, ''s'', False)" by (simp add: duration_fraction_def)
  have u: "takeWhile (\<lambda>c. \<not> number_char c) ''s'' = ''s''" "dropWhile (\<lambda>c. \<not> number_char c) ''s'' = []"
    "unit_ns ''s'' = Some 1000000000"
    by (simp_all add: number_char_def is_digit_def unit_ns_def)
  have "duration_term (decimal n @ ''s'') = (if n \<le> 9223372036 then Some (int n * 1000000000, []) else None)"
  proof (cases "int n \<le> 2 ^ 63")
    case True
    then have "leadingInt 0 (decimal n @ ''s'') = Some (int n, ''s'')" by (simp only: leadingInt_decimal s if_True)
    then show ?thesis
      using c d f u by (auto simp: duration_term_def number_char_def Let_def)
  next
    case False
    then have "leadingInt 0 (decimal n @ ''s'') = None" by (simp add: leadingInt_decimal)
    then show ?thesis using False by (simp add: duration_term_def)
  qed
  then have "duration_loop 0 (decimal n @ ''s'') = (if n \<le> 9223372036 then Some (int n * 1000000000) else None)"
    by (subst duration_loop.simps) (auto simp: Let_def duration_loop.simps [of _ "[]"])
  moreover have "decimal n @ ''s'' \<noteq> ''0''" using d by auto
  ultimately show ?thesis using d sign by (auto simp: ParseDuration_def Let_def)
qed

lemma TrimSpace_seconds: "TrimSpace (decimal n @ ''s'') = decimal n @ ''s''"
proof -
  have "byte c < 128 \<and> \<not> space_char c" if "is_digit c" for c
    using that by (auto simp: is_digit_def space_char_def is_space_def)
  then have "\<forall>c \<in> set (decimal n @ ''s''). byte c < 128 \<and> \<not> space_char c"
    using decimal_digits [of n] by (auto simp: list_all_iff space_char_def is_space_def)
  then show ?thesis by (intro TrimSpace_no_space) (auto simp: is_ascii_def list_all_iff)
qed

text \<open>
  A statistics interval given as a whole number of seconds is read as that many seconds, and
  refused exactly when it does not fit in a duration, which counts nanoseconds in a signed 64-bit
  integer; the accumulator never wraps into a wrong interval.
\<close>

lemma stats_interval_seconds:
  "stats_interval (cfg\<lparr>StatsInterval := decimal n @ ''s''\<rparr>) =
     (if n \<le> 9223372036 then Inr (int n * 1000000000) else Inl (InvalidStatsInterval (decimal n @ ''s'')))"
  by (simp add: stats_interval_def TrimSpace_seconds ParseDuration_seconds)

section \<open>Valid configurations\<close>

lemma finish_config_Inr:
  assumes "finish_config cfg0 = Inr cfg"
  shows "Engine cfg \<in> {''nfqueue'', ''af_xdp'', ''xdp_fast_path''}" and "0 < statsEvery cfg"
    and "validateNFQueueConfig (NFQueue cfg) = None" and "QueueNum (NFQueue cfg) \<noteq> 0" and "Chains (NFQueue cfg) \<noteq> []"
    and "\<exists>r. compileRuleSet (Rules cfg) = Inr r"
proof -
  let ?cfg = "cfg0\<lparr>Engine := normalizeChoice (Engine cfg0) ''nfqueue''\<rparr>"
  obtain d where d: "stats_interval ?cfg = Inr d" "\<not> d \<le> 0"
    and eng: "Engine ?cfg \<in> {''nfqueue'', ''af_xdp'', ''xdp_fast_path''}"
    and cfg: "cfg = ?cfg\<lparr>statsEvery := d, NFQueue := finish_nfqueue (NFQueue ?cfg)\<rparr>"
    and v: "validateNFQueueConfig (NFQueue cfg) = None" "\<exists>r. compileRuleSet (Rules cfg) = Inr r"
    using assms unfolding finish_config_def Let_def
    by (auto simp del: insert_iff empty_iff split: if_splits sum.splits option.splits)
  show "Engine cfg \<in> {''nfqueue'', ''af_xdp'', ''xdp_fast_path''}" using eng by (simp add: cfg)
  show "0 < statsEvery cfg" using d(2) by (simp add: cfg)
  show "validateNFQueueConfig (NFQueue cfg) = None" "\<exists>r. compileRuleSet (Rules cfg) = Inr r" by (rule v)+
  show "QueueNum (NFQueue cfg) \<noteq> 0" "Chains (NFQueue cfg) \<noteq> []"
    by (simp_all add: cfg finish_nfqueue_def default_chains_def)
qed

text \<open>
  C28: Every configuration that loads is valid: a known engine, a positive statistics interval, a
  non-zero queue number, at least one chain, valid choices and chains throughout, and rules that
  compile, so that making the engine cannot fail on the rules.
\<close>

theorem loadConfig_valid:
  assumes "loadConfig os_Open path = Inr cfg"
  shows "Engine cfg \<in> {''nfqueue'', ''af_xdp'', ''xdp_fast_path''} \<and> 0 < statsEvery cfg
    \<and> validateNFQueueConfig (NFQueue cfg) = None \<and> QueueNum (NFQueue cfg) \<noteq> 0 \<and> Chains (NFQueue cfg) \<noteq> []
    \<and> (\<exists>r. compileRuleSet (Rules cfg) = Inr r)"
proof -
  obtain cfg0 where "finish_config cfg0 = Inr cfg"
    using assms by (auto simp: loadConfig_def Let_def split: option.splits)
  from finish_config_Inr [OF this] show ?thesis by blast
qed

section \<open>Writing a configuration\<close>

definition strings_json :: "bytes list \<Rightarrow> json" where
  "strings_json ss = JArr (map JStr ss)"

definition uint16_json :: "16 word \<Rightarrow> json" where
  "uint16_json v = JNum (decimal (unat v))"

definition ip_port_json :: "IPPortRuleConfig \<Rightarrow> json" where
  "ip_port_json r = JObj [(''ip'', JStr (ipc_IP r)), (''port'', uint16_json (ipc_Port r)), (''proto'', JStr (ipc_Proto r))]"

definition rules_json :: "RuleConfig \<Rightarrow> json" where
  "rules_json r =
     JObj [(''domains'', strings_json (cfg_Domains r)), (''dns_poison_domains'', strings_json (cfg_DNSPoisonDomains r)),
           (''ips'', strings_json (cfg_IPs r)), (''ip_ports'', JArr (map ip_port_json (cfg_IPPorts r)))]"

definition nfqueue_json :: "NFQueueConfig \<Rightarrow> json" where
  "nfqueue_json q =
     JObj [(''queue_num'', uint16_json (QueueNum q)), (''firewall_backend'', JStr (FirewallBackend q)),
           (''install_rules'', JBool (InstallRules q)), (''chains'', strings_json (Chains q)),
           (''capture'', JStr (Capture q)), (''fail_open'', JBool (FailOpen q)), (''dns_mode'', JStr (DNSMode q))]"

definition afxdp_json :: "AFXDPConfig \<Rightarrow> json" where
  "afxdp_json x = JObj [(''iface'', JStr (Iface x)), (''mode'', JStr (Mode x))]"

definition config_json :: "AppConfig \<Rightarrow> json" where
  "config_json cfg =
     JObj [(''engine'', JStr (Engine cfg)), (''debug'', JBool (Debug cfg)), (''stats_interval'', JStr (StatsInterval cfg)),
           (''rules'', rules_json (Rules cfg)), (''nfqueue'', nfqueue_json (NFQueue cfg)),
           (''af_xdp'', afxdp_json (AFXDP cfg))]"

definition plain_config :: "AppConfig \<Rightarrow> bool" where
  "plain_config cfg \<longleftrightarrow>
     list_all plain_string ([Engine cfg, StatsInterval cfg, FirewallBackend (NFQueue cfg), Capture (NFQueue cfg),
         DNSMode (NFQueue cfg), Iface (AFXDP cfg), Mode (AFXDP cfg)]
       @ cfg_Domains (Rules cfg) @ cfg_DNSPoisonDomains (Rules cfg) @ cfg_IPs (Rules cfg) @ Chains (NFQueue cfg)
       @ concat (map (\<lambda>r. [ipc_IP r, ipc_Proto r]) (cfg_IPPorts (Rules cfg))))"

lemma wf_strings_json: "list_all plain_string ss \<Longrightarrow> wf_json (strings_json ss)"
  by (auto simp: strings_json_def list_all_iff intro!: wf_json.intros)

lemma wf_uint16_json: "wf_json (uint16_json v)"
  by (simp add: uint16_json_def wf_num)

lemma plain_keys:
  "plain_string ''ip''" "plain_string ''port''" "plain_string ''proto''" "plain_string ''domains''"
  "plain_string ''dns_poison_domains''" "plain_string ''ips''" "plain_string ''ip_ports''"
  "plain_string ''queue_num''" "plain_string ''firewall_backend''" "plain_string ''install_rules''"
  "plain_string ''chains''" "plain_string ''capture''" "plain_string ''fail_open''" "plain_string ''dns_mode''"
  "plain_string ''iface''" "plain_string ''mode''" "plain_string ''engine''" "plain_string ''debug''"
  "plain_string ''stats_interval''" "plain_string ''rules''" "plain_string ''nfqueue''" "plain_string ''af_xdp''"
  by (simp_all add: plain_string_def)

lemma wf_config_json:
  assumes "plain_config cfg"
  shows "wf_json (config_json cfg)"
proof -
  note p = assms [unfolded plain_config_def]
  have "\<forall>r \<in> set (cfg_IPPorts (Rules cfg)). plain_string (ipc_IP r) \<and> plain_string (ipc_Proto r)"
    using p unfolding list_all_iff by fastforce
  then have ports: "wf_json (JArr (map ip_port_json (cfg_IPPorts (Rules cfg))))"
    by (auto simp: ip_port_json_def plain_keys wf_uint16_json intro!: wf_json.intros)
  have rules: "wf_json (rules_json (Rules cfg))"
    using p ports by (auto simp: rules_json_def plain_keys wf_strings_json intro!: wf_obj)
  have nfq: "wf_json (nfqueue_json (NFQueue cfg))"
    using p by (auto simp: nfqueue_json_def plain_keys wf_strings_json wf_uint16_json wf_bool wf_str intro!: wf_obj)
  have xdp: "wf_json (afxdp_json (AFXDP cfg))"
    using p by (auto simp: afxdp_json_def plain_keys wf_str intro!: wf_obj)
  show ?thesis
    using p rules nfq xdp by (auto simp: config_json_def plain_keys wf_bool wf_str intro!: wf_obj)
qed

lemma fold_max_le: "\<forall>y \<in> set ys. y \<le> a \<Longrightarrow> b \<le> a \<Longrightarrow> fold max ys b \<le> (a :: int)"
  by (induction ys arbitrary: b) auto

lemma depth_const: "\<forall>x. json_depth (f x) \<le> a \<Longrightarrow> 0 \<le> a \<Longrightarrow> fold max (map json_depth (map f xs)) 0 \<le> a"
  by (rule fold_max_le) auto

lemma depth_config_json: "json_depth (config_json cfg) \<le> 10000"
proof -
  have s: "json_depth (strings_json ss) \<le> 1" for ss
    using depth_const [of JStr 0 ss] by (simp add: strings_json_def)
  have "json_depth (JArr (map ip_port_json rs)) \<le> 2" for rs
    using depth_const [of ip_port_json 1 rs] by (simp add: ip_port_json_def uint16_json_def)
  note p = this [of "cfg_IPPorts (Rules cfg)"]
  have r: "json_depth (rules_json (Rules cfg)) \<le> 3"
    using s [of "cfg_Domains (Rules cfg)"] s [of "cfg_DNSPoisonDomains (Rules cfg)"] s [of "cfg_IPs (Rules cfg)"] p
    by (simp add: rules_json_def)
  have q: "json_depth (nfqueue_json (NFQueue cfg)) \<le> 3"
    using s [of "Chains (NFQueue cfg)"] by (simp add: nfqueue_json_def uint16_json_def)
  have "json_depth (afxdp_json (AFXDP cfg)) \<le> 3" by (simp add: afxdp_json_def)
  with r q show ?thesis by (simp add: config_json_def)
qed

section \<open>Reading a configuration back\<close>

lemma digits_val_decimal: "digits_val 0 (decimal n @ t) = digits_val (int n) t"
proof (induction n arbitrary: t rule: decimal.induct)
  case (1 n)
  show ?case
  proof (cases "n < 10")
    case True
    then show ?thesis by (subst decimal.simps) (simp add: digit_value_digit_char)
  next
    case False
    have "digits_val 0 (decimal n @ t) = digits_val (int (n div 10)) (digit_char (n mod 10) # t)"
      using "1.IH" [OF False, of "digit_char (n mod 10) # t"] False by (subst decimal.simps) simp
    moreover have "int (n div 10) * 10 + int (n mod 10) = int n" by presburger
    ultimately show ?thesis by (simp add: digit_value_digit_char)
  qed
qed

lemma decode_uint16_json [simp]: "decode_uint16 old (uint16_json v) = Some v"
proof -
  have "digits_val 0 (decimal (unat v)) = int (unat v)" using digits_val_decimal [of "unat v" "[]"] by simp
  moreover have "uint v < 2 ^ LENGTH(16)" by (rule unsigned_less)
  ultimately show ?thesis
    by (simp add: decode_uint16_def uint16_json_def parse_uint16_def decimal_digits)
qed

lemma decode_elems_map:
  assumes "\<And>old x. x \<in> set xs \<Longrightarrow> dec old (f x) = Some x"
  shows "decode_elems dec zero olds (map f xs) = Some (xs, drop (length xs) olds)"
  using assms by (induction xs arbitrary: olds) (simp_all add: drop_Suc)

lemma decode_strings_json: "\<exists>x. decode_strings old (strings_json ss) = Some (ss, x)"
proof (cases "ss = []")
  case False
  then show ?thesis
    using decode_elems_map [of ss decode_string JStr "[]" "fst old @ snd old"]
    by (simp add: decode_strings_def decode_slice_def strings_json_def decode_string_def)
qed (simp add: decode_strings_def decode_slice_def strings_json_def)

lemma decode_ip_port_json: "decode_ip_port old (ip_port_json r) = Some r"
  by (simp add: decode_ip_port_def decode_struct_def ip_port_json_def find_field_def decode_string_def)

lemma decode_ip_ports_json: "\<exists>x. decode_slice decode_ip_port zero old (JArr (map ip_port_json rs)) = Some (rs, x)"
proof (cases "rs = []")
  case False
  then show ?thesis
    using decode_elems_map [of rs decode_ip_port ip_port_json zero "fst old @ snd old"]
    by (simp add: decode_slice_def decode_ip_port_json)
qed (simp add: decode_slice_def)

lemma decode_rules_json: "\<exists>d'. decode_rules d (rules_json r) = Some d' \<and> dc_cfg d' = (dc_cfg d)\<lparr>Rules := r\<rparr>"
proof -
  obtain x1 where 1: "decode_strings (cfg_Domains (Rules (dc_cfg d)), dc_domains d) (strings_json (cfg_Domains r)) = Some (cfg_Domains r, x1)"
    using decode_strings_json by blast
  obtain x2 where 2: "decode_strings (cfg_DNSPoisonDomains (Rules (dc_cfg d)), dc_dns d) (strings_json (cfg_DNSPoisonDomains r))
      = Some (cfg_DNSPoisonDomains r, x2)" using decode_strings_json by blast
  obtain x3 where 3: "decode_strings (cfg_IPs (Rules (dc_cfg d)), dc_ips d) (strings_json (cfg_IPs r)) = Some (cfg_IPs r, x3)"
    using decode_strings_json by blast
  obtain x4 where 4: "decode_slice decode_ip_port zero_ip_port (cfg_IPPorts (Rules (dc_cfg d)), dc_ports d)
      (JArr (map ip_port_json (cfg_IPPorts r))) = Some (cfg_IPPorts r, x4)"
    using decode_ip_ports_json by blast
  show ?thesis
    using 1 2 3 4
    by (simp add: decode_rules_def decode_struct_def rules_json_def find_field_def set_rules_def)
qed

lemma decode_nfqueue_json: "\<exists>d'. decode_nfqueue d (nfqueue_json q) = Some d' \<and> dc_cfg d' = (dc_cfg d)\<lparr>NFQueue := q\<rparr>"
proof -
  obtain x where "decode_strings (Chains (NFQueue (dc_cfg d)), dc_chains d) (strings_json (Chains q)) = Some (Chains q, x)"
    using decode_strings_json by blast
  then show ?thesis
    by (simp add: decode_nfqueue_def decode_struct_def nfqueue_json_def find_field_def set_nfq_def decode_string_def
        decode_bool_def)
qed

lemma decode_afxdp_json: "\<exists>d'. decode_afxdp d (afxdp_json x) = Some d' \<and> dc_cfg d' = (dc_cfg d)\<lparr>AFXDP := x\<rparr>"
  by (simp add: decode_afxdp_def decode_struct_def afxdp_json_def find_field_def set_xdp_def decode_string_def)

lemma decode_config_json:
  "\<exists>d'. decode_app d (config_json cfg) = Some d' \<and> dc_cfg d' = cfg\<lparr>statsEvery := statsEvery (dc_cfg d)\<rparr>"
proof -
  let ?d0 = "d\<lparr>dc_cfg := (dc_cfg d)\<lparr>Engine := Engine cfg, Debug := Debug cfg, StatsInterval := StatsInterval cfg\<rparr>\<rparr>"
  obtain d1 where 1: "decode_rules ?d0 (rules_json (Rules cfg)) = Some d1"
    "dc_cfg d1 = (dc_cfg ?d0)\<lparr>Rules := Rules cfg\<rparr>" using decode_rules_json by blast
  obtain d2 where 2: "decode_nfqueue d1 (nfqueue_json (NFQueue cfg)) = Some d2"
    "dc_cfg d2 = (dc_cfg d1)\<lparr>NFQueue := NFQueue cfg\<rparr>" using decode_nfqueue_json by blast
  obtain d3 where 3: "decode_afxdp d2 (afxdp_json (AFXDP cfg)) = Some d3"
    "dc_cfg d3 = (dc_cfg d2)\<lparr>AFXDP := AFXDP cfg\<rparr>" using decode_afxdp_json by blast
  have "decode_app d (config_json cfg) = Some d3"
    using 1(1) 2(1) 3(1)
    by (simp add: decode_app_def decode_struct_def config_json_def find_field_def decode_string_def decode_bool_def)
  then show ?thesis using 1(2) 2(2) 3(2) by simp
qed

lemma Decode_written:
  assumes "plain_config cfg" and "ends_number rest"
  shows "Decode default_config (print_json (config_json cfg) @ rest) = Some (cfg\<lparr>statsEvery := 5000000000\<rparr>)"
proof -
  let ?d = "\<lparr>dc_cfg = default_config, dc_domains = [], dc_dns = [], dc_ips = [], dc_ports = [], dc_chains = []\<rparr>"
  obtain d' where "decode_app ?d (config_json cfg) = Some d'" "dc_cfg d' = cfg\<lparr>statsEvery := 5000000000\<rparr>"
    using decode_config_json [of ?d cfg] by (auto simp: default_config_def)
  moreover have "parse_json (print_json (config_json cfg) @ rest) = Some (config_json cfg, rest)"
    by (rule parse_print_json [OF wf_config_json [OF assms(1)] depth_config_json assms(2)])
  ultimately show ?thesis by (simp add: Decode_def)
qed

text \<open>
  C29: A configuration written as JSON is read back: for a configuration with printable ASCII strings,
  loading a file that holds its JSON text, whatever follows it, is validating that configuration, with
  the default statistics interval where none is given. No field is lost, confused with another or left
  at its default.
\<close>

theorem loadConfig_reads_back:
  assumes "plain_config cfg" and "ends_number rest" and "TrimSpace path \<noteq> []"
    and "os_Open (TrimSpace path) = Some (print_json (config_json cfg) @ rest)"
  shows "loadConfig os_Open path = finish_config (cfg\<lparr>statsEvery := 5000000000\<rparr>)"
  using assms(3,4) Decode_written [OF assms(1,2)] by (simp add: loadConfig_def Let_def)

text \<open>
  A field the structs do not have is refused: if the file holds an object one of whose keys names
  no field of the configuration, up to case, loading fails with a decoding error.
\<close>

lemma loadConfig_refuses_unknown_field:
  assumes "TrimSpace path \<noteq> []" and "os_Open (TrimSpace path) = Some input"
    and "parse_json input = Some (JObj ms, rest)" and "(key, v) \<in> set ms"
    and "\<forall>name \<in> {''engine'', ''debug'', ''stats_interval'', ''rules'', ''nfqueue'', ''af_xdp''}. fold_name name \<noteq> fold_name key"
  shows "loadConfig os_Open path = Inl (DecodeError (TrimSpace path))"
proof -
  let ?names = "[''engine'', ''debug'', ''stats_interval'', ''rules'', ''nfqueue'', ''af_xdp'']"
  have "find_field ?names key = None"
    using assms(5) by (auto simp: find_field_def find_None_iff)
  then have "decode_members ?names field ms d = None" for field and d :: decoding
    using assms(4) by (induction ms arbitrary: d) (auto split: option.splits)
  then have "Decode default_config input = None"
    using assms(3) by (simp add: Decode_def decode_app_def decode_struct_def)
  then show ?thesis using assms(1,2) by (simp add: loadConfig_def Let_def)
qed

section \<open>The example configuration\<close>

definition example_cfg :: AppConfig where
  "example_cfg = default_config\<lparr>StatsInterval := ''90s'', Rules := example_rules,
     NFQueue := (NFQueue default_config)\<lparr>Capture := '' ALL'', Chains := [''Input'']\<rparr>\<rparr>"

definition example_file :: "bytes \<Rightarrow> bytes option" where
  "example_file path = (if path = ''my.json'' then Some (print_json (config_json example_cfg) @ [CHR 0x0A]) else None)"

lemma plain_example_cfg: "plain_config example_cfg" by code_simp

lemma TrimSpace_path: "TrimSpace '' my.json'' = ''my.json''" by code_simp

lemma finish_example_cfg:
  "\<exists>cfg. finish_config (example_cfg\<lparr>statsEvery := 5000000000\<rparr>) = Inr cfg \<and> statsEvery cfg = 90000000000
     \<and> Engine cfg = ''nfqueue'' \<and> Rules cfg = example_rules \<and> FirewallBackend (NFQueue cfg) = ''auto''"
proof -
  let ?cfg = "example_cfg\<lparr>statsEvery := 5000000000\<rparr>"
  have e: "normalizeChoice (Engine ?cfg) ''nfqueue'' = ''nfqueue''" by code_simp
  have p: "ParseDuration ''90s'' = Some 90000000000" and t: "TrimSpace ''90s'' = ''90s''" by code_simp+
  have "StatsInterval ?cfg = ''90s''" by (simp add: example_cfg_def)
  then have "stats_interval (?cfg\<lparr>Engine := ''nfqueue''\<rparr>) = Inr 90000000000" by (simp add: stats_interval_def p t)
  moreover have "validateNFQueueConfig (finish_nfqueue (NFQueue ?cfg)) = None" by code_simp
  moreover have "compileRuleSet (Rules ?cfg) = Inr example_ruleset" by (simp add: example_cfg_def compile_example)
  moreover have "FirewallBackend (finish_nfqueue (NFQueue ?cfg)) = ''auto''" by code_simp
  ultimately show ?thesis using e by (simp add: finish_config_def Let_def) (simp add: example_cfg_def)
qed

theorem loadConfig_reads_back_witness:
  "loadConfig example_file '' my.json'' = finish_config (example_cfg\<lparr>statsEvery := 5000000000\<rparr>)"
proof (rule loadConfig_reads_back [OF plain_example_cfg])
  show "ends_number [CHR 0x0A]" by code_simp
qed (simp_all add: TrimSpace_path example_file_def)

lemma load_example:
  "\<exists>cfg. loadConfig example_file '' my.json'' = Inr cfg \<and> statsEvery cfg = 90000000000
     \<and> Engine cfg = ''nfqueue'' \<and> Rules cfg = example_rules \<and> FirewallBackend (NFQueue cfg) = ''auto''"
proof -
  have "ends_number [CHR 0x0A]" by code_simp
  from Decode_written [OF plain_example_cfg this] show ?thesis
    using finish_example_cfg by (simp add: loadConfig_def TrimSpace_path example_file_def)
qed

theorem loadConfig_valid_witness:
  "\<exists>cfg. loadConfig example_file '' my.json'' = Inr cfg \<and> 0 < statsEvery cfg
     \<and> validateNFQueueConfig (NFQueue cfg) = None"
proof -
  obtain cfg where "loadConfig example_file '' my.json'' = Inr cfg" using load_example by blast
  with loadConfig_valid [OF this] show ?thesis by blast
qed

end
