(* ===== verification/Payload_Parsers.thy ===== *)
theory Payload_Parsers
  imports Go_Strings
begin

text \<open>
  The two payload parsers of \<open>packet_classifier.go\<close>: \<open>httpHost\<close>, which finds the Host header of
  an HTTP request, and \<open>tlsSNI\<close>, which walks a TLS ClientHello to its server name extension. Both
  return an option, \<^const>\<open>None\<close> being a run-time panic of an index or slice expression. The TLS
  parser is shown never to panic and to read back every well-formed ClientHello; the HTTP parser is
  shown correct on ASCII requests. On other payloads it searches a lower-cased copy whose bytes
  may stand at other positions than in the payload, and can miss the header or panic.
\<close>

section \<open>httpHost\<close>

definition crlf_host :: bytes where
  "crlf_host = CHR 0x0D # CHR 0x0A # ''host:''"

definition is_blank :: "char \<Rightarrow> bool" where
  "is_blank c \<longleftrightarrow> c = CHR '' '' \<or> c = CHR 0x09"

definition ends_host :: "char \<Rightarrow> bool" where
  "ends_host c \<longleftrightarrow> c = CHR 0x0D \<or> c = CHR 0x0A \<or> c = CHR '' '' \<or> c = CHR 0x09 \<or> c = CHR '':''"

function skip_blanks :: "bytes \<Rightarrow> nat \<Rightarrow> nat" where
  "skip_blanks p start =
     (if start < length p \<and> is_blank (p ! start) then skip_blanks p (Suc start) else start)"
  by pat_completeness auto
termination
  by (relation "measure (\<lambda>(p, i). length p - i)") auto

function host_end :: "bytes \<Rightarrow> nat \<Rightarrow> nat" where
  "host_end p e =
     (if e < length p then (if ends_host (p ! e) then e else host_end p (Suc e)) else e)"
  by pat_completeness auto
termination
  by (relation "measure (\<lambda>(p, i). length p - i)") auto

declare skip_blanks.simps [simp del] host_end.simps [simp del]

text \<open>Where the header name starts in the lower-cased copy.\<close>

definition host_index :: "bytes \<Rightarrow> nat option" where
  "host_index lower =
     (if HasPrefix lower ''host:'' then Some 0
      else case Index lower crlf_host of
        Some pos \<Rightarrow> Some (pos + 2)
      | None \<Rightarrow> None)"

definition httpHost :: "slice \<Rightarrow> bytes option" where
  "httpHost payload =
     (let lower = ToLower (vis payload) in
      case host_index lower of
        None \<Rightarrow> Some []
      | Some idx \<Rightarrow>
          let start = skip_blanks (vis payload) (idx + 5);
              e = host_end (vis payload) start
          in map_option vis (subslice payload start e))"

section \<open>tlsSNI\<close>

text \<open>\<open>binary.BigEndian.Uint16(s[pos : pos+2])\<close>\<close>

definition be16_at :: "slice \<Rightarrow> nat \<Rightarrow> nat option" where
  "be16_at s pos = do { t \<leftarrow> subslice s pos (pos + 2); be_uint16 t }"

text \<open>The extension loop, from \<open>pos\<close> to the end of the extension block.\<close>

function sni_loop :: "slice \<Rightarrow> nat \<Rightarrow> nat \<Rightarrow> bytes option" where
  "sni_loop body pos e =
     (if pos + 4 \<le> e then do {
        extType \<leftarrow> be16_at body pos;
        extLen \<leftarrow> be16_at body (pos + 2);
        if pos + 4 + extLen > e then Some []
        else if extType \<noteq> 0 then sni_loop body (pos + 4 + extLen) e
        else if extLen < 5 then Some []
        else do {
          nameType \<leftarrow> index body (pos + 4 + 2);
          nameLen \<leftarrow> be16_at body (pos + 4 + 3);
          if byte nameType \<noteq> 0 \<or> nameLen = 0 \<or> pos + 4 + 5 + nameLen > pos + 4 + extLen then Some []
          else do {
            name \<leftarrow> subslice body (pos + 4 + 5) (pos + 4 + 5 + nameLen);
            Some (vis name) } } }
      else Some [])"
  by pat_completeness auto
termination
  by (relation "measure (\<lambda>(body, pos, e). Suc e - pos)") auto

declare sni_loop.simps [simp del]

text \<open>From the session identifier at \<open>pos\<close> to the extension block.\<close>

definition sni_hello :: "slice \<Rightarrow> nat \<Rightarrow> bytes option" where
  "sni_hello body pos =
     (if pos \<ge> slice_len body then Some []
      else do {
        sessionLen \<leftarrow> index body pos;
        let pos = pos + 1 + byte sessionLen;
        if pos + 2 > slice_len body then Some []
        else do {
          cipherLen \<leftarrow> be16_at body pos;
          let pos = pos + 2 + cipherLen;
          if pos \<ge> slice_len body then Some []
          else do {
            compressionLen \<leftarrow> index body pos;
            let pos = pos + 1 + byte compressionLen;
            if pos + 2 > slice_len body then Some []
            else do {
              extensionsLen \<leftarrow> be16_at body pos;
              let pos = pos + 2;
              if pos + extensionsLen > slice_len body then Some []
              else sni_loop body pos (pos + extensionsLen) } } } })"

definition tlsSNI :: "slice \<Rightarrow> bytes option" where
  "tlsSNI payload =
     (if slice_len payload < 5 then Some []
      else do {
        contentType \<leftarrow> index payload 0;
        major \<leftarrow> index payload 1;
        if byte contentType \<noteq> 0x16 \<or> byte major \<noteq> 0x03 then Some []
        else do {
          recordLen \<leftarrow> be16_at payload 3;
          if recordLen = 0 \<or> 5 + recordLen > slice_len payload then Some []
          else do {
            body \<leftarrow> subslice payload 5 (5 + recordLen);
            if slice_len body < 42 then Some []
            else do {
              msgType \<leftarrow> index body 0;
              if byte msgType \<noteq> 0x01 then Some [] else sni_hello body (4 + 2 + 32) } } } })"

section \<open>The TLS parser never panics\<close>

lemma be16_at_Some:
  "pos + 2 \<le> slice_len s \<Longrightarrow> be16_at s pos = Some (256 * byte (vis s ! pos) + byte (vis s ! (pos + 1)))"
  by (simp add: be16_at_def slice_len_def)

lemma be16_at_not_None [simp, panic_free]: "pos + 2 \<le> slice_len s \<Longrightarrow> be16_at s pos \<noteq> None"
  by (simp add: be16_at_Some)

lemma sni_loop_no_panic: "e \<le> slice_len body \<Longrightarrow> sni_loop body pos e \<noteq> None"
proof (induction body pos e rule: sni_loop.induct)
  case (1 body pos e)
  show ?case
  proof (cases "pos + 4 \<le> e")
    case True
    with "1.prems" have "be16_at body pos \<noteq> None" "be16_at body (pos + 2) \<noteq> None" by simp_all
    then obtain t l where tl: "be16_at body pos = Some t" "be16_at body (pos + 2) = Some l" by blast
    with True "1.prems" "1.IH" [of t l] show ?thesis
      by (subst sni_loop.simps) (simp del: not_None_eq add: bind_not_None)
  next
    case False
    then show ?thesis by (subst sni_loop.simps) simp
  qed
qed

lemma sni_hello_no_panic: "sni_hello body pos \<noteq> None"
  unfolding sni_hello_def Let_def
  by (simp del: not_None_eq add: bind_not_None sni_loop_no_panic)

lemma tlsSNI_returns: "\<exists>name. tlsSNI payload = Some name"
proof -
  have "tlsSNI payload \<noteq> None"
    unfolding tlsSNI_def Let_def
    by (simp del: not_None_eq add: bind_not_None sni_hello_no_panic)
  then show ?thesis by blast
qed

text \<open>
  C23: The TLS parser never panics, whatever bytes a packet carries: every index and slice
  expression it evaluates is within the bounds its earlier checks established.
\<close>

theorem tlsSNI_no_panic: "\<exists>name. tlsSNI payload = Some name"
  by (rule tlsSNI_returns)

section \<open>The TLS parser reads back a ClientHello\<close>

definition be16 :: "nat \<Rightarrow> bytes" where
  "be16 n = [char_of (n div 256), char_of (n mod 256)]"

definition tls_ext :: "nat \<Rightarrow> bytes \<Rightarrow> bytes" where
  "tls_ext t d = be16 t @ be16 (length d) @ d"

text \<open>A server name list: one host name, then whatever other names follow.\<close>

definition sni_data :: "bytes \<Rightarrow> bytes \<Rightarrow> bytes" where
  "sni_data name others =
     be16 (length name + 3 + length others) @ CHR 0x00 # be16 (length name) @ name @ others"

record client_hello =
  hs_length :: bytes
  version :: bytes
  random :: bytes
  session_id :: bytes
  ciphers :: bytes
  compressions :: bytes
  exts_before :: "(nat \<times> bytes) list"
  server_name :: bytes
  other_names :: bytes
  exts_after :: bytes

definition hello_exts :: "client_hello \<Rightarrow> bytes" where
  "hello_exts ch =
     concat (map (\<lambda>(t, d). tls_ext t d) (exts_before ch))
     @ tls_ext 0 (sni_data (server_name ch) (other_names ch)) @ exts_after ch"

definition hello_body :: "client_hello \<Rightarrow> bytes" where
  "hello_body ch =
     (CHR 0x01 # hs_length ch @ version ch @ random ch)
     @ char_of (length (session_id ch)) # session_id ch
     @ be16 (length (ciphers ch)) @ ciphers ch
     @ char_of (length (compressions ch)) # compressions ch
     @ be16 (length (hello_exts ch)) @ hello_exts ch"

definition hello_record :: "char \<Rightarrow> client_hello \<Rightarrow> bytes" where
  "hello_record minor ch =
     CHR 0x16 # CHR 0x03 # minor # be16 (length (hello_body ch)) @ hello_body ch"

definition wf_hello :: "client_hello \<Rightarrow> bool" where
  "wf_hello ch \<longleftrightarrow>
     length (hs_length ch) = 3 \<and> length (version ch) = 2 \<and> length (random ch) = 32
     \<and> length (session_id ch) < 256 \<and> length (compressions ch) < 256
     \<and> length (hello_body ch) < 65536 \<and> server_name ch \<noteq> []
     \<and> (\<forall>(t, d) \<in> set (exts_before ch). 0 < t \<and> t < 65536)"

lemma length_be16 [simp]: "length (be16 n) = 2"
  by (simp add: be16_def)

lemma be16_at_be16:
  assumes "vis s = a @ be16 n @ r" "n < 65536" "pos = length a"
  shows "be16_at s pos = Some n"
proof -
  have "length a + 2 \<le> slice_len s" using assms(1) by (simp add: slice_len_def)
  moreover have "vis s ! length a = char_of (n div 256)" "vis s ! (length a + 1) = char_of (n mod 256)"
    using assms(1) by (simp_all add: be16_def nth_append)
  moreover have "n div 256 < 256" using assms(2) by simp
  ultimately show ?thesis using assms(3) by (simp add: be16_at_Some)
qed

lemma index_at: "vis s = a @ c # r \<Longrightarrow> pos = length a \<Longrightarrow> index s pos = Some c"
  by (simp add: slice_len_def)

lemma subslice_at:
  assumes "vis s = a @ m @ r" "i = length a" "j = i + length m"
  shows "subslice s i j = Some (Slice m (r @ spare s))"
  using assms by (simp add: slice_len_def)

lemma sni_loop_skip:
  assumes "vis s = a @ tls_ext t d @ r" "0 < t" "t < 65536" "length d < 65536"
    and "length a + 4 + length d \<le> e"
  shows "sni_loop s (length a) e = sni_loop s (length (a @ tls_ext t d)) e"
proof -
  have "be16_at s (length a) = Some t"
    using assms by (intro be16_at_be16 [where a = a and r = "be16 (length d) @ d @ r"]) (auto simp: tls_ext_def)
  moreover have "be16_at s (length a + 2) = Some (length d)"
    using assms by (intro be16_at_be16 [where a = "a @ be16 t" and r = "d @ r"]) (auto simp: tls_ext_def)
  moreover have "length (a @ tls_ext t d) = length a + 4 + length d" by (simp add: tls_ext_def)
  ultimately show ?thesis
    using assms(2,5) by (subst sni_loop.simps) (simp del: add_2_eq_Suc' length_append)
qed

lemma sni_loop_skip_all:
  assumes "vis s = a @ concat (map (\<lambda>(t, d). tls_ext t d) xs) @ r"
    and "\<forall>(t, d) \<in> set xs. 0 < t \<and> t < 65536" "length (vis s) < 65536"
    and "length a + length (concat (map (\<lambda>(t, d). tls_ext t d) xs)) \<le> e"
  shows "sni_loop s (length a) e
         = sni_loop s (length (a @ concat (map (\<lambda>(t, d). tls_ext t d) xs))) e"
  using assms
proof (induction xs arbitrary: a)
  case (Cons x xs)
  obtain t d where x: "x = (t, d)" by fastforce
  have "sni_loop s (length a) e = sni_loop s (length (a @ tls_ext t d)) e"
    using Cons.prems x by (intro sni_loop_skip) (auto simp: tls_ext_def)
  also have "\<dots> = sni_loop s (length ((a @ tls_ext t d) @ concat (map (\<lambda>(t, d). tls_ext t d) xs))) e"
    using Cons.prems x by (intro Cons.IH) auto
  finally show ?case using x by simp
qed simp

lemma sni_loop_found:
  assumes "vis s = a @ tls_ext 0 (sni_data name others) @ r" "name \<noteq> []" "length (vis s) < 65536"
    and "length a + length (tls_ext 0 (sni_data name others)) \<le> e"
  shows "sni_loop s (length a) e = Some name"
proof -
  let ?d = "sni_data name others"
  let ?l = "be16 (length name + 3 + length others)"
  let ?hd = "a @ be16 0 @ be16 (length ?d)"
  have len: "length ?d = length name + length others + 5" by (simp add: sni_data_def)
  have s: "vis s = ?hd @ ?l @ CHR 0x00 # be16 (length name) @ name @ others @ r"
    using assms(1) by (simp add: tls_ext_def sni_data_def)
  have "be16_at s (length a) = Some 0"
    using s by (intro be16_at_be16 [where a = a]) auto
  moreover have "be16_at s (length a + 2) = Some (length ?d)"
    using s assms(3) by (intro be16_at_be16 [where a = "a @ be16 0"]) (auto simp: len)
  moreover have "index s (length a + 4 + 2) = Some (CHR 0x00)"
    using s by (intro index_at [where a = "?hd @ ?l"]) auto
  moreover have "be16_at s (length a + 4 + 3) = Some (length name)"
    using s assms(3) by (intro be16_at_be16 [where a = "?hd @ ?l @ [CHR 0x00]"]) auto
  moreover have "subslice s (length a + 4 + 5) (length a + 4 + 5 + length name)
                 = Some (Slice name ((others @ r) @ spare s))"
    using s by (intro subslice_at [where a = "?hd @ ?l @ [CHR 0x00] @ be16 (length name)"]) auto
  moreover have "length a + 4 + length ?d \<le> e" using assms(4) by (simp add: tls_ext_def)
  ultimately show ?thesis
    using assms(2) len by (subst sni_loop.simps) (simp del: add_2_eq_Suc')
qed

lemma sni_hello_reads:
  assumes "vis s = p @ char_of (length sid) # sid @ be16 (length cs) @ cs
             @ char_of (length cm) # cm @ be16 (length ex) @ ex"
    and "length sid < 256" "length cm < 256" "length (vis s) < 65536"
  shows "sni_hello s (length p) = sni_loop s (length (vis s) - length ex) (length (vis s))"
proof -
  let ?a = "p @ char_of (length sid) # sid"
  let ?b = "?a @ be16 (length cs) @ cs"
  let ?c = "?b @ char_of (length cm) # cm"
  let ?pa = "length p + 1 + length sid"
  let ?pb = "?pa + 2 + length cs"
  let ?pc = "?pb + 1 + length cm"
  have "index s (length p) = Some (char_of (length sid))" using assms(1) by (intro index_at) auto
  moreover have "be16_at s ?pa = Some (length cs)"
    using assms(1,4) by (intro be16_at_be16 [where a = ?a]) auto
  moreover have "index s ?pb = Some (char_of (length cm))"
    using assms(1) by (intro index_at [where a = ?b]) auto
  moreover have "be16_at s ?pc = Some (length ex)"
    using assms(1,4) by (intro be16_at_be16 [where a = ?c]) auto
  moreover have "slice_len s = ?pc + 2 + length ex" "length (vis s) = ?pc + 2 + length ex"
    using assms(1) by (simp_all add: slice_len_def)
  ultimately show ?thesis
    using assms(2,3) by (simp add: sni_hello_def Let_def del: add_2_eq_Suc')
qed

lemma sni_loop_hello_exts:
  assumes "wf_hello ch"
  shows "sni_loop (Slice (hello_body ch) rest) (length (hello_body ch) - length (hello_exts ch))
           (length (hello_body ch)) = Some (server_name ch)"
proof -
  let ?s = "Slice (hello_body ch) rest"
  let ?n = "length (hello_body ch)"
  define pre where "pre = (CHR 0x01 # hs_length ch @ version ch @ random ch)
     @ char_of (length (session_id ch)) # session_id ch
     @ be16 (length (ciphers ch)) @ ciphers ch
     @ char_of (length (compressions ch)) # compressions ch @ be16 (length (hello_exts ch))"
  define befores where "befores = concat (map (\<lambda>(t, d). tls_ext t d) (exts_before ch))"
  define sni where "sni = tls_ext 0 (sni_data (server_name ch) (other_names ch))"
  have body: "hello_body ch = pre @ hello_exts ch"
    by (simp add: pre_def hello_body_def)
  have exts: "hello_exts ch = befores @ sni @ exts_after ch"
    by (simp add: hello_exts_def befores_def sni_def)
  have wf: "?n < 65536" "server_name ch \<noteq> []" "\<forall>(t, d) \<in> set (exts_before ch). 0 < t \<and> t < 65536"
    using assms by (auto simp: wf_hello_def)
  have "sni_loop ?s (length pre) ?n = sni_loop ?s (length (pre @ befores)) ?n"
    unfolding befores_def by (rule sni_loop_skip_all) (use wf body exts befores_def in auto)
  also have "\<dots> = Some (server_name ch)"
    by (rule sni_loop_found [where others = "other_names ch" and r = "exts_after ch"])
       (use wf body exts sni_def in auto)
  finally show ?thesis using body by simp
qed

text \<open>
  C22: The TLS parser reads back the server name of every well-formed ClientHello record, whatever
  its session identifier, cipher suites, compression methods, the extensions before and after the
  server name, and the bytes that follow the record in the packet.
\<close>

theorem tlsSNI_reads_client_hello:
  assumes "wf_hello ch"
  shows "tlsSNI (Slice (hello_record minor ch @ trailing) rest) = Some (server_name ch)"
proof -
  let ?p = "CHR 0x01 # hs_length ch @ version ch @ random ch"
  let ?s = "Slice (hello_record minor ch @ trailing) rest"
  let ?body = "Slice (hello_body ch) (trailing @ rest)"
  let ?n = "length (hello_body ch)"
  have wf: "?n < 65536" "length ?p = 38" using assms by (auto simp: wf_hello_def)
  have big: "42 \<le> ?n" using assms by (simp add: wf_hello_def hello_body_def hello_exts_def tls_ext_def)
  have "be16_at ?s 3 = Some ?n"
    using wf by (intro be16_at_be16 [where a = "[CHR 0x16, CHR 0x03, minor]"]) (auto simp: hello_record_def)
  moreover have "subslice ?s 5 (5 + ?n) = Some ?body"
    using subslice_at [of ?s "[CHR 0x16, CHR 0x03, minor] @ be16 ?n" "hello_body ch" trailing 5]
    by (simp add: hello_record_def)
  moreover have "index ?body 0 = Some (CHR 0x01)"
    by (rule index_at [where a = "[]"]) (simp_all add: hello_body_def)
  moreover have "index ?s 0 = Some (CHR 0x16)" "index ?s 1 = Some (CHR 0x03)" "slice_len ?s = 5 + ?n + length trailing"
    by (simp_all add: hello_record_def index_def)
  ultimately have "tlsSNI ?s = sni_hello ?body 38"
    using big by (auto simp: tlsSNI_def simp del: index_Some subslice_within)
  also have "\<dots> = sni_hello ?body (length ?p)" by (simp only: wf)
  also have "\<dots> = sni_loop ?body (?n - length (hello_exts ch)) ?n"
    using assms sni_hello_reads [of ?body ?p "session_id ch" "ciphers ch" "compressions ch" "hello_exts ch"]
    by (simp add: wf_hello_def hello_body_def)
  also have "\<dots> = Some (server_name ch)"
    by (rule sni_loop_hello_exts [OF assms])
  finally show ?thesis .
qed

definition example_hello :: client_hello where
  "example_hello =
     \<lparr>hs_length = [CHR 0x00, CHR 0x00, CHR 0x51], version = [CHR 0x03, CHR 0x03],
      random = replicate 32 (CHR 0x2A), session_id = ''sid'', ciphers = [CHR 0x13, CHR 0x01],
      compressions = [CHR 0x00], exts_before = [(10, [CHR 0x00, CHR 0x02]), (16, [])],
      server_name = ''example.com'', other_names = [], exts_after = [CHR 0x00]\<rparr>"

theorem tlsSNI_reads_client_hello_witness:
  "wf_hello example_hello \<and> tlsSNI (Slice (hello_record (CHR 0x01) example_hello @ ''tail'') ''x'') = Some ''example.com''"
proof -
  have "wf_hello example_hello"
    by (simp add: wf_hello_def example_hello_def hello_body_def hello_exts_def tls_ext_def sni_data_def)
  then show ?thesis
    using tlsSNI_reads_client_hello [of example_hello "CHR 0x01" "''tail''" "''x''"]
    by (simp add: example_hello_def)
qed

section \<open>The HTTP parser on ASCII payloads\<close>

lemma skip_blanks_eq:
  "start \<le> length p \<Longrightarrow> skip_blanks p start = start + length (takeWhile is_blank (drop start p))"
proof (induction p start rule: skip_blanks.induct)
  case (1 p start)
  show ?case
  proof (cases "start < length p")
    case True
    then have "drop start p = p ! start # drop (Suc start) p" by (rule Cons_nth_drop_Suc [symmetric])
    with 1 True show ?thesis by (subst skip_blanks.simps) simp
  qed (use 1 in \<open>simp add: skip_blanks.simps [of p "length p"]\<close>)
qed

lemma host_end_eq:
  "e \<le> length p \<Longrightarrow> host_end p e = e + length (takeWhile (\<lambda>c. \<not> ends_host c) (drop e p))"
proof (induction p e rule: host_end.induct)
  case (1 p e)
  show ?case
  proof (cases "e < length p")
    case True
    then have "drop e p = p ! e # drop (Suc e) p" by (rule Cons_nth_drop_Suc [symmetric])
    with 1 True show ?thesis by (subst host_end.simps) simp
  qed (use 1 in \<open>simp add: host_end.simps [of p "length p"]\<close>)
qed

text \<open>The reference: the value of the header at a position of the payload itself.\<close>

definition header_value :: "bytes \<Rightarrow> nat \<Rightarrow> bytes" where
  "header_value s i = takeWhile (\<lambda>c. \<not> ends_host c) (dropWhile is_blank (drop i s))"

lemma host_subslice:
  assumes "i \<le> slice_len p"
  shows "map_option vis (subslice p (skip_blanks (vis p) i) (host_end (vis p) (skip_blanks (vis p) i)))
         = Some (header_value (vis p) i)"
proof -
  let ?s = "skip_blanks (vis p) i"
  have i: "i \<le> length (vis p)" using assms by (simp add: slice_len_def)
  have s: "?s = i + length (takeWhile is_blank (drop i (vis p)))" using i by (rule skip_blanks_eq)
  have sl: "?s \<le> length (vis p)"
    using i length_takeWhile_le [of is_blank "drop i (vis p)"] by (simp add: s)
  have d: "drop ?s (vis p) = dropWhile is_blank (drop i (vis p))"
    by (simp add: s dropWhile_eq_drop add.commute)
  let ?w = "length (takeWhile (\<lambda>c. \<not> ends_host c) (drop ?s (vis p)))"
  have "?w \<le> length (vis p) - ?s"
    using length_takeWhile_le [of "\<lambda>c. \<not> ends_host c" "drop ?s (vis p)"] by simp
  moreover have "host_end (vis p) ?s = ?s + ?w" using sl by (rule host_end_eq)
  ultimately show ?thesis
    using sl by (simp add: slice_len_def header_value_def d flip: takeWhile_eq_take)
qed

lemma HasPrefix_length: "HasPrefix s p \<Longrightarrow> length p \<le> length s"
  by (auto simp: HasPrefix_iff)

lemma host_index_bound: "host_index s = Some i \<Longrightarrow> i + 5 \<le> length s"
  by (auto simp: host_index_def Index_Some_iff crlf_host_def split: if_splits option.splits
      dest!: HasPrefix_length)

text \<open>
  On an ASCII payload the HTTP parser does not panic, and computes the reference: the header
  name is searched without regard to case, at the start of the payload or after a line break, and
  the value runs from the first non-blank byte to the next blank, colon or line break.
\<close>

lemma httpHost_ascii_eq:
  assumes "is_ascii (vis p)"
  shows "httpHost p = Some (case host_index (map ascii_lower (vis p)) of
           None \<Rightarrow> [] | Some i \<Rightarrow> header_value (vis p) (i + 5))"
proof (cases "host_index (map ascii_lower (vis p))")
  case None
  with assms show ?thesis by (simp add: httpHost_def ToLower_ascii)
next
  case (Some i)
  then have "i + 5 \<le> slice_len p" using host_index_bound [OF Some] by (simp add: slice_len_def)
  with Some assms show ?thesis by (simp add: httpHost_def ToLower_ascii host_subslice Let_def)
qed

section \<open>Finding the Host header of a request\<close>

definition http_lines :: "bytes list \<Rightarrow> bytes" where
  "http_lines ls = concat (map (\<lambda>l. l @ [CHR 0x0D, CHR 0x0A]) ls)"

definition other_line :: "bytes \<Rightarrow> bool" where
  "other_line l \<longleftrightarrow> is_ascii l \<and> CHR 0x0D \<notin> set l \<and> \<not> HasPrefix (map ascii_lower l) ''host:''"

lemma HasPrefix_notin: "c \<notin> set h \<Longrightarrow> HasPrefix (l @ c # s) h \<longleftrightarrow> HasPrefix l h"
proof (induction h arbitrary: l)
  case (Cons x h)
  then show ?case by (cases l) auto
qed simp

lemma Index_skip: "c \<notin> set a \<Longrightarrow> Index (a @ s) (c # p) = map_option (\<lambda>i. length a + i) (Index s (c # p))"
proof (induction a)
  case (Cons x a)
  then show ?case by (cases "Index s (c # p)") auto
qed (cases "Index s (c # p)"; simp)

lemma ascii_lower_CR: "ascii_lower c = CHR 0x0D \<longleftrightarrow> c = CHR 0x0D"
proof
  assume a: "ascii_lower c = CHR 0x0D"
  show "c = CHR 0x0D"
  proof (cases "65 \<le> byte c \<and> byte c \<le> 90")
    case True
    then have "byte (ascii_lower c) = byte c + 32" by (simp add: ascii_lower_def)
    with a True show ?thesis by simp
  qed (use a in \<open>auto simp: ascii_lower_def\<close>)
qed (simp add: ascii_lower_def)

lemma Index_lines:
  assumes "\<forall>l \<in> set (l # ls). CHR 0x0D \<notin> set l \<and> (l \<in> set ls \<longrightarrow> \<not> HasPrefix l ''host:'')"
  shows "Index (http_lines (l # ls) @ ''host:'' @ x) crlf_host = Some (length (http_lines (l # ls)) - 2)"
  using assms
proof (induction ls arbitrary: l)
  case Nil
  then show ?case by (simp add: http_lines_def crlf_host_def Index_skip)
next
  case (Cons l' ls)
  let ?rest = "http_lines (l' # ls) @ ''host:'' @ x"
  have ih: "Index ?rest crlf_host = Some (length (http_lines (l' # ls)) - 2)"
    using Cons.prems by (intro Cons.IH) auto
  have "HasPrefix (l' @ CHR 0x0D # s) ''host:'' \<longleftrightarrow> HasPrefix l' ''host:''" for s
    by (rule HasPrefix_notin) simp
  then have "\<not> HasPrefix ?rest ''host:''"
    using Cons.prems by (simp add: http_lines_def)
  then have "Index (CHR 0x0D # CHR 0x0A # ?rest) crlf_host = map_option (\<lambda>i. i + 2) (Index ?rest crlf_host)"
    by (cases "Index ?rest crlf_host") (simp_all add: crlf_host_def)
  moreover have "http_lines (l # l' # ls) @ ''host:'' @ x = l @ CHR 0x0D # CHR 0x0A # ?rest"
    by (simp add: http_lines_def)
  moreover have "2 \<le> length (http_lines (l' # ls))" by (simp add: http_lines_def)
  ultimately show ?case
    using Cons.prems ih by (simp add: crlf_host_def Index_skip http_lines_def)
qed

lemma host_index_lines:
  assumes "\<forall>l \<in> set ls. CHR 0x0D \<notin> set l \<and> \<not> HasPrefix l ''host:''"
  shows "host_index (http_lines ls @ ''host:'' @ x) = Some (length (http_lines ls))"
proof (cases ls)
  case Nil
  then show ?thesis by (simp add: host_index_def http_lines_def)
next
  case (Cons l ls')
  have "HasPrefix (l @ CHR 0x0D # s) ''host:'' \<longleftrightarrow> HasPrefix l ''host:''" for s
    by (rule HasPrefix_notin) simp
  then have "\<not> HasPrefix (http_lines ls @ ''host:'' @ x) ''host:''"
    using assms Cons by (simp add: http_lines_def)
  moreover have "Index (http_lines ls @ ''host:'' @ x) crlf_host = Some (length (http_lines ls) - 2)"
    unfolding Cons using assms Cons by (intro Index_lines) auto
  moreover have "2 \<le> length (http_lines ls)" using Cons by (simp add: http_lines_def)
  ultimately show ?thesis by (simp add: host_index_def)
qed

lemma host_ascii: "is_ascii ''host:''"
  by simp

lemma map_http_lines: "map ascii_lower (http_lines ls) = http_lines (map (map ascii_lower) ls)"
  by (simp add: http_lines_def map_concat o_def ascii_lower_def)

text \<open>
  C37: The HTTP parser finds the Host header of a request wherever it stands among the headers: the
  lines before it may be any ASCII text without a carriage return that is not itself a Host header,
  its name may be in any case, and the value ends at the line end, a blank or the port.
\<close>

theorem httpHost_finds_header:
  assumes "\<forall>l \<in> set ls. other_line l"
    and "map ascii_lower name = ''host:''" and "list_all is_blank bl"
    and "h \<noteq> []" and "list_all (\<lambda>c. \<not> ends_host c) h" and "is_ascii h"
    and "rest = [] \<or> ends_host (hd rest)" and "is_ascii rest"
  shows "httpHost (Slice (http_lines ls @ name @ bl @ h @ rest) sp) = Some h"
proof -
  let ?p = "http_lines ls @ name @ bl @ h @ rest"
  have asc: "is_ascii ?p"
  proof -
    have "is_ascii (http_lines ls)"
      using assms(1) by (induction ls) (auto simp: http_lines_def other_line_def)
    moreover have "is_ascii name" using assms(2) by (metis is_ascii_map_lower host_ascii)
    moreover have "is_ascii bl" using assms(3) by (induction bl) (auto simp: is_blank_def)
    ultimately show ?thesis using assms(6,8) by simp
  qed
  have low: "map ascii_lower ?p = http_lines (map (map ascii_lower) ls) @ ''host:'' @ map ascii_lower (bl @ h @ rest)"
    using assms(2) by (simp add: map_http_lines)
  have "host_index (map ascii_lower ?p) = Some (length (http_lines (map (map ascii_lower) ls)))"
    unfolding low
    by (rule host_index_lines) (use assms(1) in \<open>auto simp: other_line_def dest!: sym [of "CHR 0x0D"] ascii_lower_CR [THEN iffD1]\<close>)
  moreover have "length (http_lines (map (map ascii_lower) ls)) = length (http_lines ls)"
    by (simp flip: map_http_lines)
  moreover have "length name = 5" using arg_cong [OF assms(2), of length] by simp
  moreover have "header_value ?p (length (http_lines ls) + length name) = h"
  proof -
    have "drop (length (http_lines ls) + length name) ?p = bl @ h @ rest" by simp
    moreover have "dropWhile is_blank (bl @ h @ rest) = h @ rest"
      using assms(3,4,5) by (cases h) (auto simp: list_all_iff is_blank_def ends_host_def)
    moreover have "takeWhile (\<lambda>c. \<not> ends_host c) (h @ rest) = h"
      using assms(5,7) by (cases rest) (auto simp: list_all_iff)
    ultimately show ?thesis by (simp only: header_value_def)
  qed
  ultimately show ?thesis using httpHost_ascii_eq [of "Slice ?p sp"] asc by simp
qed

theorem httpHost_finds_header_witness:
  "httpHost (full_slice (http_lines [''GET / HTTP/1.1'', ''Accept: */*''] @ ''Host:'' @ '' '' @ ''Example.com'' @ '':80''))
   = Some ''Example.com''"
proof (rule httpHost_finds_header)
  show "\<forall>l \<in> set [''GET / HTTP/1.1'', ''Accept: */*'']. other_line l"
    by (simp add: other_line_def ascii_lower_def)
  show "map ascii_lower ''Host:'' = ''host:''" by code_simp
qed (simp_all add: is_blank_def ends_host_def)

section \<open>The HTTP parser outside ASCII\<close>

text \<open>
  An invalid byte becomes the three bytes of \<open>U+FFFD\<close> in the lower-cased copy, so every position
  behind it is shifted by two.
\<close>

abbreviation bad_byte :: char where
  "bad_byte \<equiv> CHR 0xFF"

definition replacement :: bytes where
  "replacement = [CHR 0xEF, CHR 0xBF, CHR 0xBD]"

lemma map_runes_bad: "map_runes rune_lower (bad_byte # s) = replacement @ map_runes rune_lower s"
proof -
  have "decode_rune (bad_byte # s) = (rune_error, 1)"
    by (rule decode_rune_no_lead) (simp_all add: lead_class_def)
  moreover have "char_of (0xEF :: nat) = CHR 0xEF" "char_of (0xBF :: nat) = CHR 0xBF"
    "char_of (0xBD :: nat) = CHR 0xBD"
    by code_simp+
  then have "encode_rune rune_error = replacement"
    by (simp add: encode_rune_def replacement_def valid_rune_def)
  ultimately show ?thesis by simp
qed

lemma ToLower_bad_prefix:
  assumes "is_ascii a" "is_ascii s"
  shows "ToLower (a @ replicate k bad_byte @ s)
         = map ascii_lower a @ concat (replicate k replacement) @ map ascii_lower s"
proof -
  have b: "map_runes rune_lower (replicate k bad_byte @ s) = concat (replicate k replacement) @ map ascii_lower s"
    using assms(2) by (induction k) (simp_all add: map_runes_ascii map_runes_bad del: map_runes.simps(2))
  have "map_runes rune_lower (a @ t) = map ascii_lower a @ map_runes rune_lower t" for t
    using assms(1) by (induction a) (auto simp: rune_lower_ascii char_of_rune_lower)
  with b show ?thesis by (simp add: ToLower_eq_map_runes)
qed

lemma length_replacement [simp]: "length replacement = 3"
  by (simp add: replacement_def)

lemma length_concat_replacement [simp]: "length (concat (replicate k replacement)) = 3 * k"
  by (induction k) (simp_all add: replacement_def)

lemma httpHost_panics: "httpHost (Slice (replicate (Suc (length sp)) bad_byte @ crlf_host) sp) = None"
proof -
  let ?k = "Suc (length sp)"
  let ?bs = "replicate ?k bad_byte @ crlf_host"
  let ?pre = "concat (replicate ?k replacement)"
  have "CHR 0x0D \<notin> set ?pre" by (auto simp: replacement_def)
  then have "Index (?pre @ crlf_host) crlf_host = Some (3 * ?k)"
    using Index_skip [of "CHR 0x0D" ?pre crlf_host] by (simp add: crlf_host_def)
  moreover have "\<not> HasPrefix (?pre @ crlf_host) ''host:''" by (simp add: replacement_def)
  moreover have "ToLower ?bs = ?pre @ crlf_host"
    using ToLower_bad_prefix [of "[]" crlf_host ?k] by (simp add: crlf_host_def ascii_lower_def)
  ultimately have "host_index (ToLower ?bs) = Some (3 * ?k + 2)" by (simp add: host_index_def)
  moreover have "skip_blanks ?bs (3 * ?k + 7) = 3 * ?k + 7"
    by (subst skip_blanks.simps) (simp add: crlf_host_def)
  moreover have "host_end ?bs (3 * ?k + 7) = 3 * ?k + 7"
    by (subst host_end.simps) (simp add: crlf_host_def)
  moreover have "slice_cap (Slice ?bs sp) < 3 * ?k + 7" by (simp add: slice_cap_def crlf_host_def)
  ultimately show ?thesis by (simp add: httpHost_def Let_def)
qed

text \<open>
  C38: The HTTP parser can be made to panic by a packet: whatever spare capacity the payload slice
  has, some payload (invalid bytes followed by a Host header) drives the slice expression past it.
\<close>

theorem httpHost_can_panic: "\<exists>bs. httpHost (Slice bs sp) = None"
  using httpHost_panics by blast

text \<open>
  A single invalid byte in the request line hides the Host header from the rules: the parser
  returns the configured name with its first letter cut off.
\<close>

lemma httpHost_misreads_host:
  "httpHost (Slice (''GET /'' @ bad_byte # '' HTTP/1.1'' @ CHR 0x0D # CHR 0x0A # ''Host: example.com'' @ [CHR 0x0D]) sp)
   = Some ''xample.com''"
proof -
  let ?tail = "'' HTTP/1.1'' @ CHR 0x0D # CHR 0x0A # ''Host: example.com'' @ [CHR 0x0D]"
  let ?bs = "''GET /'' @ bad_byte # ?tail"
  have "ToLower ?bs = map ascii_lower ''GET /'' @ replacement @ map ascii_lower ?tail"
    using ToLower_bad_prefix [of "''GET /''" ?tail 1] by simp
  moreover have "host_index (map ascii_lower ''GET /'' @ replacement @ map ascii_lower ?tail) = Some 19"
    by code_simp
  moreover have "skip_blanks ?bs 24 = 24" "host_end ?bs 24 = 34" by code_simp+
  ultimately show ?thesis by (simp add: httpHost_def Let_def eval_nat_numeral)
qed

end
