(* ===== verification/Classifier.thy ===== *)
theory Classifier
  imports Rules Payload_Parsers
begin

text \<open>
  The packet classifier of \<open>packet_classifier.go\<close>. The packet decoder and the DNS codec are the
  third-party library gopacket: they are the fields of the record \<open>gopacket\<close>, an argument of every
  definition that uses them, and nothing is assumed about them unless a theorem says so. A verdict is
  an option, \<^const>\<open>None\<close> being a panic of one of the payload parsers.

  The main result is that the cascade of checks computes an order-free policy (\<open>blocked\<close>): a packet
  is dropped exactly when some rule applies to it. The locale \<open>verdict_source\<close> is what the engine
  relies on: every verdict is well formed.
\<close>

section \<open>Layers decoded by gopacket\<close>

record ip_layer =
  SrcIP :: bytes
  DstIP :: bytes

record tcp_layer =
  TCP_SrcPort :: "16 word"
  TCP_DstPort :: "16 word"
  TCP_Payload :: slice

record udp_layer =
  UDP_SrcPort :: "16 word"
  UDP_DstPort :: "16 word"
  UDP_Payload :: slice

record packet =
  ipLayer :: "ip_layer option"
  tcpLayer :: "tcp_layer option"
  udpLayer :: "udp_layer option"

record DNSQuestion =
  Q_Name :: bytes
  Q_Type :: "16 word"
  Q_Class :: "16 word"

text \<open>
  The struct \<open>layers.DNS\<close>. The program never looks inside a resource record; one is kept as the
  bytes of its wire form.
\<close>

record DNS =
  DNS_ID :: "16 word"
  QR :: bool
  OpCode :: "8 word"
  AA :: bool
  TC :: bool
  RD :: bool
  RA :: bool
  Z :: "8 word"
  ResponseCode :: "8 word"
  QDCount :: "16 word"
  ANCount :: "16 word"
  NSCount :: "16 word"
  ARCount :: "16 word"
  Questions :: "DNSQuestion list"
  Answers :: "bytes list"
  Authorities :: "bytes list"
  Additionals :: "bytes list"

record gopacket =
  NewPacketIPv4 :: "slice \<Rightarrow> packet"
  NewPacketIPv6 :: "slice \<Rightarrow> packet"
  DecodeDNS :: "slice \<Rightarrow> DNS option"
  SerializeDNS :: "DNS \<Rightarrow> bytes option"

section \<open>Verdicts\<close>

datatype verdictKind = verdictAccept | verdictDrop

datatype blockReason =
    reasonNone
  | reasonHTTP
  | reasonTLS
  | reasonDNSPoison
  | reasonDNSDrop
  | reasonIP
  | reasonIPPort
  | reasonMalformed

record dnsResponse =
  resp_Payload :: bytes
  resp_SrcIP :: addr
  resp_DstIP :: addr
  resp_SrcPort :: "16 word"
  resp_DstPort :: "16 word"

record packetVerdict =
  Kind :: verdictKind
  Reason :: blockReason
  DNSResponse :: "dnsResponse option"

record packetClassifier =
  c_rules :: RuleSet
  c_dnsMode :: bytes

abbreviation accept :: packetVerdict where
  "accept \<equiv> \<lparr>Kind = verdictAccept, Reason = reasonNone, DNSResponse = None\<rparr>"

abbreviation malformed_accept :: packetVerdict where
  "malformed_accept \<equiv> \<lparr>Kind = verdictAccept, Reason = reasonMalformed, DNSResponse = None\<rparr>"

abbreviation drop_for :: "blockReason \<Rightarrow> packetVerdict" where
  "drop_for r \<equiv> \<lparr>Kind = verdictDrop, Reason = r, DNSResponse = None\<rparr>"

section \<open>Operations\<close>

definition newPacketClassifier :: "RuleSet \<Rightarrow> bytes \<Rightarrow> packetClassifier" where
  "newPacketClassifier rules dnsMode = \<lparr>c_rules = rules, c_dnsMode = dnsMode\<rparr>"

text \<open>\<open>net.IP.To4\<close>: the four bytes of an IPv4 address, also of one in its 16-byte form.\<close>

definition To4 :: "bytes \<Rightarrow> bytes option" where
  "To4 ip =
     (if length ip = 4 then Some ip
      else if length ip = 16 \<and> take 10 ip = replicate 10 (CHR 0x00) \<and> ip ! 10 = CHR 0xFF \<and> ip ! 11 = CHR 0xFF
      then Some (drop 12 ip) else None)"

definition addrFromIP :: "bytes \<Rightarrow> addr option" where
  "addrFromIP ip =
     (case AddrFromSlice ip of
        Some a \<Rightarrow> Some (Unmap a)
      | None \<Rightarrow>
          (case To4 ip of
             Some v4 \<Rightarrow> map_option Unmap (AddrFromSlice v4)
           | None \<Rightarrow> None))"

definition parseDNSQuery :: "gopacket \<Rightarrow> slice \<Rightarrow> (DNS \<times> bytes) option" where
  "parseDNSQuery gp payload =
     (case DecodeDNS gp payload of
        None \<Rightarrow> None
      | Some dns \<Rightarrow>
          if QR dns \<or> Questions dns = [] then None
          else Some (dns, Q_Name (hd (Questions dns))))"

definition dnsNXDomain :: "DNS \<Rightarrow> DNS" where
  "dnsNXDomain query =
     \<lparr>DNS_ID = DNS_ID query, QR = True, OpCode = OpCode query, AA = False, TC = False,
      RD = RD query, RA = False, Z = 0, ResponseCode = 3,
      QDCount = 0, ANCount = 0, NSCount = 0, ARCount = 0,
      Questions = Questions query, Answers = [], Authorities = [], Additionals = []\<rparr>"

definition buildDNSNXDomainPayload :: "gopacket \<Rightarrow> DNS \<Rightarrow> bytes option" where
  "buildDNSNXDomainPayload gp dns = SerializeDNS gp (dnsNXDomain dns)"

definition classifyTCP ::
  "packetClassifier \<Rightarrow> addr \<Rightarrow> addr \<Rightarrow> 16 word \<Rightarrow> 16 word \<Rightarrow> slice \<Rightarrow> packetVerdict option" where
  "classifyTCP c src dst sport dport payload =
     (if matchIPPort (c_rules c) src sport protoTCP \<or> matchIPPort (c_rules c) dst dport protoTCP
      then Some (drop_for reasonIPPort)
      else if dport = 80 then do {
        host \<leftarrow> httpHost payload;
        if host \<noteq> [] \<and> matchDomain (c_rules c) host then Some (drop_for reasonHTTP) else Some accept }
      else if dport = 443 then do {
        sni \<leftarrow> tlsSNI payload;
        if sni \<noteq> [] \<and> matchDomain (c_rules c) sni then Some (drop_for reasonTLS) else Some accept }
      else Some accept)"

definition classifyUDP ::
  "gopacket \<Rightarrow> packetClassifier \<Rightarrow> udp_layer \<Rightarrow> addr \<Rightarrow> addr \<Rightarrow> packetVerdict" where
  "classifyUDP gp c udp src dst =
     (let sport = UDP_SrcPort udp; dport = UDP_DstPort udp in
      if matchIPPort (c_rules c) src sport protoUDP \<or> matchIPPort (c_rules c) dst dport protoUDP
      then drop_for reasonIPPort
      else if dport \<noteq> 53 then accept
      else case parseDNSQuery gp (UDP_Payload udp) of
        None \<Rightarrow> accept
      | Some (dns, qname) \<Rightarrow>
          if \<not> matchDNSPoison (c_rules c) qname then accept
          else if c_dnsMode c = ''drop'' then drop_for reasonDNSDrop
          else case buildDNSNXDomainPayload gp dns of
            None \<Rightarrow> drop_for reasonDNSDrop
          | Some resp \<Rightarrow>
              \<lparr>Kind = verdictDrop, Reason = reasonDNSPoison,
               DNSResponse = Some \<lparr>resp_Payload = resp, resp_SrcIP = dst, resp_DstIP = src,
                                   resp_SrcPort = dport, resp_DstPort = sport\<rparr>\<rparr>)"

text \<open>The part of \<open>classifyIPv4\<close> and \<open>classifyIPv6\<close> after the decoder.\<close>

definition classify_layers :: "gopacket \<Rightarrow> packetClassifier \<Rightarrow> packet \<Rightarrow> packetVerdict option" where
  "classify_layers gp c packet =
     (case ipLayer packet of
        None \<Rightarrow> Some malformed_accept
      | Some ip \<Rightarrow>
          (case (addrFromIP (SrcIP ip), addrFromIP (DstIP ip)) of
             (Some src, Some dst) \<Rightarrow>
               if matchIP (c_rules c) src \<or> matchIP (c_rules c) dst then Some (drop_for reasonIP)
               else (case tcpLayer packet of
                   Some tcp \<Rightarrow>
                     classifyTCP c src dst (TCP_SrcPort tcp) (TCP_DstPort tcp) (TCP_Payload tcp)
                 | None \<Rightarrow>
                     (case udpLayer packet of
                        Some udp \<Rightarrow> Some (classifyUDP gp c udp src dst)
                      | None \<Rightarrow> Some accept))
           | _ \<Rightarrow> Some malformed_accept))"

definition classifyIPv4 :: "gopacket \<Rightarrow> packetClassifier \<Rightarrow> slice \<Rightarrow> packetVerdict option" where
  "classifyIPv4 gp c payload = classify_layers gp c (NewPacketIPv4 gp payload)"

definition classifyIPv6 :: "gopacket \<Rightarrow> packetClassifier \<Rightarrow> slice \<Rightarrow> packetVerdict option" where
  "classifyIPv6 gp c payload = classify_layers gp c (NewPacketIPv6 gp payload)"

definition Classify :: "gopacket \<Rightarrow> packetClassifier \<Rightarrow> slice \<Rightarrow> packetVerdict option" where
  "Classify gp c payload =
     (case vis payload of
        [] \<Rightarrow> Some malformed_accept
      | b # _ \<Rightarrow>
          if byte b div 16 = 4 then classifyIPv4 gp c payload
          else if byte b div 16 = 6 then classifyIPv6 gp c payload
          else Some malformed_accept)"

definition reasonString :: "blockReason \<Rightarrow> bytes" where
  "reasonString reason =
     (case reason of
        reasonHTTP \<Rightarrow> ''http''
      | reasonTLS \<Rightarrow> ''tls''
      | reasonDNSPoison \<Rightarrow> ''dns_poison''
      | reasonDNSDrop \<Rightarrow> ''dns_drop''
      | reasonIP \<Rightarrow> ''ip''
      | reasonIPPort \<Rightarrow> ''ip_port''
      | reasonMalformed \<Rightarrow> ''malformed''
      | _ \<Rightarrow> ''none'')"

definition packetSummary :: "bytes \<Rightarrow> bytes" where
  "packetSummary payload =
     (case payload of
        [] \<Rightarrow> ''empty''
      | b # _ \<Rightarrow> ''ipv'' @ decimal (byte b div 16) @ '' len='' @ decimal (length payload))"

section \<open>The contract of a classifier\<close>

text \<open>
  What the engine relies on: the reason tells accepted packets from dropped ones, and exactly the
  poisoned DNS queries carry a response.
\<close>

definition wf_verdict :: "packetVerdict \<Rightarrow> bool" where
  "wf_verdict v \<longleftrightarrow>
     (Kind v = verdictAccept \<longleftrightarrow> Reason v \<in> {reasonNone, reasonMalformed})
     \<and> (DNSResponse v \<noteq> None \<longleftrightarrow> Reason v = reasonDNSPoison)"

locale verdict_source =
  fixes classify :: "slice \<Rightarrow> packetVerdict option"
  assumes classify_wf: "classify p = Some v \<Longrightarrow> wf_verdict v"
begin

lemma accept_reason: "classify p = Some v \<Longrightarrow> Kind v = verdictAccept \<longleftrightarrow> Reason v \<in> {reasonNone, reasonMalformed}"
  using classify_wf by (simp add: wf_verdict_def)

lemma response_reason: "classify p = Some v \<Longrightarrow> DNSResponse v = Some r \<Longrightarrow> Reason v = reasonDNSPoison"
  using classify_wf [of p v] by (simp add: wf_verdict_def)

lemma accept_no_response: "classify p = Some v \<Longrightarrow> Kind v = verdictAccept \<Longrightarrow> DNSResponse v = None"
  using classify_wf [of p v] by (cases "DNSResponse v") (auto simp: wf_verdict_def)

end

lemma wf_accept [simp]: "wf_verdict accept" "wf_verdict malformed_accept"
  by (simp_all add: wf_verdict_def)

lemma wf_drop_for [simp]: "wf_verdict (drop_for r) \<longleftrightarrow> r \<notin> {reasonNone, reasonMalformed, reasonDNSPoison}"
  by (auto simp: wf_verdict_def)

lemma classifyTCP_wf: "classifyTCP c src dst sport dport payload = Some v \<Longrightarrow> wf_verdict v"
  by (auto simp: classifyTCP_def bind_eq_Some_conv split: if_splits)

lemma classifyUDP_wf: "wf_verdict (classifyUDP gp c udp src dst)"
  by (auto simp: classifyUDP_def Let_def wf_verdict_def split: option.splits)

lemma classify_layers_wf: "classify_layers gp c p = Some v \<Longrightarrow> wf_verdict v"
  by (auto simp: classify_layers_def classifyTCP_wf classifyUDP_wf split: option.splits if_splits)

interpretation cl: verdict_source "Classify gp c" for gp c
  by unfold_locales
     (auto simp: Classify_def classifyIPv4_def classifyIPv6_def classify_layers_wf split: list.splits if_splits)

section \<open>The decoded view of a packet\<close>

definition decode_ip :: "gopacket \<Rightarrow> slice \<Rightarrow> packet option" where
  "decode_ip gp payload =
     (if vis payload = [] then None
      else if byte (hd (vis payload)) div 16 = 4 then Some (NewPacketIPv4 gp payload)
      else if byte (hd (vis payload)) div 16 = 6 then Some (NewPacketIPv6 gp payload)
      else None)"

definition endpoints :: "packet \<Rightarrow> (addr \<times> addr) option" where
  "endpoints p = do {
     ip \<leftarrow> ipLayer p;
     src \<leftarrow> addrFromIP (SrcIP ip);
     dst \<leftarrow> addrFromIP (DstIP ip);
     Some (src, dst) }"

text \<open>The name a DNS query asks for: the first question of a message that is not a response.\<close>

definition dns_query_name :: "gopacket \<Rightarrow> slice \<Rightarrow> bytes option" where
  "dns_query_name gp payload =
     (case DecodeDNS gp payload of
        Some dns \<Rightarrow> if \<not> QR dns \<and> Questions dns \<noteq> [] then Some (Q_Name (hd (Questions dns))) else None
      | None \<Rightarrow> None)"

lemma Classify_eq:
  "Classify gp c payload =
     (case decode_ip gp payload of
        None \<Rightarrow> Some malformed_accept
      | Some p \<Rightarrow>
          (case endpoints p of
             None \<Rightarrow> Some malformed_accept
           | Some (src, dst) \<Rightarrow>
               if matchIP (c_rules c) src \<or> matchIP (c_rules c) dst then Some (drop_for reasonIP)
               else (case tcpLayer p of
                   Some tcp \<Rightarrow> classifyTCP c src dst (TCP_SrcPort tcp) (TCP_DstPort tcp) (TCP_Payload tcp)
                 | None \<Rightarrow> (case udpLayer p of
                     Some udp \<Rightarrow> Some (classifyUDP gp c udp src dst) | None \<Rightarrow> Some accept))))"
  by (auto simp: Classify_def classifyIPv4_def classifyIPv6_def classify_layers_def decode_ip_def endpoints_def
      split: list.splits option.splits)

lemma classifyTCP_drop_iff:
  assumes "classifyTCP c src dst sport dport payload = Some v"
  shows "Kind v = verdictDrop \<longleftrightarrow>
     matchIPPort (c_rules c) src sport protoTCP \<or> matchIPPort (c_rules c) dst dport protoTCP
     \<or> dport = 80 \<and> (\<exists>h. httpHost payload = Some h \<and> h \<noteq> [] \<and> matchDomain (c_rules c) h)
     \<or> dport = 443 \<and> (\<exists>h. tlsSNI payload = Some h \<and> h \<noteq> [] \<and> matchDomain (c_rules c) h)"
  using assms by (auto simp: classifyTCP_def bind_eq_Some_conv split: if_splits)

lemma parseDNSQuery_name: "map_option snd (parseDNSQuery gp payload) = dns_query_name gp payload"
  by (auto simp: parseDNSQuery_def dns_query_name_def split: option.splits)

lemma classifyUDP_drop_iff:
  "Kind (classifyUDP gp c udp src dst) = verdictDrop \<longleftrightarrow>
     matchIPPort (c_rules c) src (UDP_SrcPort udp) protoUDP
     \<or> matchIPPort (c_rules c) dst (UDP_DstPort udp) protoUDP
     \<or> UDP_DstPort udp = 53
       \<and> (\<exists>q. dns_query_name gp (UDP_Payload udp) = Some q \<and> matchDNSPoison (c_rules c) q)"
  unfolding parseDNSQuery_name [symmetric]
  by (auto simp: classifyUDP_def Let_def split: option.splits)

section \<open>The blocking policy\<close>

text \<open>
  Which packets the configuration asks to block, with no order of checks: by an endpoint address, by
  an endpoint address and port, by the host name of a request to port 80 or 443, or by the name of a
  DNS query to port 53.
\<close>

definition tcp_blocked :: "RuleConfig \<Rightarrow> addr \<Rightarrow> addr \<Rightarrow> tcp_layer \<Rightarrow> bool" where
  "tcp_blocked cfg src dst tcp \<longleftrightarrow>
     port_listed (cfg_IPPorts cfg) src (TCP_SrcPort tcp) protoTCP
     \<or> port_listed (cfg_IPPorts cfg) dst (TCP_DstPort tcp) protoTCP
     \<or> TCP_DstPort tcp = 80
        \<and> (\<exists>h. httpHost (TCP_Payload tcp) = Some h \<and> h \<noteq> [] \<and> domain_listed (cfg_Domains cfg) h)
     \<or> TCP_DstPort tcp = 443
        \<and> (\<exists>h. tlsSNI (TCP_Payload tcp) = Some h \<and> h \<noteq> [] \<and> domain_listed (cfg_Domains cfg) h)"

definition udp_blocked :: "gopacket \<Rightarrow> RuleConfig \<Rightarrow> addr \<Rightarrow> addr \<Rightarrow> udp_layer \<Rightarrow> bool" where
  "udp_blocked gp cfg src dst udp \<longleftrightarrow>
     port_listed (cfg_IPPorts cfg) src (UDP_SrcPort udp) protoUDP
     \<or> port_listed (cfg_IPPorts cfg) dst (UDP_DstPort udp) protoUDP
     \<or> UDP_DstPort udp = 53
        \<and> (\<exists>q. dns_query_name gp (UDP_Payload udp) = Some q \<and> domain_listed (cfg_DNSPoisonDomains cfg) q)"

definition blocked :: "gopacket \<Rightarrow> RuleConfig \<Rightarrow> slice \<Rightarrow> bool" where
  "blocked gp cfg payload \<longleftrightarrow>
     (\<exists>p src dst. decode_ip gp payload = Some p \<and> endpoints p = Some (src, dst) \<and>
        (ip_listed (cfg_IPs cfg) src \<or> ip_listed (cfg_IPs cfg) dst
         \<or> (\<exists>tcp. tcpLayer p = Some tcp \<and> tcp_blocked cfg src dst tcp)
         \<or> (\<exists>udp. tcpLayer p = None \<and> udpLayer p = Some udp \<and> udp_blocked gp cfg src dst udp)))"

lemma Classify_drop_iff_blocked:
  assumes r: "compileRuleSet cfg = Inr r"
    and v: "Classify gp (newPacketClassifier r mode) payload = Some v"
  shows "Kind v = verdictDrop \<longleftrightarrow> blocked gp cfg payload"
proof -
  note [simp] = match_listed [OF r, symmetric] newPacketClassifier_def
  show ?thesis
    using v unfolding Classify_eq blocked_def tcp_blocked_def udp_blocked_def
    by (auto simp: classifyUDP_drop_iff dest!: classifyTCP_drop_iff split: option.splits prod.splits if_splits)
qed

section \<open>When the classifier returns\<close>

lemma classifyTCP_None_iff:
  "classifyTCP c src dst sport dport payload = None \<longleftrightarrow>
     \<not> matchIPPort (c_rules c) src sport protoTCP \<and> \<not> matchIPPort (c_rules c) dst dport protoTCP
     \<and> dport = 80 \<and> httpHost payload = None"
  using tlsSNI_returns [of payload] by (auto simp: classifyTCP_def bind_eq_None_conv)

lemma Classify_None_iff:
  "Classify gp c payload = None \<longleftrightarrow>
     (\<exists>p src dst tcp. decode_ip gp payload = Some p \<and> endpoints p = Some (src, dst) \<and> tcpLayer p = Some tcp
        \<and> \<not> matchIP (c_rules c) src \<and> \<not> matchIP (c_rules c) dst
        \<and> \<not> matchIPPort (c_rules c) src (TCP_SrcPort tcp) protoTCP
        \<and> \<not> matchIPPort (c_rules c) dst (TCP_DstPort tcp) protoTCP
        \<and> TCP_DstPort tcp = 80 \<and> httpHost (TCP_Payload tcp) = None)"
  by (auto simp: Classify_eq classifyTCP_None_iff split: option.splits)

lemma addrFromIP_iff: "(\<exists>a. addrFromIP ip = Some a) \<longleftrightarrow> length ip = 4 \<or> length ip = 16"
  by (auto simp: addrFromIP_def AddrFromSlice_def To4_def split: option.splits if_splits)

section \<open>Reasons\<close>

text \<open>An endpoint rule applies to the decoded packet.\<close>

definition ip_hit :: "RuleSet \<Rightarrow> packet \<Rightarrow> bool" where
  "ip_hit r p \<longleftrightarrow> (case endpoints p of None \<Rightarrow> False | Some (src, dst) \<Rightarrow> matchIP r src \<or> matchIP r dst)"

definition port_hit :: "RuleSet \<Rightarrow> packet \<Rightarrow> bool" where
  "port_hit r p \<longleftrightarrow>
     (case endpoints p of
        None \<Rightarrow> False
      | Some (src, dst) \<Rightarrow>
          (case (tcpLayer p, udpLayer p) of
             (Some tcp, _) \<Rightarrow>
               matchIPPort r src (TCP_SrcPort tcp) protoTCP \<or> matchIPPort r dst (TCP_DstPort tcp) protoTCP
           | (None, Some udp) \<Rightarrow>
               matchIPPort r src (UDP_SrcPort udp) protoUDP \<or> matchIPPort r dst (UDP_DstPort udp) protoUDP
           | (None, None) \<Rightarrow> False))"

lemma classifyTCP_reason:
  assumes "classifyTCP c src dst sport dport payload = Some v"
  shows "Reason v \<noteq> reasonMalformed" and "Reason v \<noteq> reasonIP"
    and "Reason v = reasonIPPort \<longleftrightarrow>
      matchIPPort (c_rules c) src sport protoTCP \<or> matchIPPort (c_rules c) dst dport protoTCP"
  using assms by (auto simp: classifyTCP_def bind_eq_Some_conv split: if_splits)

lemma classifyUDP_reason:
  "Reason (classifyUDP gp c udp src dst) \<noteq> reasonMalformed"
  "Reason (classifyUDP gp c udp src dst) \<noteq> reasonIP"
  "Reason (classifyUDP gp c udp src dst) = reasonIPPort \<longleftrightarrow>
     matchIPPort (c_rules c) src (UDP_SrcPort udp) protoUDP
     \<or> matchIPPort (c_rules c) dst (UDP_DstPort udp) protoUDP"
  by (auto simp: classifyUDP_def Let_def split: option.splits)

lemma Classify_decoded:
  assumes "decode_ip gp payload = Some p" "Classify gp c payload = Some v"
  shows "Reason v = reasonMalformed \<longleftrightarrow> endpoints p = None"
    and "Reason v = reasonIP \<longleftrightarrow> ip_hit (c_rules c) p"
    and "Reason v = reasonIPPort \<longleftrightarrow> \<not> ip_hit (c_rules c) p \<and> port_hit (c_rules c) p"
  using assms
  by (auto simp: Classify_eq ip_hit_def port_hit_def classifyUDP_reason classifyTCP_reason
      split: option.splits if_splits)

section \<open>The forged DNS answer\<close>

lemma classifyUDP_response:
  assumes "DNSResponse (classifyUDP gp c udp src dst) = Some resp"
  shows "\<exists>dns bs. DecodeDNS gp (UDP_Payload udp) = Some dns \<and> \<not> QR dns \<and> Questions dns \<noteq> []
     \<and> matchDNSPoison (c_rules c) (Q_Name (hd (Questions dns))) \<and> c_dnsMode c \<noteq> ''drop''
     \<and> UDP_DstPort udp = 53 \<and> SerializeDNS gp (dnsNXDomain dns) = Some bs
     \<and> resp = \<lparr>resp_Payload = bs, resp_SrcIP = dst, resp_DstIP = src,
                resp_SrcPort = 53, resp_DstPort = UDP_SrcPort udp\<rparr>"
  using assms
  by (auto simp: classifyUDP_def Let_def parseDNSQuery_def buildDNSNXDomainPayload_def
      split: option.splits if_splits)

lemma classifyTCP_no_response:
  "classifyTCP c src dst sport dport payload = Some v \<Longrightarrow> DNSResponse v = None"
  by (auto simp: classifyTCP_def bind_eq_Some_conv split: if_splits)

lemma Classify_response:
  assumes "Classify gp c payload = Some v" "DNSResponse v = Some resp"
  shows "\<exists>p src dst udp. decode_ip gp payload = Some p \<and> endpoints p = Some (src, dst)
     \<and> udpLayer p = Some udp \<and> v = classifyUDP gp c udp src dst"
  using assms classifyTCP_no_response
  by (fastforce simp: Classify_eq split: option.splits if_splits)

text \<open>
  What the program relies on in the DNS codec of gopacket: the response it serialises is decoded as
  it is, with the length fields set from the lists (option \<open>FixLengths\<close>).
\<close>

definition dns_codec :: "gopacket \<Rightarrow> bool" where
  "dns_codec gp \<longleftrightarrow>
     (\<forall>s q bs. DecodeDNS gp s = Some q \<longrightarrow> SerializeDNS gp (dnsNXDomain q) = Some bs \<longrightarrow>
        DecodeDNS gp (full_slice bs) = Some ((dnsNXDomain q)\<lparr>QDCount := of_nat (length (Questions q))\<rparr>))"

text \<open>The client's view: a "no such name" for the very question it asked.\<close>

definition nxdomain_answer :: "DNS \<Rightarrow> DNS \<Rightarrow> bool" where
  "nxdomain_answer q a \<longleftrightarrow>
     DNS_ID a = DNS_ID q \<and> QR a \<and> OpCode a = OpCode q \<and> RD a = RD q \<and> ResponseCode a = 3
     \<and> Questions a = Questions q \<and> QDCount a = of_nat (length (Questions q))
     \<and> Answers a = [] \<and> ANCount a = 0 \<and> \<not> TC a"

lemma nxdomain_answer_dnsNXDomain:
  "nxdomain_answer q ((dnsNXDomain q)\<lparr>QDCount := of_nat (length (Questions q))\<rparr>)"
  by (simp add: nxdomain_answer_def dnsNXDomain_def)

section \<open>Growing the rule set\<close>

definition ruleset_le :: "RuleSet \<Rightarrow> RuleSet \<Rightarrow> bool" where
  "ruleset_le r r' \<longleftrightarrow> Domains r \<subseteq> Domains r' \<and> DNSPoisonDomains r \<subseteq> DNSPoisonDomains r'
     \<and> set (Prefixes r) \<subseteq> set (Prefixes r') \<and> IPPorts r \<subseteq> IPPorts r'"

lemma ruleset_le_match:
  assumes "ruleset_le r r'"
  shows "matchDomain r d \<Longrightarrow> matchDomain r' d" "matchDNSPoison r d \<Longrightarrow> matchDNSPoison r' d"
    "matchIP r a \<Longrightarrow> matchIP r' a" "matchIPPort r a port proto \<Longrightarrow> matchIPPort r' a port proto"
  using assms by (auto simp: ruleset_le_def dm.matches_iff dp.matches_iff matchIP_def list_ex_iff matchIPPort_def)

section \<open>A sample decoder\<close>

text \<open>
  A concrete instance of the decoder, for three packets: an HTTP request, a DNS query and a packet
  between two plain hosts. The first byte \<open>E\<close> is \<open>0x45\<close>, an IPv4 header.
\<close>

definition example_query :: DNS where
  "example_query =
     \<lparr>DNS_ID = 0x1234, QR = False, OpCode = 0, AA = False, TC = False, RD = True, RA = False, Z = 0,
      ResponseCode = 0, QDCount = 1, ANCount = 0, NSCount = 0, ARCount = 0,
      Questions = [\<lparr>Q_Name = ''www.example.com'', Q_Type = 1, Q_Class = 1\<rparr>],
      Answers = [], Authorities = [], Additionals = []\<rparr>"

definition client_ip :: bytes where "client_ip = [CHR 0x0A, CHR 0x00, CHR 0x00, CHR 0x07]"

definition server_ip :: bytes where "server_ip = [CHR 0x08, CHR 0x08, CHR 0x08, CHR 0x08]"

definition http_packet :: packet where
  "http_packet =
     \<lparr>ipLayer = Some \<lparr>SrcIP = client_ip, DstIP = server_ip\<rparr>,
      tcpLayer = Some \<lparr>TCP_SrcPort = 50000, TCP_DstPort = 80, TCP_Payload = full_slice ''Host: example.com''\<rparr>,
      udpLayer = None\<rparr>"

definition dns_packet :: packet where
  "dns_packet =
     \<lparr>ipLayer = Some \<lparr>SrcIP = client_ip, DstIP = server_ip\<rparr>, tcpLayer = None,
      udpLayer = Some \<lparr>UDP_SrcPort = 40000, UDP_DstPort = 53, UDP_Payload = full_slice ''query''\<rparr>\<rparr>"

definition plain_packet :: packet where
  "plain_packet = \<lparr>ipLayer = Some \<lparr>SrcIP = client_ip, DstIP = server_ip\<rparr>, tcpLayer = None, udpLayer = None\<rparr>"

definition example_gp :: gopacket where
  "example_gp =
     \<lparr>NewPacketIPv4 = (\<lambda>s. if vis s = ''Eh'' then http_packet else if vis s = ''Ed'' then dns_packet else plain_packet),
      NewPacketIPv6 = (\<lambda>s. plain_packet),
      DecodeDNS = (\<lambda>s. if vis s = ''query'' then Some example_query
                       else if vis s = ''answer'' then Some ((dnsNXDomain example_query)\<lparr>QDCount := 1\<rparr>) else None),
      SerializeDNS = (\<lambda>d. if d = dnsNXDomain example_query then Some ''answer'' else None)\<rparr>"

definition example_classifier :: packetClassifier where
  "example_classifier = newPacketClassifier example_ruleset ''nxdomain''"

lemma Classify_example_http:
  "Classify example_gp example_classifier (full_slice ''Eh'') = Some (drop_for reasonHTTP)"
  by code_simp

lemma Classify_example_plain:
  "Classify example_gp example_classifier (full_slice ''E'') = Some accept"
  by code_simp

definition example_response :: dnsResponse where
  "example_response =
     \<lparr>resp_Payload = ''answer'', resp_SrcIP = Addr4 0x08080808, resp_DstIP = Addr4 0x0A000007,
      resp_SrcPort = 53, resp_DstPort = 40000\<rparr>"

lemma Classify_example_dns:
  "Classify example_gp example_classifier (full_slice ''Ed'')
   = Some \<lparr>Kind = verdictDrop, Reason = reasonDNSPoison, DNSResponse = Some example_response\<rparr>"
proof -
  let ?src = "Addr4 0x0A000007" and ?dst = "Addr4 0x08080808"
  have d: "decode_ip example_gp (full_slice ''Ed'') = Some dns_packet"
    by (simp add: decode_ip_def example_gp_def)
  have e: "endpoints dns_packet = Some (?src, ?dst)" by code_simp
  have m: "\<not> matchIP example_ruleset ?src" "\<not> matchIP example_ruleset ?dst"
    "\<not> matchIPPort example_ruleset ?src 40000 protoUDP" "\<not> matchIPPort example_ruleset ?dst 53 protoUDP"
    "matchDNSPoison example_ruleset ''www.example.com''"
    by code_simp+
  have q: "parseDNSQuery example_gp (full_slice ''query'') = Some (example_query, ''www.example.com'')"
    by (simp add: parseDNSQuery_def example_gp_def example_query_def)
  have b: "buildDNSNXDomainPayload example_gp example_query = Some ''answer''"
    by (simp add: buildDNSNXDomainPayload_def example_gp_def)
  show ?thesis
    using m q b
    by (simp add: Classify_eq d e example_classifier_def newPacketClassifier_def
        example_response_def) (simp add: dns_packet_def classifyUDP_def)
qed

lemma dns_codec_example: "dns_codec example_gp"
proof -
  have "dnsNXDomain ((dnsNXDomain example_query)\<lparr>QDCount := 1\<rparr>) = dnsNXDomain example_query"
    "Questions ((dnsNXDomain example_query)\<lparr>QDCount := 1\<rparr>) = Questions example_query"
    "length (Questions example_query) = 1"
    by (simp_all add: dnsNXDomain_def example_query_def)
  then show ?thesis by (simp add: dns_codec_def example_gp_def split: if_splits)
qed

section \<open>Correctness of the classifier\<close>

text \<open>
  C2: The cascade of checks implements the configured policy: whenever the classifier returns, the
  packet is dropped exactly when some rule of the configuration applies to it, whatever the order in
  which the checks are made, and accepted otherwise.
\<close>

theorem Classify_blocks_exactly:
  assumes "compileRuleSet cfg = Inr r"
    and "Classify gp (newPacketClassifier r mode) payload = Some v"
  shows "Kind v = verdictDrop \<longleftrightarrow> blocked gp cfg payload"
  by (rule Classify_drop_iff_blocked [OF assms])

theorem Classify_blocks_exactly_witness:
  "blocked example_gp example_rules (full_slice ''Eh'') \<and> \<not> blocked example_gp example_rules (full_slice ''E'')"
  using Classify_blocks_exactly [OF compile_example Classify_example_http [unfolded example_classifier_def]]
    Classify_blocks_exactly [OF compile_example Classify_example_plain [unfolded example_classifier_def]]
  by simp

text \<open>
  C6: Every verdict is coherent: a packet is accepted exactly when the reason is "none" or
  "malformed", a DNS answer is forged exactly for the reason "DNS poison", and in mode \<open>drop\<close> none
  is forged at all.
\<close>

theorem Classify_verdict_coherent:
  assumes "Classify gp c payload = Some v"
  shows "(Kind v = verdictAccept \<longleftrightarrow> Reason v \<in> {reasonNone, reasonMalformed})
    \<and> (DNSResponse v \<noteq> None \<longleftrightarrow> Reason v = reasonDNSPoison)
    \<and> (c_dnsMode c = ''drop'' \<longrightarrow> DNSResponse v = None)"
proof -
  have "c_dnsMode c \<noteq> ''drop''" if "DNSResponse v = Some resp" for resp
    using Classify_response [OF assms that] classifyUDP_response that by metis
  then show ?thesis
    using cl.classify_wf [OF assms] by (auto simp: wf_verdict_def)
qed

theorem Classify_verdict_coherent_witness:
  "\<exists>v. Classify example_gp example_classifier (full_slice ''Eh'') = Some v
     \<and> Reason v = reasonHTTP \<and> Kind v = verdictDrop \<and> DNSResponse v = None"
proof -
  have "Reason (drop_for reasonHTTP) = reasonHTTP" by simp
  moreover from this have "Kind (drop_for reasonHTTP) \<noteq> verdictAccept" "DNSResponse (drop_for reasonHTTP) = None"
    using Classify_verdict_coherent [OF Classify_example_http] by auto
  ultimately show ?thesis
    using Classify_example_http verdictKind.exhaust by metis
qed

text \<open>
  The reason recorded for a decoded packet: "malformed" exactly when an address is missing or of
  a wrong length; "ip" exactly when an endpoint address is listed; "ip_port" exactly when none is
  and an endpoint with its port is. So address rules take precedence over port rules.
\<close>

lemma Classify_reason:
  assumes "decode_ip gp payload = Some p" and "Classify gp c payload = Some v"
  shows "(Reason v = reasonMalformed \<longleftrightarrow> endpoints p = None)
    \<and> (Reason v = reasonIP \<longleftrightarrow> ip_hit (c_rules c) p)
    \<and> (Reason v = reasonIPPort \<longleftrightarrow> \<not> ip_hit (c_rules c) p \<and> port_hit (c_rules c) p)"
  using Classify_decoded [OF assms] by blast

text \<open>
  C20: The only way the classifier does not return is the HTTP parser: it panics exactly when a TCP
  packet to port 80, matched by no address or port rule, makes \<open>httpHost\<close> panic. In particular it
  returns on every packet whose TCP payload is ASCII.
\<close>

theorem Classify_returns:
  "(Classify gp c payload = None \<longleftrightarrow>
     (\<exists>p src dst tcp. decode_ip gp payload = Some p \<and> endpoints p = Some (src, dst) \<and> tcpLayer p = Some tcp
        \<and> \<not> matchIP (c_rules c) src \<and> \<not> matchIP (c_rules c) dst
        \<and> \<not> matchIPPort (c_rules c) src (TCP_SrcPort tcp) protoTCP
        \<and> \<not> matchIPPort (c_rules c) dst (TCP_DstPort tcp) protoTCP
        \<and> TCP_DstPort tcp = 80 \<and> httpHost (TCP_Payload tcp) = None))
   \<and> ((\<forall>p tcp. decode_ip gp payload = Some p \<longrightarrow> tcpLayer p = Some tcp \<longrightarrow> is_ascii (vis (TCP_Payload tcp)))
      \<longrightarrow> (\<exists>v. Classify gp c payload = Some v))"
proof -
  have "Classify gp c payload \<noteq> None"
    if "\<forall>p tcp. decode_ip gp payload = Some p \<longrightarrow> tcpLayer p = Some tcp \<longrightarrow> is_ascii (vis (TCP_Payload tcp))"
    using that httpHost_ascii_eq by (auto simp: Classify_None_iff)
  then show ?thesis using Classify_None_iff by blast
qed

theorem Classify_returns_witness: "\<exists>v. Classify example_gp example_classifier (full_slice ''Eh'') = Some v"
proof -
  have "decode_ip example_gp (full_slice ''Eh'') = Some http_packet" by code_simp
  then have "\<forall>p tcp. decode_ip example_gp (full_slice ''Eh'') = Some p \<longrightarrow> tcpLayer p = Some tcp
      \<longrightarrow> is_ascii (vis (TCP_Payload tcp))"
    by (simp add: http_packet_def)
  then show ?thesis
    using Classify_returns [of example_gp example_classifier "full_slice ''Eh''"] by blast
qed

text \<open>
  C7: A forged DNS answer goes from the server the client asked, port 53, back to the client's
  address and port, and the client decodes it as an NXDOMAIN answer to its own query: same
  identifier, opcode, recursion flag and questions, no answer record. This relies on the DNS codec of
  gopacket decoding what it encodes.
\<close>

theorem forged_answer_reaches_client:
  assumes "dns_codec gp" and "Classify gp c payload = Some v" and "DNSResponse v = Some resp"
  shows "\<exists>p src dst udp query answer.
     decode_ip gp payload = Some p \<and> endpoints p = Some (src, dst) \<and> udpLayer p = Some udp
     \<and> DecodeDNS gp (UDP_Payload udp) = Some query
     \<and> resp_SrcIP resp = dst \<and> resp_SrcPort resp = UDP_DstPort udp
     \<and> resp_DstIP resp = src \<and> resp_DstPort resp = UDP_SrcPort udp
     \<and> DecodeDNS gp (full_slice (resp_Payload resp)) = Some answer \<and> nxdomain_answer query answer"
proof -
  obtain p src dst udp where p: "decode_ip gp payload = Some p" "endpoints p = Some (src, dst)"
    "udpLayer p = Some udp" "v = classifyUDP gp c udp src dst"
    using Classify_response [OF assms(2,3)] by blast
  then obtain dns bs where dns: "DecodeDNS gp (UDP_Payload udp) = Some dns" "UDP_DstPort udp = 53"
    "SerializeDNS gp (dnsNXDomain dns) = Some bs"
    "resp = \<lparr>resp_Payload = bs, resp_SrcIP = dst, resp_DstIP = src, resp_SrcPort = 53, resp_DstPort = UDP_SrcPort udp\<rparr>"
    using classifyUDP_response assms(3) by metis
  with assms(1) have "DecodeDNS gp (full_slice bs) = Some ((dnsNXDomain dns)\<lparr>QDCount := of_nat (length (Questions dns))\<rparr>)"
    by (auto simp: dns_codec_def)
  with p dns show ?thesis using nxdomain_answer_dnsNXDomain [of dns] by auto
qed

theorem forged_answer_witness:
  "\<exists>p src dst udp query answer.
     decode_ip example_gp (full_slice ''Ed'') = Some p \<and> endpoints p = Some (src, dst) \<and> udpLayer p = Some udp
     \<and> DecodeDNS example_gp (UDP_Payload udp) = Some query
     \<and> resp_SrcIP example_response = dst \<and> resp_SrcPort example_response = UDP_DstPort udp
     \<and> resp_DstIP example_response = src \<and> resp_DstPort example_response = UDP_SrcPort udp
     \<and> DecodeDNS example_gp (full_slice (resp_Payload example_response)) = Some answer \<and> nxdomain_answer query answer"
  using forged_answer_reaches_client [OF dns_codec_example Classify_example_dns] by simp

text \<open>
  C39: Adding rules never lets through what was dropped: if the classifier drops a packet, then with a
  larger rule set, whatever the DNS mode, it drops it too (or its HTTP parser panics on it).
\<close>

theorem Classify_monotone:
  assumes "ruleset_le r r'"
    and "Classify gp (newPacketClassifier r mode) payload = Some v" and "Kind v = verdictDrop"
    and "Classify gp (newPacketClassifier r' mode') payload = Some v'"
  shows "Kind v' = verdictDrop"
proof -
  note m = ruleset_le_match [OF assms(1)]
  obtain p src dst where p: "decode_ip gp payload = Some p" "endpoints p = Some (src, dst)"
    using assms(2,3) by (auto simp: Classify_eq split: option.splits)
  consider "matchIP r src \<or> matchIP r dst" | "\<not> matchIP r' src \<and> \<not> matchIP r' dst \<and> \<not> matchIP r src \<and> \<not> matchIP r dst"
    | "matchIP r' src \<or> matchIP r' dst"
    by blast
  then show ?thesis
  proof cases
    case 2
    then show ?thesis
      using assms(2-4) p m
      by (auto simp: Classify_eq newPacketClassifier_def classifyUDP_drop_iff dest!: classifyTCP_drop_iff
          split: option.splits)
  qed (use assms(4) p m in \<open>auto simp: Classify_eq newPacketClassifier_def\<close>)
qed

definition empty_ruleset :: RuleSet where
  "empty_ruleset = \<lparr>Domains = {}, DNSPoisonDomains = {}, Prefixes = [], IPPorts = {}\<rparr>"

definition domain_only_ruleset :: RuleSet where
  "domain_only_ruleset = empty_ruleset\<lparr>Domains := {''example.com''}\<rparr>"

theorem Classify_monotone_witness:
  "\<exists>v. Classify example_gp (newPacketClassifier example_ruleset ''nxdomain'') (full_slice ''Eh'') = Some v
     \<and> Kind v = verdictDrop"
proof -
  have le: "ruleset_le domain_only_ruleset example_ruleset"
    by (simp add: ruleset_le_def domain_only_ruleset_def empty_ruleset_def example_ruleset_def)
  have "Classify example_gp (newPacketClassifier domain_only_ruleset ''drop'') (full_slice ''Eh'') = Some (drop_for reasonHTTP)"
    by code_simp
  moreover have "Kind (drop_for reasonHTTP) = verdictDrop" by simp
  moreover have large: "Classify example_gp (newPacketClassifier example_ruleset ''nxdomain'') (full_slice ''Eh'')
      = Some (drop_for reasonHTTP)"
    using Classify_example_http by (simp add: example_classifier_def)
  ultimately have "Kind (drop_for reasonHTTP) = verdictDrop" by (rule Classify_monotone [OF le])
  with large show ?thesis by blast
qed

end
