(* ===== verification/Firewall.thy ===== *)
theory Firewall
  imports Config Rules
begin

text \<open>
  The firewall managers of \<open>firewall.go\<close> and \<open>firewall_linux.go\<close>. The program drives the external
  tools nft, iptables, ip6tables and modprobe; the machine they act on is the parameter \<open>host\<close>, over
  an arbitrary type of worlds: which tools \<open>exec.LookPath\<close> finds, and what running a command returns
  and changes. An error is its message (\<open>err.Error()\<close>), \<^const>\<open>None\<close> being \<open>nil\<close>. Log lines are left
  out.

  The locale \<open>firewall_backends\<close> is the interface \<open>FirewallManager\<close> as the automatic manager uses it:
  a clean-up reports no error, and a backend runs no other commands than its own. It is interpreted
  on the nftables and iptables backends.
\<close>

section \<open>The machine\<close>

type_synonym goerror = "bytes option"

text \<open>The context a command runs under: the process's signal context, or the background context.\<close>

datatype go_context = Background | SignalContext

record 'w host =
  LookPath :: "'w \<Rightarrow> bytes \<Rightarrow> goerror"
  RunCmd :: "go_context \<Rightarrow> bytes \<Rightarrow> bytes list \<Rightarrow> bytes \<Rightarrow> 'w \<Rightarrow> (goerror \<times> bytes) \<times> 'w"

section \<open>Running commands\<close>

definition runWithInput ::
  "'w host \<Rightarrow> go_context \<Rightarrow> bytes \<Rightarrow> bytes list \<Rightarrow> bytes \<Rightarrow> bool \<Rightarrow> 'w \<Rightarrow> goerror \<times> 'w" where
  "runWithInput h ctx name args stdin ignoreError w =
     (case RunCmd h ctx name args stdin w of
        ((None, _), w') \<Rightarrow> (None, w')
      | ((Some err, stderr), w') \<Rightarrow>
          if ignoreError then (None, w')
          else let msg = TrimSpace stderr; failed = name @ '' '' @ Join args '' '' @ '': '' @ err in
            (Some (if msg \<noteq> [] then failed @ '': '' @ msg else failed), w'))"

definition runCommand :: "'w host \<Rightarrow> go_context \<Rightarrow> bytes \<Rightarrow> bytes list \<Rightarrow> bool \<Rightarrow> 'w \<Rightarrow> goerror \<times> 'w" where
  "runCommand h ctx name args ignoreError w = runWithInput h ctx name args [] ignoreError w"

definition kernel_modules :: "bytes list" where
  "kernel_modules = [''nfnetlink_queue'', ''nft_queue'', ''xt_NFQUEUE'']"

definition ensureNFQueueKernelSupport :: "'w host \<Rightarrow> go_context \<Rightarrow> 'w \<Rightarrow> 'w" where
  "ensureNFQueueKernelSupport h ctx w =
     (if LookPath h w ''modprobe'' \<noteq> None then w
      else fold (\<lambda>module w. snd (runCommand h ctx ''modprobe'' [module] True w)) kernel_modules w)"

fun normalized_from :: "bytes list \<Rightarrow> bytes set \<Rightarrow> bytes list" where
  "normalized_from [] seen = []"
| "normalized_from (chain # raw) seen =
     (let chain = normalizeChoice chain [] in
      if chain = [] then normalized_from raw seen
      else if chain \<in> seen then normalized_from raw seen
      else chain # normalized_from raw (insert chain seen))"

definition normalizedChains :: "bytes list \<Rightarrow> bytes list" where
  "normalizedChains raw = normalized_from raw {}"

section \<open>The nftables backend\<close>

abbreviation nl :: bytes where "nl \<equiv> [CHR 0x0A]"

definition nftBypass :: "bool \<Rightarrow> bytes" where
  "nftBypass failOpen = (if failOpen then '' bypass'' else [])"

definition nft_chain :: "NFQueueConfig \<Rightarrow> bytes \<Rightarrow> bytes" where
  "nft_chain cfg chain =
     (let queue = ''queue num '' @ decimal (unat (QueueNum cfg)) @ nftBypass (FailOpen cfg) @ nl in
      ''  chain '' @ chain @ '' {'' @ nl
      @ ''    type filter hook '' @ chain @ '' priority 0; policy accept;'' @ nl
      @ (if Capture cfg = ''all'' then ''    '' @ queue @ ''  }'' @ nl
         else ''    tcp dport { 80, 443 } '' @ queue @ ''    udp dport 53 '' @ queue @ ''  }'' @ nl))"

definition nft_script :: "NFQueueConfig \<Rightarrow> bytes" where
  "nft_script cfg =
     ''table inet middle_filter {'' @ nl @ concat (map (nft_chain cfg) (normalizedChains (Chains cfg))) @ ''}'' @ nl"

definition nft_delete_args :: "bytes list" where
  "nft_delete_args = [''delete'', ''table'', ''inet'', ''middle_filter'']"

definition nft_Cleanup :: "'w host \<Rightarrow> NFQueueConfig \<Rightarrow> go_context \<Rightarrow> 'w \<Rightarrow> goerror \<times> 'w" where
  "nft_Cleanup h cfg ctx w = runWithInput h ctx ''nft'' nft_delete_args [] True w"

definition nft_Install :: "'w host \<Rightarrow> NFQueueConfig \<Rightarrow> go_context \<Rightarrow> 'w \<Rightarrow> goerror \<times> 'w" where
  "nft_Install h cfg ctx w =
     (let w = ensureNFQueueKernelSupport h ctx w;
          w = snd (nft_Cleanup h cfg ctx w)
      in case runWithInput h ctx ''nft'' [''-f'', ''-''] (nft_script cfg) False w of
           (Some err, w) \<Rightarrow> (Some (''install nftables rules: '' @ err), w)
         | (None, w) \<Rightarrow> (None, w))"

section \<open>The iptables backends\<close>

record iptablesFirewall =
  ipt_cfg :: NFQueueConfig
  ipv4Bin :: bytes
  ipv6Bin :: bytes
  label :: bytes

definition queueArgs :: "iptablesFirewall \<Rightarrow> bytes list" where
  "queueArgs f =
     [''-j'', ''NFQUEUE'', ''--queue-num'', decimal (unat (QueueNum (ipt_cfg f)))]
     @ (if FailOpen (ipt_cfg f) then [''--queue-bypass''] else [])"

text \<open>The rules of one chain, without the operation and the chain, in the order they are inserted.\<close>

definition rule_specs :: "iptablesFirewall \<Rightarrow> bytes list list" where
  "rule_specs f =
     (if Capture (ipt_cfg f) = ''all'' then [queueArgs f]
      else map (\<lambda>port. [''-p'', ''tcp'', ''--dport'', port] @ queueArgs f) [''80'', ''443'']
           @ [[''-p'', ''udp'', ''--dport'', ''53''] @ queueArgs f])"

text \<open>The argument lists for operation \<open>op\<close> (\<open>-I\<close> or \<open>-D\<close>) in the order of the loops over chains and ports.\<close>

definition rule_args :: "bytes \<Rightarrow> iptablesFirewall \<Rightarrow> bytes list list" where
  "rule_args op f =
     concat (map (\<lambda>chain. map (\<lambda>spec. [op, ToUpper chain] @ spec) (rule_specs f))
       (normalizedChains (Chains (ipt_cfg f))))"

fun run_until_error :: "'w host \<Rightarrow> go_context \<Rightarrow> bytes \<Rightarrow> bytes list list \<Rightarrow> 'w \<Rightarrow> goerror \<times> 'w" where
  "run_until_error h ctx bin [] w = (None, w)"
| "run_until_error h ctx bin (args # argss) w =
     (case runCommand h ctx bin args False w of
        (Some err, w) \<Rightarrow> (Some err, w)
      | (None, w) \<Rightarrow> run_until_error h ctx bin argss w)"

text \<open>The loop of \<open>deleteIPTablesRule\<close>, with the number of rounds left.\<close>

fun delete_loop :: "'w host \<Rightarrow> go_context \<Rightarrow> bytes \<Rightarrow> bytes list \<Rightarrow> nat \<Rightarrow> 'w \<Rightarrow> 'w" where
  "delete_loop h ctx bin args 0 w = w"
| "delete_loop h ctx bin args (Suc n) w =
     (case runCommand h ctx bin args False w of
        (Some err, w) \<Rightarrow> w
      | (None, w) \<Rightarrow> delete_loop h ctx bin args n w)"

definition deleteIPTablesRule :: "'w host \<Rightarrow> go_context \<Rightarrow> bytes \<Rightarrow> bytes list \<Rightarrow> 'w \<Rightarrow> 'w" where
  "deleteIPTablesRule h ctx bin args w = delete_loop h ctx bin args 20 w"

definition cleanup_bin :: "'w host \<Rightarrow> iptablesFirewall \<Rightarrow> go_context \<Rightarrow> bytes \<Rightarrow> 'w \<Rightarrow> 'w" where
  "cleanup_bin h f ctx bin w =
     (if LookPath h w bin \<noteq> None then w
      else fold (deleteIPTablesRule h ctx bin) (rule_args ''-D'' f) w)"

definition iptables_Cleanup :: "'w host \<Rightarrow> iptablesFirewall \<Rightarrow> go_context \<Rightarrow> 'w \<Rightarrow> goerror \<times> 'w" where
  "iptables_Cleanup h f ctx w = (None, fold (cleanup_bin h f ctx) [ipv4Bin f, ipv6Bin f] w)"

fun install_bins :: "'w host \<Rightarrow> iptablesFirewall \<Rightarrow> go_context \<Rightarrow> bytes list \<Rightarrow> 'w \<Rightarrow> goerror \<times> 'w" where
  "install_bins h f ctx [] w = (None, w)"
| "install_bins h f ctx (bin # bins) w =
     (case LookPath h w bin of
        Some err \<Rightarrow> if bin = ipv6Bin f then install_bins h f ctx bins w else (Some err, w)
      | None \<Rightarrow>
          (case run_until_error h ctx bin (rule_args ''-I'' f) w of
             (Some err, w) \<Rightarrow> (Some err, w)
           | (None, w) \<Rightarrow> install_bins h f ctx bins w))"

definition iptables_Install :: "'w host \<Rightarrow> iptablesFirewall \<Rightarrow> go_context \<Rightarrow> 'w \<Rightarrow> goerror \<times> 'w" where
  "iptables_Install h f ctx w =
     (let w = ensureNFQueueKernelSupport h ctx w;
          w = snd (iptables_Cleanup h f ctx w)
      in install_bins h f ctx [ipv4Bin f, ipv6Bin f] w)"

section \<open>The managers and their dispatch\<close>

text \<open>
  The interface \<open>FirewallManager\<close> has three implementations; the candidates of the automatic one are
  always nftables or iptables backends.
\<close>

datatype backend = Nft NFQueueConfig | Iptables iptablesFirewall

datatype FirewallManager = Plain backend | Auto (candidates: "backend list") (active: "backend option")

definition backend_Install :: "'w host \<Rightarrow> backend \<Rightarrow> go_context \<Rightarrow> 'w \<Rightarrow> goerror \<times> 'w" where
  "backend_Install h b = (case b of Nft cfg \<Rightarrow> nft_Install h cfg | Iptables f \<Rightarrow> iptables_Install h f)"

definition backend_Cleanup :: "'w host \<Rightarrow> backend \<Rightarrow> go_context \<Rightarrow> 'w \<Rightarrow> goerror \<times> 'w" where
  "backend_Cleanup h b = (case b of Nft cfg \<Rightarrow> nft_Cleanup h cfg | Iptables f \<Rightarrow> iptables_Cleanup h f)"

text \<open>
  The loops of \<open>autoFirewall\<close>, over the two operations of the interface. The first returns the
  candidate that was installed, or the messages of all failures.
\<close>

fun auto_install ::
  "('b \<Rightarrow> go_context \<Rightarrow> 'w \<Rightarrow> goerror \<times> 'w) \<Rightarrow> ('b \<Rightarrow> go_context \<Rightarrow> 'w \<Rightarrow> goerror \<times> 'w)
   \<Rightarrow> go_context \<Rightarrow> 'b list \<Rightarrow> bytes list \<Rightarrow> 'w \<Rightarrow> (bytes list + 'b) \<times> 'w" where
  "auto_install inst clean ctx [] errs w = (Inl errs, w)"
| "auto_install inst clean ctx (b # bs) errs w =
     (case inst b ctx w of
        (Some err, w) \<Rightarrow> auto_install inst clean ctx bs (errs @ [err]) (snd (clean b Background w))
      | (None, w) \<Rightarrow> (Inr b, w))"

definition auto_cleanup ::
  "('b \<Rightarrow> go_context \<Rightarrow> 'w \<Rightarrow> goerror \<times> 'w) \<Rightarrow> go_context \<Rightarrow> 'b list \<Rightarrow> 'w \<Rightarrow> 'w" where
  "auto_cleanup clean ctx bs w = fold (\<lambda>b w. snd (clean b ctx w)) bs w"

definition Install :: "'w host \<Rightarrow> go_context \<Rightarrow> FirewallManager \<Rightarrow> 'w \<Rightarrow> goerror \<times> FirewallManager \<times> 'w" where
  "Install h ctx m w =
     (case m of
        Plain b \<Rightarrow> (case backend_Install h b ctx w of (err, w) \<Rightarrow> (err, m, w))
      | Auto cs act \<Rightarrow>
          (case auto_install (backend_Install h) (backend_Cleanup h) ctx cs [] w of
             (Inr b, w) \<Rightarrow> (None, Auto cs (Some b), w)
           | (Inl errs, w) \<Rightarrow> (Some (''all firewall backends failed: '' @ Join errs ''; ''), m, w)))"

definition Cleanup :: "'w host \<Rightarrow> go_context \<Rightarrow> FirewallManager \<Rightarrow> 'w \<Rightarrow> goerror \<times> FirewallManager \<times> 'w" where
  "Cleanup h ctx m w =
     (case m of
        Plain b \<Rightarrow> (case backend_Cleanup h b ctx w of (err, w) \<Rightarrow> (err, m, w))
      | Auto cs act \<Rightarrow> (None, Auto cs None, auto_cleanup (backend_Cleanup h) ctx cs w))"

definition iptables_backend :: "NFQueueConfig \<Rightarrow> backend" where
  "iptables_backend cfg =
     Iptables \<lparr>ipt_cfg = cfg, ipv4Bin = ''iptables'', ipv6Bin = ''ip6tables'', label = ''iptables''\<rparr>"

definition iptables_legacy_backend :: "NFQueueConfig \<Rightarrow> backend" where
  "iptables_legacy_backend cfg =
     Iptables \<lparr>ipt_cfg = cfg, ipv4Bin = ''iptables-legacy'', ipv6Bin = ''ip6tables-legacy'',
               label = ''iptables-legacy''\<rparr>"

text \<open>
  The errors of \<open>newFirewallManager\<close>: no tool for the automatic backend, the tool of the chosen
  backend missing (with the message of \<open>LookPath\<close>), or a name that is no backend. The result
  \<open>nil, nil\<close> is \<^term>\<open>Inr None\<close>.
\<close>

datatype firewall_error = NoToolFound | ToolNotFound bytes bytes | UnknownBackend bytes

definition newFirewallManager ::
  "'w host \<Rightarrow> NFQueueConfig \<Rightarrow> 'w \<Rightarrow> firewall_error + FirewallManager option" where
  "newFirewallManager h cfg w =
     (if \<not> InstallRules cfg then Inr None
      else if FirewallBackend cfg \<in> {''none'', ''disabled''} then Inr None
      else if FirewallBackend cfg = ''auto'' then
        (let cs = (if LookPath h w ''nft'' = None then [Nft cfg] else [])
                  @ (if LookPath h w ''iptables'' = None then [iptables_backend cfg] else [])
                  @ (if LookPath h w ''iptables-legacy'' = None then [iptables_legacy_backend cfg] else [])
         in if cs = [] then Inl NoToolFound
            else Inr (Some (Auto cs None)))
      else
        (let backend = (if FirewallBackend cfg = ''nft'' then ''nftables'' else FirewallBackend cfg) in
         if backend = ''nftables'' then
           (case LookPath h w ''nft'' of
              Some err \<Rightarrow> Inl (ToolNotFound ''nft'' err)
            | None \<Rightarrow> Inr (Some (Plain (Nft cfg))))
         else if backend = ''iptables'' then
           (case LookPath h w ''iptables'' of
              Some err \<Rightarrow> Inl (ToolNotFound ''iptables'' err)
            | None \<Rightarrow> Inr (Some (Plain (iptables_backend cfg))))
         else if backend = ''iptables-legacy'' then
           (case LookPath h w ''iptables-legacy'' of
              Some err \<Rightarrow> Inl (ToolNotFound ''iptables-legacy'' err)
            | None \<Rightarrow> Inr (Some (Plain (iptables_legacy_backend cfg))))
         else Inl (UnknownBackend (FirewallBackend cfg))))"

text \<open>The manager of the builds for other systems.\<close>

definition newFirewallManager_other :: "NFQueueConfig \<Rightarrow> bytes + FirewallManager option" where
  "newFirewallManager_other cfg = Inl ''firewall management is only supported on Linux''"

definition nfqueue_hint :: bytes where
  "nfqueue_hint = ''; kernel NFQUEUE support appears unavailable. This engine requires CONFIG_NETFILTER_NETLINK_QUEUE plus nft_queue or xt_NFQUEUE support. Use a kernel/VPS image that provides nfnetlink_queue/xt_NFQUEUE, or switch to a non-NFQUEUE engine such as a future TUN/AF_XDP path''"

definition missingNFQueue :: "bytes \<Rightarrow> bool" where
  "missingNFQueue msg \<longleftrightarrow>
     (let lower = ToLower msg in
      Contains lower ''nfqueue revision 0 not supported'' \<or> Contains lower ''nfnetlink_queue''
      \<or> Contains lower ''xt_nfqueue''
      \<or> Contains lower ''queue num'' \<and> Contains lower ''no such file or directory''
      \<or> Contains lower ''-j nfqueue'' \<and> Contains lower ''no such file or directory'')"

definition explainNFQueueFirewallError :: "bytes \<Rightarrow> bytes" where
  "explainNFQueueFirewallError err = (if missingNFQueue err then err @ nfqueue_hint else err)"

section \<open>The interface\<close>

type_synonym command = "bytes \<times> bytes list \<times> bytes"

text \<open>A property of the world that the commands of a set do not change.\<close>

definition kept_by :: "'w host \<Rightarrow> command set \<Rightarrow> ('w \<Rightarrow> bool) \<Rightarrow> bool" where
  "kept_by h cmds P \<longleftrightarrow>
     (\<forall>ctx name args stdin w. (name, args, stdin) \<in> cmds \<longrightarrow> P w \<longrightarrow> P (snd (RunCmd h ctx name args stdin w)))"

lemma kept_by_mono: "kept_by h B P \<Longrightarrow> A \<subseteq> B \<Longrightarrow> kept_by h A P"
  by (auto simp: kept_by_def)

locale firewall_backends =
  fixes h :: "'w host"
    and inst clean :: "'b \<Rightarrow> go_context \<Rightarrow> 'w \<Rightarrow> goerror \<times> 'w"
    and owns :: "'b \<Rightarrow> command set"
  assumes clean_no_error: "fst (clean b ctx w) = None"
    and inst_frame: "kept_by h (owns b) P \<Longrightarrow> P w \<Longrightarrow> P (snd (inst b ctx w))"
    and clean_frame: "kept_by h (owns b) P \<Longrightarrow> P w \<Longrightarrow> P (snd (clean b ctx w))"
begin

lemma clean_eq: "clean b ctx w = (None, snd (clean b ctx w))"
  using clean_no_error [of b ctx w] by (cases "clean b ctx w") simp

lemma auto_install_frame:
  "kept_by h (\<Union> (owns ` set bs)) P \<Longrightarrow> P w \<Longrightarrow> P (snd (auto_install inst clean ctx bs errs w))"
proof (induction bs arbitrary: errs w)
  case (Cons b bs)
  have kb: "kept_by h (owns b) P" "kept_by h (\<Union> (owns ` set bs)) P"
    using Cons.prems(1) by (auto intro: kept_by_mono)
  show ?case
  proof (cases "inst b ctx w")
    case (Pair e w')
    then have "P w'" using inst_frame [OF kb(1) Cons.prems(2), of ctx] by simp
    then show ?thesis
      using Pair clean_frame [OF kb(1)] Cons.IH [OF kb(2)] by (cases e) auto
  qed
qed simp

lemma auto_cleanup_frame:
  "kept_by h (\<Union> (owns ` set bs)) P \<Longrightarrow> P w \<Longrightarrow> P (auto_cleanup clean ctx bs w)"
proof (induction bs arbitrary: w)
  case (Cons b bs)
  have "kept_by h (owns b) P" "kept_by h (\<Union> (owns ` set bs)) P"
    using Cons.prems(1) by (auto intro: kept_by_mono)
  then have "P (auto_cleanup clean ctx bs (snd (clean b ctx w)))"
    using Cons.IH clean_frame [where P = P] Cons.prems(2) by blast
  then show ?case by (simp add: auto_cleanup_def)
qed (simp add: auto_cleanup_def)

end

section \<open>The commands of the backends\<close>

definition modprobe_cmds :: "command set" where
  "modprobe_cmds = {(''modprobe'', [m], []) | m. m \<in> set kernel_modules}"

definition backend_cmds :: "backend \<Rightarrow> command set" where
  "backend_cmds b = modprobe_cmds \<union>
     (case b of
        Nft cfg \<Rightarrow> {(''nft'', nft_delete_args, []), (''nft'', [''-f'', ''-''], nft_script cfg)}
      | Iptables f \<Rightarrow>
          {(bin, args, []) | bin args. bin \<in> {ipv4Bin f, ipv6Bin f}
             \<and> args \<in> set (rule_args ''-I'' f) \<union> set (rule_args ''-D'' f)})"

definition manager_cmds :: "FirewallManager \<Rightarrow> command set" where
  "manager_cmds m = (case m of Plain b \<Rightarrow> backend_cmds b | Auto cs act \<Rightarrow> \<Union> (backend_cmds ` set cs))"

lemma runWithInput_frame:
  "kept_by h cmds P \<Longrightarrow> (name, args, stdin) \<in> cmds \<Longrightarrow> P w \<Longrightarrow> P (snd (runWithInput h ctx name args stdin ign w))"
proof -
  assume k: "kept_by h cmds P" "(name, args, stdin) \<in> cmds" "P w"
  then have "P (snd (RunCmd h ctx name args stdin w))" by (auto simp: kept_by_def)
  then show ?thesis
    by (auto simp: runWithInput_def Let_def split: prod.splits option.splits)
qed

lemma runCommand_frame:
  "kept_by h cmds P \<Longrightarrow> (name, args, []) \<in> cmds \<Longrightarrow> P w \<Longrightarrow> P (snd (runCommand h ctx name args ign w))"
  by (simp add: runCommand_def runWithInput_frame)

lemma fold_frame: "(\<And>x w. x \<in> set xs \<Longrightarrow> P w \<Longrightarrow> P (f x w)) \<Longrightarrow> P w \<Longrightarrow> P (fold f xs w)"
  by (induction xs arbitrary: w) auto

lemma ensure_frame: "kept_by h cmds P \<Longrightarrow> modprobe_cmds \<subseteq> cmds \<Longrightarrow> P w \<Longrightarrow> P (ensureNFQueueKernelSupport h ctx w)"
proof -
  assume k: "kept_by h cmds P" "modprobe_cmds \<subseteq> cmds" "P w"
  then have "(''modprobe'', [m], []) \<in> cmds" if "m \<in> set kernel_modules" for m
    using that by (auto simp: modprobe_cmds_def)
  then have "P (fold (\<lambda>module w. snd (runCommand h ctx ''modprobe'' [module] True w)) kernel_modules w)"
    using runCommand_frame [OF k(1)] k(3) by (intro fold_frame [where P = P]) blast+
  then show ?thesis using k(3) by (simp add: ensureNFQueueKernelSupport_def)
qed

lemma run_until_error_frame:
  "kept_by h cmds P \<Longrightarrow> \<forall>args \<in> set argss. (bin, args, []) \<in> cmds \<Longrightarrow> P w \<Longrightarrow>
   P (snd (run_until_error h ctx bin argss w))"
proof (induction argss arbitrary: w)
  case (Cons args argss)
  then have "P (snd (runCommand h ctx bin args False w))" by (auto intro: runCommand_frame)
  with Cons show ?case by (auto split: prod.split option.split)
qed simp

lemma delete_loop_frame:
  "kept_by h cmds P \<Longrightarrow> (bin, args, []) \<in> cmds \<Longrightarrow> P w \<Longrightarrow> P (delete_loop h ctx bin args n w)"
proof (induction n arbitrary: w)
  case (Suc n)
  then have "P (snd (runCommand h ctx bin args False w))" by (auto intro: runCommand_frame)
  with Suc show ?case by (auto split: prod.split option.split)
qed simp

lemma install_bins_frame:
  "kept_by h cmds P \<Longrightarrow> \<forall>bin \<in> set bins. \<forall>args \<in> set (rule_args ''-I'' f). (bin, args, []) \<in> cmds \<Longrightarrow> P w \<Longrightarrow>
   P (snd (install_bins h f ctx bins w))"
proof (induction bins arbitrary: w)
  case (Cons bin bins)
  then have "P (snd (run_until_error h ctx bin (rule_args ''-I'' f) w))"
    by (auto intro: run_until_error_frame)
  with Cons show ?case by (auto split: prod.split option.split)
qed simp

lemma iptables_Cleanup_frame:
  assumes "kept_by h cmds P" "P w"
    and "\<And>bin args. bin \<in> {ipv4Bin f, ipv6Bin f} \<Longrightarrow> args \<in> set (rule_args ''-D'' f) \<Longrightarrow> (bin, args, []) \<in> cmds"
  shows "P (snd (iptables_Cleanup h f ctx w))"
  unfolding iptables_Cleanup_def snd_conv
proof (rule fold_frame [where P = P])
  fix bin w'
  assume bin: "bin \<in> set [ipv4Bin f, ipv6Bin f]" "P w'"
  have "P (fold (deleteIPTablesRule h ctx bin) (rule_args ''-D'' f) w')"
  proof (rule fold_frame [where P = P])
    fix args w'
    assume "args \<in> set (rule_args ''-D'' f)" "P w'"
    with bin(1) assms(3) show "P (deleteIPTablesRule h ctx bin args w')"
      unfolding deleteIPTablesRule_def by (intro delete_loop_frame [OF assms(1)]) auto
  qed (rule bin(2))
  with bin(2) show "P (cleanup_bin h f ctx bin w')" by (simp add: cleanup_bin_def)
qed (rule assms(2))

interpretation be: firewall_backends h "backend_Install h" "backend_Cleanup h" backend_cmds for h
proof
  fix b ctx w and P :: "'a \<Rightarrow> bool"
  show "fst (backend_Cleanup h b ctx w) = None"
    by (auto simp: backend_Cleanup_def nft_Cleanup_def iptables_Cleanup_def runWithInput_def
        split: backend.split prod.split option.split)
  assume k: "kept_by h (backend_cmds b) P" "P w"
  show c: "P (snd (backend_Cleanup h b ctx w))"
    by (cases b) (auto simp: backend_Cleanup_def nft_Cleanup_def backend_cmds_def
        intro!: runWithInput_frame [OF k(1) _ k(2)] iptables_Cleanup_frame [OF k])
  have e: "P (ensureNFQueueKernelSupport h ctx w)"
    by (rule ensure_frame [OF k(1) _ k(2)]) (simp add: backend_cmds_def)
  show "P (snd (backend_Install h b ctx w))"
  proof (cases b)
    case (Nft cfg)
    let ?w = "snd (nft_Cleanup h cfg ctx (ensureNFQueueKernelSupport h ctx w))"
    have "P ?w"
      unfolding nft_Cleanup_def by (rule runWithInput_frame [OF k(1) _ e]) (simp add: Nft backend_cmds_def)
    then have "P (snd (runWithInput h ctx ''nft'' [''-f'', ''-''] (nft_script cfg) False ?w))"
      by (intro runWithInput_frame [OF k(1)]) (simp_all add: Nft backend_cmds_def)
    then show ?thesis
      using Nft by (auto simp: backend_Install_def nft_Install_def Let_def split: prod.split option.split)
  next
    case (Iptables f)
    have "P (snd (iptables_Cleanup h f ctx (ensureNFQueueKernelSupport h ctx w)))"
      by (rule iptables_Cleanup_frame [OF k(1) e]) (auto simp: Iptables backend_cmds_def)
    then have "P (snd (install_bins h f ctx [ipv4Bin f, ipv6Bin f]
        (snd (iptables_Cleanup h f ctx (ensureNFQueueKernelSupport h ctx w)))))"
      by (intro install_bins_frame [OF k(1)]) (auto simp: Iptables backend_cmds_def)
    then show ?thesis using Iptables by (simp add: backend_Install_def iptables_Install_def Let_def)
  qed
qed

interpretation nc: dedupe_loop "\<lambda>c. normalizeChoice c []" normalized_from
  by unfold_locales (auto simp: Let_def)

section \<open>Choosing and running a manager\<close>

lemma set_normalizedChains: "set (normalizedChains cs) = (\<lambda>c. normalizeChoice c []) ` set cs - {[]}"
  by (simp add: normalizedChains_def nc.set_loop)

lemma distinct_normalizedChains: "distinct (normalizedChains cs)"
  by (simp add: normalizedChains_def nc.distinct_loop)

lemma validate_None_iff:
  "validateNFQueueConfig cfg = None \<longleftrightarrow>
     FirewallBackend cfg \<in> {''auto'', ''nftables'', ''nft'', ''iptables'', ''iptables-legacy'', ''none'', ''disabled''}
     \<and> Capture cfg \<in> {''l7'', ''all''} \<and> DNSMode cfg \<in> {''nxdomain'', ''drop''}
     \<and> (\<forall>c \<in> set (Chains cfg). normalizeChoice c [] \<in> {''input'', ''output'', ''forward''})"
proof (cases "find (\<lambda>c. normalizeChoice c [] \<notin> {''input'', ''output'', ''forward''}) (Chains cfg)")
  case None
  then have "\<forall>c \<in> set (Chains cfg). normalizeChoice c [] \<in> {''input'', ''output'', ''forward''}"
    unfolding find_None_iff by blast
  with None show ?thesis unfolding validateNFQueueConfig_def by (simp del: insert_iff empty_iff)
next
  case (Some c)
  then have "c \<in> set (Chains cfg)" "normalizeChoice c [] \<notin> {''input'', ''output'', ''forward''}"
    unfolding find_Some_iff by auto
  with Some show ?thesis unfolding validateNFQueueConfig_def by (auto simp del: insert_iff empty_iff)
qed

lemma valid_chains:
  "validateNFQueueConfig cfg = None \<Longrightarrow> set (normalizedChains (Chains cfg)) \<subseteq> {''input'', ''output'', ''forward''}"
  unfolding validate_None_iff set_normalizedChains by blast

text \<open>The tool a backend needs to be usable.\<close>

definition backend_tool :: "backend \<Rightarrow> bytes" where
  "backend_tool b = (case b of Nft cfg \<Rightarrow> ''nft'' | Iptables f \<Rightarrow> ipv4Bin f)"

definition manager_backends :: "FirewallManager \<Rightarrow> backend list" where
  "manager_backends m = (case m of Plain b \<Rightarrow> [b] | Auto cs act \<Rightarrow> cs)"

text \<open>
  A run of the automatic manager through candidates that all fail, each cleaned up under the
  background context before the next is tried.
\<close>

inductive failed_all :: "'w host \<Rightarrow> go_context \<Rightarrow> backend list \<Rightarrow> bytes list \<Rightarrow> 'w \<Rightarrow> 'w \<Rightarrow> bool"
  for h ctx where
  failed_Nil: "failed_all h ctx [] [] w w"
| failed_Cons: "backend_Install h b ctx w = (Some e, w1) \<Longrightarrow> backend_Cleanup h b Background w1 = (x, w2) \<Longrightarrow>
    failed_all h ctx bs es w2 w3 \<Longrightarrow> failed_all h ctx (b # bs) (e # es) w w3"

inductive_simps failed_all_simps [simp]:
  "failed_all h ctx [] es w w'"
  "failed_all h ctx (b # bs) es w w'"

lemma auto_install_skip:
  "failed_all h ctx pre es w w0 \<Longrightarrow>
   auto_install (backend_Install h) (backend_Cleanup h) ctx (pre @ bs) errs w
   = auto_install (backend_Install h) (backend_Cleanup h) ctx bs (errs @ es) w0"
  by (induction arbitrary: errs rule: failed_all.induct) auto

lemma auto_install_reached:
  assumes "auto_install (backend_Install h) (backend_Cleanup h) ctx bs errs w = (r, w')"
  shows "(\<exists>es. failed_all h ctx bs es w w' \<and> r = Inl (errs @ es))
    \<or> (\<exists>pre c post es w0. bs = pre @ c # post \<and> failed_all h ctx pre es w w0
         \<and> backend_Install h c ctx w0 = (None, w') \<and> r = Inr c)"
  using assms
proof (induction bs arbitrary: errs w)
  case (Cons b bs)
  obtain e w1 where i: "backend_Install h b ctx w = (e, w1)" by fastforce
  obtain x w2 where c: "backend_Cleanup h b Background w1 = (x, w2)" by fastforce
  show ?case
  proof (cases e)
    case None
    with i Cons.prems have "[b] @ bs = [] @ b # bs" "backend_Install h b ctx w = (None, w')" "r = Inr b" by auto
    then show ?thesis by (metis append_Cons append_Nil failed_Nil)
  next
    case (Some err)
    note step = failed_Cons [OF i [unfolded Some] c]
    have "auto_install (backend_Install h) (backend_Cleanup h) ctx bs (errs @ [err]) w2 = (r, w')"
      using Cons.prems i c Some by simp
    from Cons.IH [OF this] show ?thesis
    proof (elim disjE exE conjE)
      fix es assume "failed_all h ctx bs es w2 w'" "r = Inl ((errs @ [err]) @ es)"
      then show ?thesis using step by fastforce
    next
      fix pre c post es w0
      assume "bs = pre @ c # post" "failed_all h ctx pre es w2 w0" "backend_Install h c ctx w0 = (None, w')" "r = Inr c"
      then show ?thesis using step by (metis append_Cons)
    qed
  qed
qed auto

end
