(* ===== verification/Engine.thy ===== *)
theory Engine
  imports Classifier Firewall
begin

text \<open>
  The NFQUEUE engine of \<open>engine.go\<close>, \<open>nfqueue_engine_linux.go\<close> and \<open>engine_other.go\<close>: the counters,
  the packet callback, the forged DNS answers and the life cycle of a run. The library go-nfqueue and
  the sockets of the operating system are the parameter \<open>nfq_lib\<close>, over the same type of worlds as
  the firewall's \<open>host\<close>. Log lines are left out.

  A callback runs in a goroutine of the library: a panic there ends the process at once, without the
  deferred calls of \<open>Run\<close>. The callback therefore returns \<^term>\<open>Inl\<close> of the state at a panic and
  \<^term>\<open>Inr\<close> of the state at its return.
\<close>

section \<open>The outside world\<close>

datatype nf_verdict = NfAccept | NfDrop

datatype sockopt = IP_FREEBIND | IPV6_FREEBIND

text \<open>
  What the packets copied to the program contain, one of the constants of the library. The flags of the
  configuration are a truth value, since only the one for fail-open is used; a duration is in
  nanoseconds.
\<close>

datatype copy_mode = NfQnlCopyNone | NfQnlCopyMeta | NfQnlCopyPacket

record nfq_config =
  nq_NfQueue :: "16 word"
  nq_MaxPacketLen :: "32 word"
  nq_MaxQueueLen :: "32 word"
  nq_Copymode :: copy_mode
  nq_FailOpenFlag :: bool
  nq_AfFamily :: "8 word"
  nq_WriteTimeout :: int

record attribute =
  PacketID :: "32 word option"
  Payload :: "slice option"

text \<open>
  An address of a socket is an IP in the form of \<open>net.IP\<close> and a port. \<open>ListenPacket\<close> gets the network,
  the option its control function sets, and the address to bind to.
\<close>

record 'w nfq_lib =
  nfq_Open :: "nfq_config \<Rightarrow> 'w \<Rightarrow> goerror \<times> 'w"
  nfq_SetNoENOBUFS :: "'w \<Rightarrow> goerror \<times> 'w"
  nfq_Register :: "go_context \<Rightarrow> 'w \<Rightarrow> goerror \<times> 'w"
  nfq_SetVerdict :: "32 word \<Rightarrow> nf_verdict \<Rightarrow> 'w \<Rightarrow> goerror \<times> 'w"
  nfq_Close :: "'w \<Rightarrow> goerror \<times> 'w"
  ListenPacket :: "bytes \<Rightarrow> sockopt \<Rightarrow> bytes \<times> nat \<Rightarrow> 'w \<Rightarrow> goerror \<times> 'w"
  WriteTo :: "bytes \<Rightarrow> bytes \<times> nat \<Rightarrow> 'w \<Rightarrow> goerror \<times> 'w"
  CloseConn :: "'w \<Rightarrow> 'w"

section \<open>Counters\<close>

record atomicStats =
  st_total :: "64 word"
  st_passed :: "64 word"
  st_httpBlocked :: "64 word"
  st_tlsBlocked :: "64 word"
  st_dnsPoisoned :: "64 word"
  st_dnsBlocked :: "64 word"
  st_ipBlocked :: "64 word"
  st_ipPortBlocked :: "64 word"
  st_malformed :: "64 word"

definition zero_stats :: atomicStats where
  "zero_stats = \<lparr>st_total = 0, st_passed = 0, st_httpBlocked = 0, st_tlsBlocked = 0, st_dnsPoisoned = 0,
     st_dnsBlocked = 0, st_ipBlocked = 0, st_ipPortBlocked = 0, st_malformed = 0\<rparr>"

record EngineStats =
  Total :: "64 word"
  Passed :: "64 word"
  HTTPBlocked :: "64 word"
  TLSBlocked :: "64 word"
  DNSPoisoned :: "64 word"
  DNSBlocked :: "64 word"
  IPBlocked :: "64 word"
  IPPortBlocked :: "64 word"
  Malformed :: "64 word"

definition count_reason :: "blockReason \<Rightarrow> atomicStats \<Rightarrow> atomicStats" where
  "count_reason reason s =
     (case reason of
        reasonHTTP \<Rightarrow> s\<lparr>st_httpBlocked := st_httpBlocked s + 1\<rparr>
      | reasonTLS \<Rightarrow> s\<lparr>st_tlsBlocked := st_tlsBlocked s + 1\<rparr>
      | reasonDNSPoison \<Rightarrow> s\<lparr>st_dnsPoisoned := st_dnsPoisoned s + 1\<rparr>
      | reasonDNSDrop \<Rightarrow> s\<lparr>st_dnsBlocked := st_dnsBlocked s + 1\<rparr>
      | reasonIP \<Rightarrow> s\<lparr>st_ipBlocked := st_ipBlocked s + 1\<rparr>
      | reasonIPPort \<Rightarrow> s\<lparr>st_ipPortBlocked := st_ipPortBlocked s + 1\<rparr>
      | reasonMalformed \<Rightarrow> s\<lparr>st_malformed := st_malformed s + 1\<rparr>
      | reasonNone \<Rightarrow> s)"

definition recordDecision :: "packetVerdict \<Rightarrow> atomicStats \<Rightarrow> atomicStats" where
  "recordDecision decision s =
     (let s = count_reason (Reason decision) s in
      if Kind decision = verdictAccept then s\<lparr>st_passed := st_passed s + 1\<rparr> else s)"

section \<open>The engine\<close>

record nfQueueEngine =
  e_cfg :: AppConfig
  e_rules :: RuleSet
  e_classifier :: packetClassifier
  e_firewall :: "FirewallManager option"
  e_nfq :: bool
  e_stats :: atomicStats

text \<open>The field \<open>e_nfq\<close> tells whether the pointer \<open>nfq\<close> is set.\<close>

datatype engine_error =
    RulesError config_error
  | FirewallError firewall_error
  | EngineNotImplemented bytes
  | UnknownEngine bytes
  | NotLinux

definition newNFQueueEngine :: "'w host \<Rightarrow> AppConfig \<Rightarrow> 'w \<Rightarrow> engine_error + nfQueueEngine" where
  "newNFQueueEngine h cfg w =
     (case compileRuleSet (Rules cfg) of
        Inl e \<Rightarrow> Inl (RulesError e)
      | Inr rules \<Rightarrow>
          (case newFirewallManager h (NFQueue cfg) w of
             Inl e \<Rightarrow> Inl (FirewallError e)
           | Inr firewall \<Rightarrow>
               Inr \<lparr>e_cfg = cfg, e_rules = rules,
                    e_classifier = newPacketClassifier rules (DNSMode (NFQueue cfg)),
                    e_firewall = firewall, e_nfq = False, e_stats = zero_stats\<rparr>))"

definition newNFQueueEngine_other :: "AppConfig \<Rightarrow> engine_error + nfQueueEngine" where
  "newNFQueueEngine_other cfg = Inl NotLinux"

definition newEngine :: "'w host \<Rightarrow> AppConfig \<Rightarrow> 'w \<Rightarrow> engine_error + nfQueueEngine" where
  "newEngine h cfg w =
     (if Engine cfg = ''nfqueue'' then newNFQueueEngine h cfg w
      else if Engine cfg \<in> {''af_xdp'', ''xdp_fast_path''} then Inl (EngineNotImplemented (Engine cfg))
      else Inl (UnknownEngine (Engine cfg)))"

definition Stats :: "nfQueueEngine \<Rightarrow> EngineStats" where
  "Stats e =
     \<lparr>Total = st_total (e_stats e), Passed = st_passed (e_stats e), HTTPBlocked = st_httpBlocked (e_stats e),
      TLSBlocked = st_tlsBlocked (e_stats e), DNSPoisoned = st_dnsPoisoned (e_stats e),
      DNSBlocked = st_dnsBlocked (e_stats e), IPBlocked = st_ipBlocked (e_stats e),
      IPPortBlocked = st_ipPortBlocked (e_stats e), Malformed = st_malformed (e_stats e)\<rparr>"

definition Close :: "'w nfq_lib \<Rightarrow> nfQueueEngine \<Rightarrow> 'w \<Rightarrow> goerror \<times> 'w" where
  "Close nf e w = (if e_nfq e then nfq_Close nf w else (None, w))"

section \<open>Forged DNS answers\<close>

text \<open>\<open>net.IPv4\<close> gives the 16-byte form of an IPv4 address.\<close>

definition IPv4_bytes :: "bytes \<Rightarrow> bytes" where
  "IPv4_bytes v4 = replicate 10 (CHR 0x00) @ [CHR 0xFF, CHR 0xFF] @ v4"

definition netIPFromAddr :: "addr \<Rightarrow> bytes" where
  "netIPFromAddr a =
     (case Unmap a of
        Addr4 w \<Rightarrow> IPv4_bytes (As4 w)
      | Addr6 w _ \<Rightarrow> As16 w
      | AddrZero \<Rightarrow> As16 0)"

datatype send_error = EmptyResponse | FamilyMismatch addr addr | NetError bytes

definition sendDNSResponse :: "'w nfq_lib \<Rightarrow> dnsResponse \<Rightarrow> 'w \<Rightarrow> send_error option \<times> 'w" where
  "sendDNSResponse nf resp w =
     (if resp_Payload resp = [] then (Some EmptyResponse, w)
      else if Is4 (resp_SrcIP resp) \<noteq> Is4 (resp_DstIP resp)
      then (Some (FamilyMismatch (resp_SrcIP resp) (resp_DstIP resp)), w)
      else
        (let network = (if Is4 (resp_SrcIP resp) then ''udp4'' else ''udp6'');
             opt = (if Is4 (resp_SrcIP resp) then IP_FREEBIND else IPV6_FREEBIND)
         in case ListenPacket nf network opt (netIPFromAddr (resp_SrcIP resp), unat (resp_SrcPort resp)) w of
              (Some err, w) \<Rightarrow> (Some (NetError err), w)
            | (None, w) \<Rightarrow>
                (case WriteTo nf (resp_Payload resp) (netIPFromAddr (resp_DstIP resp), unat (resp_DstPort resp)) w of
                   (err, w) \<Rightarrow> (map_option NetError err, CloseConn nf w))))"

section \<open>The packet callback\<close>

definition act_on :: "'w nfq_lib \<Rightarrow> 32 word \<Rightarrow> packetVerdict \<Rightarrow> 'w \<Rightarrow> 'w" where
  "act_on nf pid decision w =
     (case Kind decision of
        verdictDrop \<Rightarrow>
          (let w = (case DNSResponse decision of None \<Rightarrow> w | Some resp \<Rightarrow> snd (sendDNSResponse nf resp w))
           in snd (nfq_SetVerdict nf pid NfDrop w))
      | verdictAccept \<Rightarrow> snd (nfq_SetVerdict nf pid NfAccept w))"

definition handlePacket ::
  "gopacket \<Rightarrow> 'w nfq_lib \<Rightarrow> attribute \<Rightarrow> nfQueueEngine \<times> 'w \<Rightarrow> (nfQueueEngine \<times> 'w) + (nfQueueEngine \<times> 'w)" where
  "handlePacket gp nf attr = (\<lambda>(e, w).
     (case PacketID attr of
        None \<Rightarrow> Inr (e\<lparr>e_stats := (e_stats e)\<lparr>st_malformed := st_malformed (e_stats e) + 1\<rparr>\<rparr>, w)
      | Some pid \<Rightarrow>
          (case Payload attr of
             None \<Rightarrow>
               Inr (e\<lparr>e_stats := (e_stats e)\<lparr>st_malformed := st_malformed (e_stats e) + 1\<rparr>\<rparr>,
                    snd (nfq_SetVerdict nf pid NfAccept w))
           | Some payload \<Rightarrow>
               (let e = e\<lparr>e_stats := (e_stats e)\<lparr>st_total := st_total (e_stats e) + 1\<rparr>\<rparr> in
                case Classify gp (e_classifier e) payload of
                  None \<Rightarrow> Inl (e, w)
                | Some decision \<Rightarrow>
                    Inr (e\<lparr>e_stats := recordDecision decision (e_stats e)\<rparr>, act_on nf pid decision w)))))"

section \<open>A run\<close>

text \<open>The packets the library delivers between the registration and the end of the context.\<close>

fun handle_all ::
  "gopacket \<Rightarrow> 'w nfq_lib \<Rightarrow> attribute list \<Rightarrow> nfQueueEngine \<times> 'w \<Rightarrow> (nfQueueEngine \<times> 'w) + (nfQueueEngine \<times> 'w)" where
  "handle_all gp nf [] s = Inr s"
| "handle_all gp nf (attr # attrs) s =
     (case handlePacket gp nf attr s of Inl s \<Rightarrow> Inl s | Inr s \<Rightarrow> handle_all gp nf attrs s)"

datatype run_error =
    InstallError bytes
  | OpenNFQueue "16 word" bytes
  | SetOptionError bytes
  | RegisterError bytes

datatype run_result = Returned "run_error option" | Crashed

definition run_config :: "AppConfig \<Rightarrow> nfq_config" where
  "run_config cfg =
     \<lparr>nq_NfQueue = QueueNum (NFQueue cfg), nq_MaxPacketLen = 0xffff, nq_MaxQueueLen = 0x400,
      nq_Copymode = NfQnlCopyPacket, nq_FailOpenFlag = FailOpen (NFQueue cfg), nq_AfFamily = 0,
      nq_WriteTimeout = 50 * 1000000\<rparr>"

text \<open>The deferred clean-up, with the background context; its error is only logged.\<close>

definition deferred_cleanup :: "'w host \<Rightarrow> nfQueueEngine \<times> 'w \<Rightarrow> nfQueueEngine \<times> 'w" where
  "deferred_cleanup h = (\<lambda>(e, w).
     (case e_firewall e of
        None \<Rightarrow> (e, w)
      | Some m \<Rightarrow> (case Cleanup h Background m w of (_, m, w) \<Rightarrow> (e\<lparr>e_firewall := Some m\<rparr>, w))))"

definition deferred_close :: "'w nfq_lib \<Rightarrow> nfQueueEngine \<times> 'w \<Rightarrow> nfQueueEngine \<times> 'w" where
  "deferred_close nf = (\<lambda>(e, w). (e, snd (nfq_Close nf w)))"

text \<open>The part of \<open>Run\<close> after the installation, up to the deferred clean-up.\<close>

definition run_queue ::
  "gopacket \<Rightarrow> 'w nfq_lib \<Rightarrow> attribute list \<Rightarrow> nfQueueEngine \<times> 'w \<Rightarrow> run_result \<times> nfQueueEngine \<times> 'w" where
  "run_queue gp nf attrs = (\<lambda>(e, w).
     (case nfq_Open nf (run_config (e_cfg e)) w of
        (Some err, w) \<Rightarrow> (Returned (Some (OpenNFQueue (QueueNum (NFQueue (e_cfg e))) err)), e, w)
      | (None, w) \<Rightarrow>
          (let e = e\<lparr>e_nfq := True\<rparr> in
           case nfq_SetNoENOBUFS nf w of
             (Some err, w) \<Rightarrow> (Returned (Some (SetOptionError err)), deferred_close nf (e, w))
           | (None, w) \<Rightarrow>
               (case nfq_Register nf SignalContext w of
                  (Some err, w) \<Rightarrow> (Returned (Some (RegisterError err)), deferred_close nf (e, w))
                | (None, w) \<Rightarrow>
                    (case handle_all gp nf attrs (e, w) of
                       Inl s \<Rightarrow> (Crashed, s)
                     | Inr s \<Rightarrow> (Returned None, deferred_close nf s))))))"

definition Run ::
  "gopacket \<Rightarrow> 'w host \<Rightarrow> 'w nfq_lib \<Rightarrow> attribute list \<Rightarrow> nfQueueEngine \<times> 'w \<Rightarrow> run_result \<times> nfQueueEngine \<times> 'w" where
  "Run gp h nf attrs = (\<lambda>(e, w).
     (case e_firewall e of
        None \<Rightarrow> run_queue gp nf attrs (e, w)
      | Some m \<Rightarrow>
          (case Install h SignalContext m w of
             (Some err, m, w) \<Rightarrow>
               (Returned (Some (InstallError (explainNFQueueFirewallError err))), e\<lparr>e_firewall := Some m\<rparr>, w)
           | (None, m, w) \<Rightarrow>
               (case run_queue gp nf attrs (e\<lparr>e_firewall := Some m\<rparr>, w) of
                  (Crashed, s) \<Rightarrow> (Crashed, s)
                | (Returned err, s) \<Rightarrow> (Returned err, deferred_cleanup h s)))))"

section \<open>The counters balance\<close>

text \<open>Every packet that was classified is either passed or counted under one blocking reason.\<close>

definition balanced :: "atomicStats \<Rightarrow> bool" where
  "balanced s \<longleftrightarrow>
     st_total s = st_passed s + st_httpBlocked s + st_tlsBlocked s + st_dnsPoisoned s + st_dnsBlocked s
       + st_ipBlocked s + st_ipPortBlocked s"

context verdict_source
begin

lemma record_balanced:
  assumes "classify p = Some v" "balanced s"
  shows "balanced (recordDecision v (s\<lparr>st_total := st_total s + 1\<rparr>))"
proof (cases "Reason v")
  case reasonNone
  then have "Kind v = verdictAccept" using accept_reason [OF assms(1)] by simp
  with reasonNone assms(2) show ?thesis by (simp add: recordDecision_def count_reason_def balanced_def)
next
  case reasonMalformed
  then have "Kind v = verdictAccept" using accept_reason [OF assms(1)] by simp
  with reasonMalformed assms(2) show ?thesis by (simp add: recordDecision_def count_reason_def balanced_def)
qed (use accept_reason [OF assms(1)] assms(2) in \<open>simp add: recordDecision_def count_reason_def balanced_def\<close>)+

end

definition verdict_of :: "gopacket \<Rightarrow> packetClassifier \<Rightarrow> attribute \<Rightarrow> packetVerdict option" where
  "verdict_of gp c attr =
     (case (PacketID attr, Payload attr) of (Some _, Some p) \<Rightarrow> Classify gp c p | _ \<Rightarrow> None)"

definition complete :: "attribute \<Rightarrow> bool" where
  "complete attr \<longleftrightarrow> PacketID attr \<noteq> None \<and> Payload attr \<noteq> None"

text \<open>The effect of one packet on the counters, by its verdict.\<close>

definition count_packet :: "gopacket \<Rightarrow> packetClassifier \<Rightarrow> attribute \<Rightarrow> atomicStats \<Rightarrow> atomicStats" where
  "count_packet gp c attr s =
     (case verdict_of gp c attr of
        Some v \<Rightarrow> recordDecision v (s\<lparr>st_total := st_total s + 1\<rparr>)
      | None \<Rightarrow> s\<lparr>st_malformed := st_malformed s + 1\<rparr>)"

lemma handlePacket_Inr:
  assumes "handlePacket gp nf attr (e, w) = Inr (e', w')"
  shows "e' = e\<lparr>e_stats := count_packet gp (e_classifier e) attr (e_stats e)\<rparr>"
    and "complete attr \<longleftrightarrow> verdict_of gp (e_classifier e) attr \<noteq> None"
  using assms
  by (auto simp: handlePacket_def count_packet_def verdict_of_def complete_def Let_def split: option.splits)

lemma handle_all_Inr:
  "handle_all gp nf attrs (e, w) = Inr (e', w') \<Longrightarrow>
     e' = e\<lparr>e_stats := fold (count_packet gp (e_classifier e)) attrs (e_stats e)\<rparr>
     \<and> (\<forall>attr \<in> set attrs. complete attr \<longleftrightarrow> verdict_of gp (e_classifier e) attr \<noteq> None)"
proof (induction attrs arbitrary: e w)
  case (Cons attr attrs)
  then obtain e1 w1 where 1: "handlePacket gp nf attr (e, w) = Inr (e1, w1)" "handle_all gp nf attrs (e1, w1) = Inr (e', w')"
    by (auto split: sum.splits)
  then show ?case using Cons.IH [OF 1(2)] handlePacket_Inr [OF 1(1)] by simp
qed simp

lemma count_packet_balanced: "balanced s \<Longrightarrow> balanced (count_packet gp c attr s)"
proof (cases "verdict_of gp c attr")
  case (Some v)
  then obtain p where "Classify gp c p = Some v" by (auto simp: verdict_of_def split: option.splits)
  moreover assume "balanced s"
  ultimately show ?thesis using cl.record_balanced Some by (simp add: count_packet_def)
qed (simp add: count_packet_def balanced_def)

lemma fold_count_balanced: "balanced s \<Longrightarrow> balanced (fold (count_packet gp c) attrs s)"
  by (induction attrs arbitrary: s) (simp_all add: count_packet_balanced)

text \<open>The counter of a blocking reason.\<close>

definition counter :: "blockReason \<Rightarrow> atomicStats \<Rightarrow> 64 word" where
  "counter r s =
     (case r of
        reasonHTTP \<Rightarrow> st_httpBlocked s | reasonTLS \<Rightarrow> st_tlsBlocked s | reasonDNSPoison \<Rightarrow> st_dnsPoisoned s
      | reasonDNSDrop \<Rightarrow> st_dnsBlocked s | reasonIP \<Rightarrow> st_ipBlocked s | reasonIPPort \<Rightarrow> st_ipPortBlocked s
      | _ \<Rightarrow> 0)"

definition has_reason :: "gopacket \<Rightarrow> packetClassifier \<Rightarrow> blockReason \<Rightarrow> attribute \<Rightarrow> bool" where
  "has_reason gp c r attr \<longleftrightarrow> (case verdict_of gp c attr of Some v \<Rightarrow> Reason v = r | None \<Rightarrow> False)"

definition is_accepted :: "gopacket \<Rightarrow> packetClassifier \<Rightarrow> attribute \<Rightarrow> bool" where
  "is_accepted gp c attr \<longleftrightarrow> (case verdict_of gp c attr of Some v \<Rightarrow> Kind v = verdictAccept | None \<Rightarrow> False)"

lemma count_packet_counters:
  "counter r (count_packet gp c attr s)
     = counter r s + (if has_reason gp c r attr \<and> r \<notin> {reasonNone, reasonMalformed} then 1 else 0)"
  "st_passed (count_packet gp c attr s) = st_passed s + (if is_accepted gp c attr then 1 else 0)"
  "st_total (count_packet gp c attr s) = st_total s + (if verdict_of gp c attr \<noteq> None then 1 else 0)"
  "st_malformed (count_packet gp c attr s)
     = st_malformed s + (if verdict_of gp c attr = None \<or> has_reason gp c reasonMalformed attr then 1 else 0)"
  by (auto simp: count_packet_def has_reason_def is_accepted_def recordDecision_def count_reason_def counter_def Let_def
      split: option.splits blockReason.splits)

lemma count_filter_Cons: "of_nat (length (filter P (x # xs))) = (if P x then 1 else 0) + (of_nat (length (filter P xs)) :: 64 word)"
  by simp

lemma fold_count_counters:
  "counter r (fold (count_packet gp c) attrs s)
     = counter r s + of_nat (length (filter (\<lambda>a. has_reason gp c r a \<and> r \<notin> {reasonNone, reasonMalformed}) attrs))"
  "st_passed (fold (count_packet gp c) attrs s) = st_passed s + of_nat (length (filter (is_accepted gp c) attrs))"
  "st_total (fold (count_packet gp c) attrs s)
     = st_total s + of_nat (length (filter (\<lambda>a. verdict_of gp c a \<noteq> None) attrs))"
  "st_malformed (fold (count_packet gp c) attrs s)
     = st_malformed s
       + of_nat (length (filter (\<lambda>a. verdict_of gp c a = None \<or> has_reason gp c reasonMalformed a) attrs))"
  by (induction attrs arbitrary: s)
     ((simp; fail) | simp only: fold_simps count_packet_counters count_filter_Cons add.assoc)+

section \<open>Socket addresses\<close>

lemma be_val_append: "be_val (xs @ ys) = be_val xs * 256 ^ length ys + be_val ys"
proof (induction ys rule: rev_induct)
  case (snoc y ys)
  then have "be_val (xs @ ys @ [y]) = 256 * (be_val xs * 256 ^ length ys + be_val ys) + of_char y"
    using be_val_snoc [of "xs @ ys" y] by simp
  then show ?case by (simp add: algebra_simps)
qed simp

lemma be_val_As4: "be_val (As4 w) = uint w"
proof -
  have "uint w mod 256 ^ 4 = uint w" using uint_lt2p [of w] by simp
  then show ?thesis unfolding As4_def by (simp only: be_val_be_bytes)
qed

lemma Unmap_IPv4_bytes: "map_option Unmap (AddrFromSlice (IPv4_bytes (As4 w))) = Some (Addr4 w)"
proof -
  let ?v = "of_int (0xFFFF * 2 ^ 32 + uint w) :: 128 word"
  have "be_val (replicate 10 (CHR 0x00) @ [CHR 0xFF, CHR 0xFF]) = 0xFFFF" by code_simp
  then have "be_val (IPv4_bytes (As4 w)) = 0xFFFF * 2 ^ 32 + uint w"
    using be_val_append [of "replicate 10 (CHR 0x00) @ [CHR 0xFF, CHR 0xFF]" "As4 w"]
    by (simp add: IPv4_bytes_def be_val_As4)
  moreover have "length (IPv4_bytes (As4 w)) = 16" by (simp add: IPv4_bytes_def)
  ultimately have s: "AddrFromSlice (IPv4_bytes (As4 w)) = Some (Addr6 ?v [])"
    by (simp add: AddrFromSlice_16)
  have w: "0 \<le> uint w" "uint w < 2 ^ 32" using uint_lt2p [of w] by simp_all
  then have "(0xFFFF * 2 ^ 32 + uint w) mod 2 ^ 128 = 0xFFFF * 2 ^ 32 + uint w"
    by (intro mod_pos_pos_trivial) simp_all
  then have v: "uint ?v = 0xFFFF * 2 ^ 32 + uint w"
    by (simp only: uint_word_of_int len_of_numeral_defs) simp
  have "uint (drop_bit 32 ?v) = (0xFFFF * 2 ^ 32 + uint w) div 2 ^ 32"
    by (simp only: drop_bit_eq_div uint_div_distrib v) simp
  also have "\<dots> = 0xFFFF + uint w div 2 ^ 32" by (rule div_mult_self3) simp
  also have "\<dots> = 0xFFFF" using div_pos_pos_trivial [OF w] by simp
  also have "\<dots> = uint (0xFFFF :: 128 word)" by simp
  finally have "drop_bit 32 ?v = 0xFFFF" by (rule word_uint_eqI)
  moreover have "(ucast ?v :: 32 word) = w"
  proof (rule word_uint_eqI)
    have "uint (ucast ?v :: 32 word) = uint ?v mod 2 ^ 32"
      by (simp only: unsigned_ucast_eq take_bit_eq_mod len_of_numeral_defs) simp
    also have "\<dots> = uint w mod 2 ^ 32" unfolding v by (rule mod_mult_self3)
    also have "\<dots> = uint w" by (rule mod_pos_pos_trivial [OF w])
    finally show "uint (ucast ?v :: 32 word) = uint w" .
  qed
  ultimately show ?thesis by (simp add: s Is4In6_def)
qed

lemma addrFromIP_netIPFromAddr:
  assumes "\<not> hasZone a" "a \<noteq> AddrZero"
  shows "addrFromIP (netIPFromAddr a) = Some (Unmap a)"
proof (cases "Unmap a")
  case AddrZero
  with assms(2) show ?thesis by (cases a) (simp_all split: if_splits)
next
  case (Addr4 w)
  then show ?thesis
    using Unmap_IPv4_bytes [of w] by (auto simp: addrFromIP_def netIPFromAddr_def split: option.splits)
next
  case (Addr6 w z)
  then have "a = Addr6 w z" "\<not> Is4In6 (Addr6 w z)" by (cases a; auto split: if_splits)+
  moreover have "z = []" using assms(1) calculation(1) by (simp add: hasZone_def)
  ultimately show ?thesis using Addr6 by (simp add: addrFromIP_def netIPFromAddr_def)
qed

section \<open>A logging library\<close>

text \<open>A concrete instance of the library: every call succeeds and is noted in a log beside the machine.\<close>

datatype net_event =
    EvOpen nfq_config
  | EvSetOption
  | EvRegister
  | EvVerdict "32 word" nf_verdict
  | EvClose
  | EvListen bytes sockopt "bytes \<times> nat"
  | EvWrite bytes "bytes \<times> nat"
  | EvCloseConn

definition log_event :: "net_event \<Rightarrow> 'm \<times> net_event list \<Rightarrow> 'm \<times> net_event list" where
  "log_event ev = (\<lambda>(m, evs). (m, evs @ [ev]))"

definition log_lib :: "('m \<times> net_event list) nfq_lib" where
  "log_lib =
     \<lparr>nfq_Open = (\<lambda>c w. (None, log_event (EvOpen c) w)),
      nfq_SetNoENOBUFS = (\<lambda>w. (None, log_event EvSetOption w)),
      nfq_Register = (\<lambda>ctx w. (None, log_event EvRegister w)),
      nfq_SetVerdict = (\<lambda>i v w. (None, log_event (EvVerdict i v) w)),
      nfq_Close = (\<lambda>w. (None, log_event EvClose w)),
      ListenPacket = (\<lambda>n opt a w. (None, log_event (EvListen n opt a) w)),
      WriteTo = (\<lambda>p a w. (None, log_event (EvWrite p a) w)),
      CloseConn = log_event EvCloseConn\<rparr>"

definition example_engine :: nfQueueEngine where
  "example_engine =
     \<lparr>e_cfg = \<lparr>Engine = ''nfqueue'', Debug = False, StatsInterval = [], Rules = example_rules,
         NFQueue = \<lparr>QueueNum = 100, FirewallBackend = ''none'', InstallRules = False, Chains = [''input''],
            Capture = ''l7'', FailOpen = False, DNSMode = ''nxdomain''\<rparr>,
         AFXDP = \<lparr>Iface = [], Mode = []\<rparr>, statsEvery = 5000000000\<rparr>,
      e_rules = example_ruleset, e_classifier = example_classifier,
      e_firewall = None, e_nfq = True, e_stats = zero_stats\<rparr>"

definition dns_attr :: attribute where
  "dns_attr = \<lparr>PacketID = Some 7, Payload = Some (full_slice ''Ed'')\<rparr>"

definition http_attr :: attribute where
  "http_attr = \<lparr>PacketID = Some 8, Payload = Some (full_slice ''Eh'')\<rparr>"

definition bare_attr :: attribute where
  "bare_attr = \<lparr>PacketID = Some 9, Payload = None\<rparr>"

lemma verdict_of_examples:
  "verdict_of example_gp example_classifier dns_attr
     = Some \<lparr>Kind = verdictDrop, Reason = reasonDNSPoison, DNSResponse = Some example_response\<rparr>"
  "verdict_of example_gp example_classifier http_attr = Some (drop_for reasonHTTP)"
  "verdict_of example_gp example_classifier bare_attr = None"
  by (simp_all add: verdict_of_def dns_attr_def http_attr_def bare_attr_def Classify_example_dns Classify_example_http)

lemma handle_examples:
  "\<exists>e' w'. handle_all example_gp log_lib [dns_attr, bare_attr, http_attr] (example_engine, ((), [])) = Inr (e', w')"
proof -
  have "\<not> isl (handle_all example_gp log_lib [dns_attr, bare_attr, http_attr] (example_engine, ((), [])))"
    by (simp add: handlePacket_def dns_attr_def http_attr_def bare_attr_def Let_def
        Classify_example_dns Classify_example_http example_engine_def)
  then show ?thesis by (metis isl_def sum.exhaust surj_pair)
qed

section \<open>Correctness of the engine\<close>

text \<open>
  The counters of an engine balance after any sequence of packets: from a balanced state, the
  total is again the sum of the passed and the blocked ones, modulo the width of the counters. A packet
  without an identifier or a payload is in neither.
\<close>

lemma counters_balance:
  assumes "handle_all gp nf attrs (e, w) = Inr (e', w')" and "balanced (e_stats e)"
  shows "balanced (e_stats e')"
  using handle_all_Inr [OF assms(1)] fold_count_balanced [OF assms(2)] by simp

text \<open>
  C10: What the statistics report after a sequence of packets: the total grows by the number of packets
  with identifier and payload, the passed counter by the number of accepted ones, each blocking counter
  by the number of packets with that reason, and the malformed counter by the number of packets that
  lack one of the two or do not decode.
\<close>

theorem Stats_count_packets:
  assumes "handle_all gp nf attrs (e, w) = Inr (e', w')"
  shows "Total (Stats e') = Total (Stats e) + of_nat (length (filter complete attrs))
    \<and> Passed (Stats e') = Passed (Stats e) + of_nat (length (filter (is_accepted gp (e_classifier e)) attrs))
    \<and> HTTPBlocked (Stats e') = HTTPBlocked (Stats e) + of_nat (length (filter (has_reason gp (e_classifier e) reasonHTTP) attrs))
    \<and> TLSBlocked (Stats e') = TLSBlocked (Stats e) + of_nat (length (filter (has_reason gp (e_classifier e) reasonTLS) attrs))
    \<and> DNSPoisoned (Stats e') = DNSPoisoned (Stats e) + of_nat (length (filter (has_reason gp (e_classifier e) reasonDNSPoison) attrs))
    \<and> DNSBlocked (Stats e') = DNSBlocked (Stats e) + of_nat (length (filter (has_reason gp (e_classifier e) reasonDNSDrop) attrs))
    \<and> IPBlocked (Stats e') = IPBlocked (Stats e) + of_nat (length (filter (has_reason gp (e_classifier e) reasonIP) attrs))
    \<and> IPPortBlocked (Stats e') = IPPortBlocked (Stats e) + of_nat (length (filter (has_reason gp (e_classifier e) reasonIPPort) attrs))
    \<and> Malformed (Stats e') = Malformed (Stats e)
        + of_nat (length (filter (\<lambda>a. \<not> complete a \<or> has_reason gp (e_classifier e) reasonMalformed a) attrs))"
proof -
  let ?c = "e_classifier e" and ?s = "e_stats e"
  have e': "e_stats e' = fold (count_packet gp ?c) attrs ?s"
    and v: "\<forall>attr \<in> set attrs. complete attr \<longleftrightarrow> verdict_of gp ?c attr \<noteq> None"
    using handle_all_Inr [OF assms] by auto
  have f: "filter (\<lambda>a. verdict_of gp ?c a \<noteq> None) attrs = filter complete attrs"
    "filter (\<lambda>a. verdict_of gp ?c a = None \<or> has_reason gp ?c reasonMalformed a) attrs
     = filter (\<lambda>a. \<not> complete a \<or> has_reason gp ?c reasonMalformed a) attrs"
    using v by (auto intro: filter_cong)
  have "st_total (e_stats e') = st_total ?s + of_nat (length (filter complete attrs))"
    "st_malformed (e_stats e') = st_malformed ?s
       + of_nat (length (filter (\<lambda>a. \<not> complete a \<or> has_reason gp ?c reasonMalformed a) attrs))"
    unfolding e' f [symmetric] by (rule fold_count_counters)+
  moreover note counters = fold_count_counters(1) [of _ gp ?c attrs ?s, unfolded counter_def]
  ultimately show ?thesis
    using counters [of reasonHTTP] counters [of reasonTLS] counters [of reasonDNSPoison]
      counters [of reasonDNSDrop] counters [of reasonIP] counters [of reasonIPPort]
    by (simp add: Stats_def e' fold_count_counters(2))
qed

theorem Stats_count_packets_witness:
  "\<exists>e' w'. handle_all example_gp log_lib [dns_attr, bare_attr, http_attr] (example_engine, ((), [])) = Inr (e', w')
     \<and> Total (Stats e') = 2 \<and> Passed (Stats e') = 0 \<and> Malformed (Stats e') = 1"
proof -
  obtain e' w' where h: "handle_all example_gp log_lib [dns_attr, bare_attr, http_attr] (example_engine, ((), [])) = Inr (e', w')"
    using handle_examples by blast
  have c: "e_classifier example_engine = example_classifier" "e_stats example_engine = zero_stats"
    by (simp_all add: example_engine_def)
  have "complete dns_attr" "complete http_attr" "\<not> complete bare_attr"
    by (simp_all add: complete_def dns_attr_def http_attr_def bare_attr_def)
  with Stats_count_packets [OF h] h show ?thesis
    by (intro exI [of _ e'] exI [of _ w'])
       (simp add: c is_accepted_def has_reason_def verdict_of_examples Stats_def zero_stats_def)
qed

text \<open>
  The socket addresses of a forged answer denote the addresses of the packet: an address turned
  into a \<open>net.IP\<close> and read back is the address itself, an IPv4-mapped one as IPv4. (Addresses taken
  from a packet have no zone.)
\<close>

lemma netIPFromAddr_roundtrip:
  assumes "\<not> hasZone a" and "a \<noteq> AddrZero"
  shows "addrFromIP (netIPFromAddr a) = Some (Unmap a)"
  by (rule addrFromIP_netIPFromAddr [OF assms])

end
