(* ===== verification/Firewall_Kernel.thy ===== *)
theory Firewall_Kernel
  imports Firewall
begin

text \<open>
  What the firewall managers do to the packet filter. The tools themselves are outside the program:
  their documented behaviour is stated as predicates on the parameter \<open>host\<close>. \<open>iptables_tools\<close>: \<open>-I\<close>
  puts a rule in front of its chain, \<open>-D\<close> removes the first copy of a rule and fails when there is
  none, a failing command changes nothing, and the other commands of the program leave the rules
  alone. \<open>nft_tool\<close>: \<open>-f -\<close> loads a script of the program into its table as a whole or not at all, \<open>delete
  table\<close> removes it. \<open>nft_apart\<close>: the iptables commands of the program leave this table alone.

  Under these the theory shows what an installation adds, that a clean-up removes the program's rules
  and nothing else, and that the two together restore the machine.
\<close>

section \<open>The tools\<close>

type_synonym rule_table = "bytes \<Rightarrow> bytes \<Rightarrow> bytes list list"

definition set_chain :: "rule_table \<Rightarrow> bytes \<Rightarrow> bytes \<Rightarrow> bytes list list \<Rightarrow> rule_table" where
  "set_chain R bin chain rs = R(bin := (R bin)(chain := rs))"

definition iptables_bins :: "bytes set" where
  "iptables_bins = {''iptables'', ''ip6tables'', ''iptables-legacy'', ''ip6tables-legacy''}"

text \<open>
  The first three clauses hold under every context. The last one, that a deletion of an existing rule
  succeeds, is asked of one context only, since a cancelled context kills the command.
\<close>

definition insert_law :: "'w host \<Rightarrow> ('w \<Rightarrow> rule_table) \<Rightarrow> bool" where
  "insert_law h rules \<longleftrightarrow>
     (\<forall>ctx bin chain spec w err stderr w'. bin \<in> iptables_bins \<longrightarrow>
        RunCmd h ctx bin (''-I'' # chain # spec) [] w = ((err, stderr), w') \<longrightarrow>
        rules w' = (if err = None then set_chain (rules w) bin chain (spec # rules w bin chain) else rules w))"

definition delete_law :: "'w host \<Rightarrow> ('w \<Rightarrow> rule_table) \<Rightarrow> bool" where
  "delete_law h rules \<longleftrightarrow>
     (\<forall>ctx bin chain spec w err stderr w'. bin \<in> iptables_bins \<longrightarrow>
        RunCmd h ctx bin (''-D'' # chain # spec) [] w = ((err, stderr), w') \<longrightarrow>
        rules w' = (if err = None then set_chain (rules w) bin chain (remove1 spec (rules w bin chain)) else rules w)
        \<and> (err = None \<longrightarrow> spec \<in> set (rules w bin chain)))"

text \<open>
  The commands of the program that are not about iptables: loading its kernel modules, and deleting or
  loading its own nft table.
\<close>

definition other_cmds :: "command set" where
  "other_cmds = modprobe_cmds \<union> {(''nft'', nft_delete_args, [])}
     \<union> {(''nft'', [''-f'', ''-''], nft_script cfg) | cfg. validateNFQueueConfig cfg = None}"

definition program_tools :: "bytes set" where
  "program_tools = iptables_bins \<union> {''modprobe'', ''nft''}"

definition others_law :: "'w host \<Rightarrow> ('w \<Rightarrow> rule_table) \<Rightarrow> bool" where
  "others_law h rules \<longleftrightarrow>
     (\<forall>ctx name args stdin w.
        (name \<in> program_tools \<longrightarrow> LookPath h (snd (RunCmd h ctx name args stdin w)) = LookPath h w)
        \<and> ((name, args, stdin) \<in> other_cmds \<longrightarrow> rules (snd (RunCmd h ctx name args stdin w)) = rules w))"

definition iptables_tools :: "'w host \<Rightarrow> go_context \<Rightarrow> ('w \<Rightarrow> rule_table) \<Rightarrow> bool" where
  "iptables_tools h live rules \<longleftrightarrow> insert_law h rules \<and> delete_law h rules \<and> others_law h rules
     \<and> (\<forall>bin chain spec w. bin \<in> iptables_bins \<longrightarrow> spec \<in> set (rules w bin chain) \<longrightarrow>
          fst (fst (RunCmd h live bin (''-D'' # chain # spec) [] w)) = None)"

section \<open>The rules of a backend\<close>

definition upper_chains :: "iptablesFirewall \<Rightarrow> bytes set" where
  "upper_chains f = ToUpper ` set (normalizedChains (Chains (ipt_cfg f)))"

definition own_rule :: "iptablesFirewall \<Rightarrow> bytes \<Rightarrow> bytes \<Rightarrow> bytes list \<Rightarrow> bool" where
  "own_rule f bin chain spec \<longleftrightarrow>
     bin \<in> {ipv4Bin f, ipv6Bin f} \<and> chain \<in> upper_chains f \<and> spec \<in> set (rule_specs f)"

definition wf_iptables :: "iptablesFirewall \<Rightarrow> bool" where
  "wf_iptables f \<longleftrightarrow> ipv4Bin f \<in> iptables_bins \<and> ipv6Bin f \<in> iptables_bins \<and> ipv4Bin f \<noteq> ipv6Bin f
     \<and> validateNFQueueConfig (ipt_cfg f) = None"

text \<open>The pairs of a chain and a rule in the order of the loops.\<close>

definition rule_pairs :: "iptablesFirewall \<Rightarrow> (bytes \<times> bytes list) list" where
  "rule_pairs f =
     concat (map (\<lambda>chain. map (\<lambda>spec. (ToUpper chain, spec)) (rule_specs f))
       (normalizedChains (Chains (ipt_cfg f))))"

lemma rule_args_pairs: "rule_args op f = map (\<lambda>(chain, spec). op # chain # spec) (rule_pairs f)"
  by (simp add: rule_args_def rule_pairs_def map_concat o_def)

lemma set_rule_pairs: "set (rule_pairs f) = upper_chains f \<times> set (rule_specs f)"
  by (auto simp: rule_pairs_def upper_chains_def)

lemma distinct_rule_specs: "distinct (rule_specs f)"
  by (simp add: rule_specs_def)

lemma ToUpper_chain_inj: "inj_on ToUpper {''input'', ''output'', ''forward''}"
proof -
  have "ToUpper ''input'' = ''INPUT''" "ToUpper ''output'' = ''OUTPUT''" "ToUpper ''forward'' = ''FORWARD''"
    by code_simp+
  then show ?thesis by (simp add: inj_on_def)
qed

lemma distinct_rule_pairs:
  assumes "wf_iptables f"
  shows "distinct (rule_pairs f)"
proof -
  have i: "inj_on ToUpper (set (normalizedChains (Chains (ipt_cfg f))))"
    using valid_chains assms ToUpper_chain_inj by (meson inj_on_subset wf_iptables_def)
  have "rule_pairs f = List.product (map ToUpper (normalizedChains (Chains (ipt_cfg f)))) (rule_specs f)"
    unfolding rule_pairs_def by (induction "normalizedChains (Chains (ipt_cfg f))") (simp_all add: product_concat_map o_def)
  then show ?thesis
    using i distinct_rule_specs by (simp add: distinct_product distinct_map distinct_normalizedChains)
qed

section \<open>Views of the rule table\<close>

abbreviation copies :: "rule_table \<Rightarrow> bytes \<Rightarrow> bytes \<Rightarrow> bytes list \<Rightarrow> nat" where
  "copies R bin chain spec \<equiv> count_list (R bin chain) spec"

definition foreign :: "iptablesFirewall \<Rightarrow> rule_table \<Rightarrow> rule_table" where
  "foreign f R bin chain = filter (\<lambda>spec. \<not> own_rule f bin chain spec) (R bin chain)"

lemma count_list_remove1: "count_list (remove1 x xs) y = (if x = y then count_list xs y - 1 else count_list xs y)"
  by (induction xs) (auto simp: Suc_diff_Suc dest: count_notin simp: count_list_0_iff)

lemma filter_remove1_out: "\<not> P x \<Longrightarrow> filter P (remove1 x xs) = filter P xs"
  by (induction xs) auto

lemma set_chain_apply:
  "set_chain R bin chain rs bin' chain' = (if bin' = bin \<and> chain' = chain then rs else R bin' chain')"
  by (simp add: set_chain_def)

lemma copies_insert:
  "copies (set_chain R bin chain (spec # R bin chain)) bin' chain' spec'
   = copies R bin' chain' spec' + (if (bin', chain', spec') = (bin, chain, spec) then 1 else 0)"
  by (auto simp: set_chain_apply)

lemma copies_remove:
  "copies (set_chain R bin chain (remove1 spec (R bin chain))) bin' chain' spec'
   = copies R bin' chain' spec' - (if (bin', chain', spec') = (bin, chain, spec) then 1 else 0)"
  by (auto simp: set_chain_apply count_list_remove1)

lemma foreign_insert:
  "own_rule f bin chain spec \<Longrightarrow> foreign f (set_chain R bin chain (spec # R bin chain)) = foreign f R"
  by (rule ext)+ (simp add: foreign_def set_chain_apply)

lemma foreign_remove:
  "own_rule f bin chain spec \<Longrightarrow> foreign f (set_chain R bin chain (remove1 spec (R bin chain))) = foreign f R"
  by (rule ext)+ (simp add: foreign_def set_chain_apply filter_remove1_out)

text \<open>A table is determined by its foreign part once the copies of the own rules are gone.\<close>

lemma foreign_all:
  "\<forall>spec. own_rule f bin chain spec \<longrightarrow> copies R bin chain spec = 0 \<Longrightarrow> foreign f R bin chain = R bin chain"
  by (auto simp: foreign_def count_list_0_iff filter_id_conv)

section \<open>Single commands\<close>

lemma runCommand_conv:
  assumes "runCommand h ctx name args ign w = (e, w')"
  shows "\<exists>err stderr. RunCmd h ctx name args [] w = ((err, stderr), w') \<and> (\<not> ign \<longrightarrow> (e = None \<longleftrightarrow> err = None))"
  using assms by (auto simp: runCommand_def runWithInput_def Let_def split: prod.splits option.splits if_splits)

lemma program_tools_intros [simp]:
  "bin \<in> iptables_bins \<Longrightarrow> bin \<in> program_tools" "''modprobe'' \<in> program_tools" "''nft'' \<in> program_tools"
  by (simp_all add: program_tools_def)

lemma LookPath_runWithInput:
  assumes "others_law h rules" "name \<in> program_tools"
  shows "LookPath h (snd (runWithInput h ctx name args stdin ign w)) = LookPath h w"
proof -
  have "snd (runWithInput h ctx name args stdin ign w) = snd (RunCmd h ctx name args stdin w)"
    by (auto simp: runWithInput_def Let_def split: prod.splits option.splits)
  then show ?thesis using assms by (simp add: others_law_def)
qed

lemma rules_runWithInput:
  assumes "others_law h rules" "(name, args, stdin) \<in> other_cmds"
  shows "rules (snd (runWithInput h ctx name args stdin ign w)) = rules w"
proof -
  have "snd (runWithInput h ctx name args stdin ign w) = snd (RunCmd h ctx name args stdin w)"
    by (auto simp: runWithInput_def Let_def split: prod.splits option.splits)
  then show ?thesis using assms by (simp add: others_law_def)
qed

lemma insert_step:
  assumes "insert_law h rules" "bin \<in> iptables_bins" "runCommand h ctx bin (''-I'' # chain # spec) False w = (e, w')"
  shows "rules w' = (if e = None then set_chain (rules w) bin chain (spec # rules w bin chain) else rules w)"
  using runCommand_conv [OF assms(3)] assms(1,2) unfolding insert_law_def by metis

lemma delete_step:
  assumes "delete_law h rules" "bin \<in> iptables_bins" "runCommand h ctx bin (''-D'' # chain # spec) False w = (e, w')"
  shows "rules w' = (if e = None then set_chain (rules w) bin chain (remove1 spec (rules w bin chain)) else rules w)"
    and "e = None \<Longrightarrow> spec \<in> set (rules w bin chain)"
  using runCommand_conv [OF assms(3)] assms(1,2) unfolding delete_law_def by metis+

lemma delete_step_live:
  assumes "iptables_tools h live rules" "bin \<in> iptables_bins" "runCommand h live bin (''-D'' # chain # spec) False w = (e, w')"
  shows "e = None \<longleftrightarrow> spec \<in> set (rules w bin chain)"
proof
  show "e = None \<Longrightarrow> spec \<in> set (rules w bin chain)"
    using assms by (auto simp: iptables_tools_def dest: delete_step(2))
  assume "spec \<in> set (rules w bin chain)"
  with assms(1,2) have "fst (fst (RunCmd h live bin (''-D'' # chain # spec) [] w)) = None"
    by (simp add: iptables_tools_def)
  then show "e = None" using runCommand_conv [OF assms(3)] by auto
qed

lemma iptables_toolsD:
  "iptables_tools h live rules \<Longrightarrow> insert_law h rules"
  "iptables_tools h live rules \<Longrightarrow> delete_law h rules"
  "iptables_tools h live rules \<Longrightarrow> others_law h rules"
  by (simp_all add: iptables_tools_def)

section \<open>Deleting\<close>

text \<open>Under any context, a deletion loop removes copies of its own rule only.\<close>

lemma delete_loop_any:
  assumes "iptables_tools h live rules" "bin \<in> iptables_bins"
  shows "LookPath h (delete_loop h ctx bin (''-D'' # chain # spec) n w) = LookPath h w
    \<and> copies (rules (delete_loop h ctx bin (''-D'' # chain # spec) n w)) b c s \<le> copies (rules w) b c s
    \<and> (own_rule f bin chain spec \<longrightarrow>
         foreign f (rules (delete_loop h ctx bin (''-D'' # chain # spec) n w)) = foreign f (rules w))"
proof (induction n arbitrary: w)
  case (Suc n)
  obtain e w' where r: "runCommand h ctx bin (''-D'' # chain # spec) False w = (e, w')" by fastforce
  have l: "LookPath h w' = LookPath h w"
    using LookPath_runWithInput [OF iptables_toolsD(3) [OF assms(1)], of bin ctx _ _ _ w] assms(2) r
    by (metis program_tools_intros(1) runCommand_def snd_conv)
  note d = delete_step(1) [OF iptables_toolsD(2) [OF assms(1)] assms(2) r]
  show ?case
  proof (cases e)
    case None
    then have "copies (rules w') b c s \<le> copies (rules w) b c s"
      "own_rule f bin chain spec \<longrightarrow> foreign f (rules w') = foreign f (rules w)"
      by (simp_all add: d copies_remove foreign_remove)
    with r None l Suc.IH [of w'] show ?thesis by auto
  next
    case Some
    with r d l show ?thesis by simp
  qed
qed simp

text \<open>Under a live context it removes as many copies as it has rounds.\<close>

lemma delete_loop_live:
  assumes "iptables_tools h live rules" "bin \<in> iptables_bins"
  shows "copies (rules (delete_loop h live bin (''-D'' # chain # spec) n w)) b c s
    = copies (rules w) b c s - (if (b, c, s) = (bin, chain, spec) then n else 0)"
proof (induction n arbitrary: w)
  case (Suc n)
  obtain e w' where r: "runCommand h live bin (''-D'' # chain # spec) False w = (e, w')" by fastforce
  note d = delete_step(1) [OF iptables_toolsD(2) [OF assms(1)] assms(2) r]
  show ?case
  proof (cases e)
    case None
    with r d Suc.IH [of w'] show ?thesis by (simp add: copies_remove)
  next
    case Some
    with delete_step_live [OF assms r] have "copies (rules w) bin chain spec = 0" by simp
    with r d Some show ?thesis by auto
  qed
qed simp

abbreviation delete_pairs :: "'w host \<Rightarrow> go_context \<Rightarrow> bytes \<Rightarrow> (bytes \<times> bytes list) list \<Rightarrow> 'w \<Rightarrow> 'w" where
  "delete_pairs h ctx bin ps w \<equiv>
     fold (deleteIPTablesRule h ctx bin) (map (\<lambda>(chain, spec). ''-D'' # chain # spec) ps) w"

lemma delete_pairs_any:
  assumes "iptables_tools h live rules" "bin \<in> iptables_bins"
  shows "LookPath h (delete_pairs h ctx bin ps w) = LookPath h w
    \<and> copies (rules (delete_pairs h ctx bin ps w)) b c s \<le> copies (rules w) b c s
    \<and> ((\<forall>(chain, spec) \<in> set ps. own_rule f bin chain spec) \<longrightarrow>
         foreign f (rules (delete_pairs h ctx bin ps w)) = foreign f (rules w))"
proof (induction ps arbitrary: w)
  case (Cons p ps)
  obtain chain spec where p: "p = (chain, spec)" by fastforce
  let ?w = "delete_loop h ctx bin (''-D'' # chain # spec) 20 w"
  from Cons.IH [of ?w] delete_loop_any [OF assms, of ctx chain spec 20 w b c s f] p show ?case
    by (auto simp: deleteIPTablesRule_def)
qed simp

lemma delete_pairs_live:
  assumes "iptables_tools h live rules" "bin \<in> iptables_bins" "distinct ps"
  shows "copies (rules (delete_pairs h live bin ps w)) b c s
    = copies (rules w) b c s - (if b = bin \<and> (c, s) \<in> set ps then 20 else 0)"
  using assms(3)
proof (induction ps arbitrary: w)
  case (Cons p ps)
  obtain chain spec where p: "p = (chain, spec)" by fastforce
  let ?w = "delete_loop h live bin (''-D'' # chain # spec) 20 w"
  from Cons.IH [of ?w] Cons.prems delete_loop_live [OF assms(1,2), of chain spec 20 w b c s] p show ?case
    by (auto simp: deleteIPTablesRule_def)
qed simp

section \<open>Cleaning up\<close>

lemma own_rule_pairs: "own_rule f bin c s \<longleftrightarrow> bin \<in> {ipv4Bin f, ipv6Bin f} \<and> (c, s) \<in> set (rule_pairs f)"
  by (auto simp: own_rule_def set_rule_pairs)

lemma cleanup_bin_any:
  assumes "iptables_tools h live rules" "wf_iptables f" "bin \<in> {ipv4Bin f, ipv6Bin f}"
  shows "LookPath h (cleanup_bin h f ctx bin w) = LookPath h w
    \<and> copies (rules (cleanup_bin h f ctx bin w)) b c s \<le> copies (rules w) b c s
    \<and> foreign f (rules (cleanup_bin h f ctx bin w)) = foreign f (rules w)"
proof -
  have "bin \<in> iptables_bins" using assms(2,3) by (auto simp: wf_iptables_def)
  moreover have "\<forall>(chain, spec) \<in> set (rule_pairs f). own_rule f bin chain spec"
    using assms(3) by (auto simp: own_rule_pairs)
  ultimately show ?thesis
    using delete_pairs_any [OF assms(1), of bin ctx "rule_pairs f" w b c s f]
    by (simp add: cleanup_bin_def rule_args_pairs)
qed

lemma cleanup_bin_live:
  assumes "iptables_tools h live rules" "wf_iptables f" "bin \<in> {ipv4Bin f, ipv6Bin f}"
  shows "copies (rules (cleanup_bin h f live bin w)) b c s
    = copies (rules w) b c s - (if b = bin \<and> LookPath h w bin = None \<and> own_rule f b c s then 20 else 0)"
proof -
  have "bin \<in> iptables_bins" using assms(2,3) by (auto simp: wf_iptables_def)
  then show ?thesis
    using delete_pairs_live [OF assms(1) _ distinct_rule_pairs [OF assms(2)], of bin w b c s] assms(3)
    by (auto simp: cleanup_bin_def rule_args_pairs own_rule_pairs)
qed

lemma iptables_Cleanup_any:
  assumes "iptables_tools h live rules" "wf_iptables f"
  shows "LookPath h (snd (iptables_Cleanup h f ctx w)) = LookPath h w"
    and "copies (rules (snd (iptables_Cleanup h f ctx w))) b c s \<le> copies (rules w) b c s"
    and "foreign f (rules (snd (iptables_Cleanup h f ctx w))) = foreign f (rules w)"
  using cleanup_bin_any [OF assms, of "ipv4Bin f" ctx w b c s]
    cleanup_bin_any [OF assms, of "ipv6Bin f" ctx "cleanup_bin h f ctx (ipv4Bin f) w" b c s]
  by (auto simp: iptables_Cleanup_def)

lemma iptables_Cleanup_live:
  assumes "iptables_tools h live rules" "wf_iptables f"
  shows "copies (rules (snd (iptables_Cleanup h f live w))) b c s
    = copies (rules w) b c s - (if LookPath h w b = None \<and> own_rule f b c s then 20 else 0)"
proof -
  have "ipv4Bin f \<noteq> ipv6Bin f" using assms(2) by (simp add: wf_iptables_def)
  then show ?thesis
    using cleanup_bin_live [OF assms, of "ipv4Bin f" w b c s]
      cleanup_bin_live [OF assms, of "ipv6Bin f" "cleanup_bin h f live (ipv4Bin f) w" b c s]
      cleanup_bin_any [OF assms, of "ipv4Bin f" live w b c s]
    by (auto simp: iptables_Cleanup_def own_rule_def)
qed

section \<open>Inserting\<close>

abbreviation insert_pairs ::
  "'w host \<Rightarrow> go_context \<Rightarrow> bytes \<Rightarrow> (bytes \<times> bytes list) list \<Rightarrow> 'w \<Rightarrow> goerror \<times> 'w" where
  "insert_pairs h ctx bin ps w \<equiv>
     run_until_error h ctx bin (map (\<lambda>(chain, spec). ''-I'' # chain # spec) ps) w"

text \<open>The rules of \<open>ps\<close> for one chain, the last inserted first.\<close>

definition on_top :: "(bytes \<times> bytes list) list \<Rightarrow> bytes \<Rightarrow> bytes list list" where
  "on_top ps chain = rev (map snd (filter (\<lambda>p. fst p = chain) ps))"

lemma insert_pairs_prefix:
  assumes "iptables_tools h live rules" "bin \<in> iptables_bins" "insert_pairs h ctx bin ps w = (e, w')"
  shows "LookPath h w' = LookPath h w \<and>
    (\<exists>done rest. ps = done @ rest \<and> (e = None \<longleftrightarrow> rest = []) \<and>
      rules w' = (\<lambda>b c. if b = bin then on_top done c @ rules w b c else rules w b c))"
  using assms(3)
proof (induction ps arbitrary: w)
  case (Cons p ps)
  obtain chain spec where p: "p = (chain, spec)" by fastforce
  obtain e1 w1 where r: "runCommand h ctx bin (''-I'' # chain # spec) False w = (e1, w1)" by fastforce
  have l: "LookPath h w1 = LookPath h w"
    using LookPath_runWithInput [OF iptables_toolsD(3) [OF assms(1)], of bin ctx _ _ _ w] assms(2) r
    by (metis program_tools_intros(1) runCommand_def snd_conv)
  note i = insert_step [OF iptables_toolsD(1) [OF assms(1)] assms(2) r]
  show ?case
  proof (cases e1)
    case None
    with Cons.prems p r have "insert_pairs h ctx bin ps w1 = (e, w')" by simp
    from Cons.IH [OF this] obtain ds rest where ds: "LookPath h w' = LookPath h w1" "ps = ds @ rest"
      "e = None \<longleftrightarrow> rest = []"
      "rules w' = (\<lambda>b c. if b = bin then on_top ds c @ rules w1 b c else rules w1 b c)"
      by blast
    have "rules w' = (\<lambda>b c. if b = bin then on_top (p # ds) c @ rules w b c else rules w b c)"
      by (rule ext)+ (simp add: ds(4) i None p on_top_def set_chain_apply)
    moreover have "p # ps = (p # ds) @ rest" "LookPath h w' = LookPath h w" by (simp_all add: ds l)
    ultimately show ?thesis using ds(3) by blast
  next
    case (Some err)
    with Cons.prems p r have e: "w' = w1" "e = Some err" by auto
    have "rules w' = (\<lambda>b c. if b = bin then on_top [] c @ rules w b c else rules w b c)"
      by (rule ext)+ (simp add: e i Some on_top_def)
    moreover have "p # ps = [] @ p # ps" "LookPath h w' = LookPath h w" "e \<noteq> None" by (simp_all add: e l)
    ultimately show ?thesis by blast
  qed
next
  case Nil
  then have "e = None" "w' = w" by auto
  moreover have "rules w = (\<lambda>b c. if b = bin then on_top [] c @ rules w b c else rules w b c)"
    by (rule ext)+ (simp add: on_top_def)
  ultimately show ?case by simp
qed

lemma count_on_top: "distinct ps \<Longrightarrow> count_list (on_top ps c) s = (if (c, s) \<in> set ps then 1 else 0)"
proof (induction ps)
  case (Cons p ps)
  then show ?case by (cases p) (auto simp: on_top_def)
qed (simp add: on_top_def)

lemma insert_pairs_own:
  assumes "iptables_tools h live rules" "wf_iptables f" "bin \<in> {ipv4Bin f, ipv6Bin f}"
    and "insert_pairs h ctx bin (rule_pairs f) w = (e, w')"
  shows "LookPath h w' = LookPath h w" and "foreign f (rules w') = foreign f (rules w)"
    and "copies (rules w') b c s \<le> copies (rules w) b c s + (if b = bin \<and> own_rule f b c s then 1 else 0)"
    and "e = None \<Longrightarrow> rules w' b c = (if b = bin then on_top (rule_pairs f) c @ rules w b c else rules w b c)"
proof -
  have bin: "bin \<in> iptables_bins" using assms(2,3) by (auto simp: wf_iptables_def)
  obtain ds rest where ds: "LookPath h w' = LookPath h w" "rule_pairs f = ds @ rest" "e = None \<longleftrightarrow> rest = []"
    "rules w' = (\<lambda>b c. if b = bin then on_top ds c @ rules w b c else rules w b c)"
    using insert_pairs_prefix [OF assms(1) bin assms(4)] by blast
  show "LookPath h w' = LookPath h w" by (rule ds(1))
  have own: "own_rule f bin c s" if "s \<in> set (on_top ds c)" for c s
    using that ds(2) assms(3) by (auto simp: on_top_def own_rule_pairs)
  have "filter (\<lambda>s. \<not> own_rule f bin c s) (on_top ds c) = []" for c
    using own by (simp add: filter_empty_conv)
  then show "foreign f (rules w') = foreign f (rules w)"
    by (intro ext) (simp add: foreign_def ds(4))
  have "distinct ds" using distinct_rule_pairs [OF assms(2)] ds(2) by (metis distinct_append)
  moreover have "own_rule f bin c s" if "(c, s) \<in> set ds"
    using that ds(2) assms(3) by (simp add: own_rule_pairs)
  ultimately show "copies (rules w') b c s \<le> copies (rules w) b c s + (if b = bin \<and> own_rule f b c s then 1 else 0)"
    by (simp add: ds(4) count_on_top)
  show "e = None \<Longrightarrow> rules w' b c = (if b = bin then on_top (rule_pairs f) c @ rules w b c else rules w b c)"
    using ds by simp
qed

lemma install_bins_own:
  assumes "iptables_tools h live rules" "wf_iptables f" "set bins \<subseteq> {ipv4Bin f, ipv6Bin f}" "distinct bins"
    and "install_bins h f ctx bins w = (e, w')"
  shows "LookPath h w' = LookPath h w \<and> foreign f (rules w') = foreign f (rules w)
    \<and> copies (rules w') b c s \<le> copies (rules w) b c s + (if b \<in> set bins \<and> own_rule f b c s then 1 else 0)
    \<and> (e = None \<longrightarrow> rules w' b c =
         (if b \<in> set bins \<and> LookPath h w b = None then on_top (rule_pairs f) c @ rules w b c else rules w b c))"
  using assms(3-5)
proof (induction bins arbitrary: w)
  case (Cons bin bins)
  have bin: "bin \<in> {ipv4Bin f, ipv6Bin f}" using Cons.prems(1) by simp
  have IH: "install_bins h f ctx bins w1 = (e, w') \<Longrightarrow> LookPath h w' = LookPath h w1
    \<and> foreign f (rules w') = foreign f (rules w1)
    \<and> copies (rules w') b c s \<le> copies (rules w1) b c s + (if b \<in> set bins \<and> own_rule f b c s then 1 else 0)
    \<and> (e = None \<longrightarrow> rules w' b c =
         (if b \<in> set bins \<and> LookPath h w1 b = None then on_top (rule_pairs f) c @ rules w1 b c else rules w1 b c))"
    for w1
    using Cons.IH Cons.prems(1,2) by simp
  show ?case
  proof (cases "LookPath h w bin")
    case (Some err)
    then have "install_bins h f ctx bins w = (e, w') \<or> e \<noteq> None \<and> w' = w"
      using Cons.prems(3) by (auto split: if_splits)
    then show ?thesis using IH [of w] Some by (auto split: if_splits)
  next
    case None
    obtain e1 w1 where r: "insert_pairs h ctx bin (rule_pairs f) w = (e1, w1)" by fastforce
    note i = insert_pairs_own [OF assms(1,2) bin r]
    show ?thesis
    proof (cases e1)
      case (Some err)
      with Cons.prems(3) None r have "e \<noteq> None" "w' = w1" by (auto simp: rule_args_pairs)
      with i(1,2) i(3) [of b c s] show ?thesis by (auto split: if_splits)
    next
      case None': None
      with Cons.prems(3) None r have "install_bins h f ctx bins w1 = (e, w')" by (simp add: rule_args_pairs)
      from IH [OF this] i(1,2) i(3) [of b c s] i(4) [OF None', of b c] None Cons.prems(2)
      show ?thesis by auto
    qed
  qed
qed simp

section \<open>Installing\<close>

lemma ensure_keeps:
  assumes "others_law h rules"
  shows "LookPath h (ensureNFQueueKernelSupport h ctx w) = LookPath h w
    \<and> rules (ensureNFQueueKernelSupport h ctx w) = rules w"
proof -
  let ?step = "\<lambda>module w. snd (runCommand h ctx ''modprobe'' [module] True w)"
  have "LookPath h (fold ?step ms v) = LookPath h v \<and> rules (fold ?step ms v) = rules v" if "set ms \<subseteq> set kernel_modules" for ms v
    using that
    by (induction ms arbitrary: v)
       (simp_all add: runCommand_def LookPath_runWithInput [OF assms] rules_runWithInput [OF assms] other_cmds_def modprobe_cmds_def)
  then show ?thesis by (simp add: ensureNFQueueKernelSupport_def)
qed

lemma iptables_Install_own:
  assumes "iptables_tools h live rules" "wf_iptables f" and "iptables_Install h f ctx w = (e, w')"
  shows "LookPath h w' = LookPath h w" and "foreign f (rules w') = foreign f (rules w)"
    and "copies (rules w') b c s \<le> copies (rules w) b c s + (if own_rule f b c s then 1 else 0)"
    and "e = None \<Longrightarrow> rules w' b c =
      (let R = rules (snd (iptables_Cleanup h f ctx (ensureNFQueueKernelSupport h ctx w))) in
       if b \<in> {ipv4Bin f, ipv6Bin f} \<and> LookPath h w b = None then on_top (rule_pairs f) c @ R b c else R b c)"
proof -
  let ?w1 = "ensureNFQueueKernelSupport h ctx w"
  let ?w2 = "snd (iptables_Cleanup h f ctx ?w1)"
  note e = ensure_keeps [OF iptables_toolsD(3) [OF assms(1)], of ctx w]
  note cl = iptables_Cleanup_any [OF assms(1,2), of ctx ?w1]
  have "install_bins h f ctx [ipv4Bin f, ipv6Bin f] ?w2 = (e, w')"
    using assms(3) by (simp add: iptables_Install_def Let_def)
  note i = install_bins_own [OF assms(1,2) _ _ this, of b c s]
  have d: "distinct [ipv4Bin f, ipv6Bin f]" using assms(2) by (simp add: wf_iptables_def)
  show "LookPath h w' = LookPath h w" "foreign f (rules w') = foreign f (rules w)"
    using i d e cl by simp_all
  show "copies (rules w') b c s \<le> copies (rules w) b c s + (if own_rule f b c s then 1 else 0)"
    using i d e cl(2) [of b c s] by (auto simp: own_rule_def split: if_splits)
  show "e = None \<Longrightarrow> rules w' b c =
      (let R = rules ?w2 in
       if b \<in> {ipv4Bin f, ipv6Bin f} \<and> LookPath h w b = None then on_top (rule_pairs f) c @ R b c else R b c)"
    using i d e cl(1) by (simp add: Let_def)
qed

text \<open>
  An installation, successful or not, followed by a clean-up: the own rules are gone and the rest of
  every chain is as before, provided there were fewer than twenty copies of an own rule to begin with.
\<close>

lemma install_then_cleanup:
  assumes "iptables_tools h Background rules" "wf_iptables f" "iptables_Install h f ctx w = (e, w')"
    and "\<forall>b c s. own_rule f b c s \<longrightarrow> copies (rules w) b c s < 20"
    and "LookPath h w b = None"
  shows "rules (snd (iptables_Cleanup h f Background w')) b c = foreign f (rules w) b c"
proof -
  let ?R = "rules (snd (iptables_Cleanup h f Background w'))"
  note i = iptables_Install_own [OF assms(1-3)]
  have "copies ?R b c s = 0" if "own_rule f b c s" for s
    using iptables_Cleanup_live [OF assms(1,2), of w' b c s] i(1) i(3) [of b c s] assms(4,5) that by fastforce
  then have "foreign f ?R b c = ?R b c" by (intro foreign_all) blast
  then show ?thesis using iptables_Cleanup_any(3) [OF assms(1,2)] i(2) by metis
qed

lemma on_top_rule_pairs:
  assumes "wf_iptables f" "chain \<in> set (normalizedChains (Chains (ipt_cfg f)))"
  shows "on_top (rule_pairs f) (ToUpper chain) = rev (rule_specs f)"
proof -
  let ?cs = "normalizedChains (Chains (ipt_cfg f))"
  have inj: "inj_on ToUpper (set ?cs)"
    using valid_chains assms(1) ToUpper_chain_inj by (meson inj_on_subset wf_iptables_def)
  have "map snd (filter (\<lambda>p. fst p = ToUpper chain)
      (concat (map (\<lambda>c. map (\<lambda>spec. (ToUpper c, spec)) (rule_specs f)) cs)))
    = (if chain \<in> set cs then rule_specs f else [])" if "distinct cs" "set cs \<subseteq> set ?cs" for cs
    using that
  proof (induction cs)
    case (Cons c cs)
    have eq: "ToUpper c = ToUpper chain \<longleftrightarrow> c = chain"
      using inj assms(2) Cons.prems(2) by (auto dest: inj_onD)
    show ?case using Cons eq by (auto simp: filter_map o_def)
  qed simp
  from this [OF distinct_normalizedChains subset_refl] assms(2) show ?thesis
    by (simp add: on_top_def rule_pairs_def)
qed

text \<open>
  A successful installation puts the program's rules in front of each configured chain of each
  available tool, the last inserted first, removes up to twenty older copies of each of them, and
  changes nothing else.
\<close>

lemma iptables_Install_top:
  assumes "iptables_tools h ctx rules" and "wf_iptables f" and "iptables_Install h f ctx w = (None, w')"
    and "chain \<in> set (normalizedChains (Chains (ipt_cfg f)))" and "bin \<in> {ipv4Bin f, ipv6Bin f}"
    and "LookPath h w bin = None"
  shows "\<exists>rest. rules w' bin (ToUpper chain) = rev (rule_specs f) @ rest
    \<and> (\<forall>s. count_list rest s = count_list (rules w bin (ToUpper chain)) s - (if s \<in> set (rule_specs f) then 20 else 0))
    \<and> foreign f (rules w') = foreign f (rules w)"
proof -
  let ?w1 = "ensureNFQueueKernelSupport h ctx w"
  let ?R = "rules (snd (iptables_Cleanup h f ctx ?w1))"
  note i = iptables_Install_own [OF assms(1-3)]
  have e: "LookPath h ?w1 = LookPath h w" "rules ?w1 = rules w"
    using ensure_keeps [OF iptables_toolsD(3) [OF assms(1)]] by auto
  have "rules w' bin (ToUpper chain) = rev (rule_specs f) @ ?R bin (ToUpper chain)"
    using i(4) [of bin "ToUpper chain"] assms(5,6) on_top_rule_pairs [OF assms(2,4)] by (simp add: Let_def)
  moreover have "own_rule f bin (ToUpper chain) s \<longleftrightarrow> s \<in> set (rule_specs f)" for s
    using assms(4,5) by (auto simp: own_rule_def upper_chains_def)
  ultimately show ?thesis
    using iptables_Cleanup_live [OF assms(1,2), of ?w1 bin "ToUpper chain"] e assms(6) i(2) by auto
qed

section \<open>Failed installations\<close>

text \<open>The insertions of an installation in their order: tool, chain and rule.\<close>

definition install_steps :: "iptablesFirewall \<Rightarrow> bytes list \<Rightarrow> (bytes \<times> bytes \<times> bytes list) list" where
  "install_steps f bins = concat (map (\<lambda>bin. map (Pair bin) (rule_pairs f)) bins)"

definition steps_on_top :: "(bytes \<times> bytes \<times> bytes list) list \<Rightarrow> bytes \<Rightarrow> bytes \<Rightarrow> bytes list list" where
  "steps_on_top steps bin = on_top (map snd (filter (\<lambda>p. fst p = bin) steps))"

lemma steps_on_top_append: "steps_on_top (xs @ ys) bin chain = steps_on_top ys bin chain @ steps_on_top xs bin chain"
  by (simp add: steps_on_top_def on_top_def)

lemma steps_on_top_bin: "steps_on_top (map (Pair b) ps) bin chain = (if bin = b then on_top ps chain else [])"
  by (simp add: steps_on_top_def filter_map o_def on_top_def)

text \<open>An installation that fails stops at some insertion; what was inserted before it stays.\<close>

lemma install_bins_failed:
  assumes "iptables_tools h live rules" "wf_iptables f"
  shows "set bins \<subseteq> {ipv4Bin f, ipv6Bin f} \<Longrightarrow> \<forall>bin \<in> set bins. bin \<noteq> ipv6Bin f \<longrightarrow> LookPath h w bin = None \<Longrightarrow>
    install_bins h f ctx bins w = (Some err, w') \<Longrightarrow>
    \<exists>ins rest. install_steps f (filter (\<lambda>bin. LookPath h w bin = None) bins) = ins @ rest \<and> rest \<noteq> []
      \<and> rules w' = (\<lambda>b c. steps_on_top ins b c @ rules w b c)"
proof (induction bins arbitrary: w)
  case (Cons bin bins)
  have bin: "bin \<in> iptables_bins" using assms(2) Cons.prems(1) by (auto simp: wf_iptables_def)
  show ?case
  proof (cases "LookPath h w bin")
    case (Some e)
    then have "bin = ipv6Bin f" using Cons.prems(2) by auto
    then have "install_bins h f ctx bins w = (Some err, w')" using Cons.prems(3) Some by simp
    then show ?thesis using Cons.IH [of w] Cons.prems(1,2) Some by simp
  next
    case None
    obtain e1 w1 where r: "insert_pairs h ctx bin (rule_pairs f) w = (e1, w1)" by fastforce
    obtain ds rest where ds: "LookPath h w1 = LookPath h w" "rule_pairs f = ds @ rest" "e1 = None \<longleftrightarrow> rest = []"
      "rules w1 = (\<lambda>b c. if b = bin then on_top ds c @ rules w b c else rules w b c)"
      using insert_pairs_prefix [OF assms(1) bin r] by blast
    let ?bins = "filter (\<lambda>bin. LookPath h w bin = None) bins"
    have st: "install_steps f (filter (\<lambda>bin. LookPath h w bin = None) (bin # bins))
        = map (Pair bin) (rule_pairs f) @ install_steps f ?bins"
      using None by (simp add: install_steps_def)
    have r1: "rules w1 = (\<lambda>b c. steps_on_top (map (Pair bin) ds) b c @ rules w b c)"
      by (rule ext)+ (simp add: ds(4) steps_on_top_bin)
    show ?thesis
    proof (cases e1)
      case (Some e)
      then have "w' = w1" using Cons.prems(3) None r by (simp add: rule_args_pairs)
      then show ?thesis
        using st ds(2,3) r1 Some
        by (intro exI [of _ "map (Pair bin) ds"] exI [of _ "map (Pair bin) rest @ install_steps f ?bins"]) simp
    next
      case None': None
      then have "install_bins h f ctx bins w1 = (Some err, w')" using Cons.prems(3) None r by (simp add: rule_args_pairs)
      then obtain ins rest' where d: "install_steps f ?bins = ins @ rest'" "rest' \<noteq> []"
        "rules w' = (\<lambda>b c. steps_on_top ins b c @ rules w1 b c)"
        using Cons.IH [of w1] Cons.prems(1,2) ds(1) by auto
      have "rules w' = (\<lambda>b c. steps_on_top (map (Pair bin) (rule_pairs f) @ ins) b c @ rules w b c)"
        using d(3) r1 ds(2,3) None' by (simp add: steps_on_top_append)
      then show ?thesis
        using st d(1,2) by (intro exI [of _ "map (Pair bin) (rule_pairs f) @ ins"] exI [of _ rest']) simp
    qed
  qed
qed simp

lemma iptables_Install_failed:
  assumes "iptables_tools h ctx rules" "wf_iptables f" "LookPath h w (ipv4Bin f) = None"
    and "iptables_Install h f ctx w = (Some err, w')"
  shows "\<exists>ins rest. install_steps f (filter (\<lambda>bin. LookPath h w bin = None) [ipv4Bin f, ipv6Bin f]) = ins @ rest \<and> rest \<noteq> []
    \<and> (\<forall>bin chain. \<exists>old. rules w' bin chain = steps_on_top ins bin chain @ old
         \<and> (\<forall>spec. count_list old spec = count_list (rules w bin chain) spec
              - (if LookPath h w bin = None \<and> own_rule f bin chain spec then 20 else 0)))"
proof -
  let ?w1 = "ensureNFQueueKernelSupport h ctx w"
  let ?w2 = "snd (iptables_Cleanup h f ctx ?w1)"
  have e: "LookPath h ?w1 = LookPath h w" "rules ?w1 = rules w"
    using ensure_keeps [OF iptables_toolsD(3) [OF assms(1)]] by auto
  have l: "LookPath h ?w2 = LookPath h w" using iptables_Cleanup_any(1) [OF assms(1,2)] e by simp
  have c: "count_list (rules ?w2 bin chain) spec = count_list (rules w bin chain) spec
      - (if LookPath h w bin = None \<and> own_rule f bin chain spec then 20 else 0)" for bin chain spec
    using iptables_Cleanup_live [OF assms(1,2), of ?w1 bin chain spec] e by simp
  have "install_bins h f ctx [ipv4Bin f, ipv6Bin f] ?w2 = (Some err, w')"
    using assms(4) by (simp add: iptables_Install_def Let_def)
  then obtain ins rest where
    "install_steps f (filter (\<lambda>bin. LookPath h ?w2 bin = None) [ipv4Bin f, ipv6Bin f]) = ins @ rest" "rest \<noteq> []"
    "rules w' = (\<lambda>b c. steps_on_top ins b c @ rules ?w2 b c)"
    using install_bins_failed [OF assms(1,2), of "[ipv4Bin f, ipv6Bin f]" ?w2 ctx err w'] assms(3) l by auto
  then show ?thesis using c l by (intro exI [of _ ins] exI [of _ rest]) fastforce
qed

section \<open>The nft tool\<close>

text \<open>The scripts loaded into the table \<open>inet middle_filter\<close> since it was last deleted.\<close>

definition nft_tool :: "'w host \<Rightarrow> go_context \<Rightarrow> ('w \<Rightarrow> bytes list) \<Rightarrow> bool" where
  "nft_tool h live loaded \<longleftrightarrow>
     (\<forall>ctx cfg w err stderr w'. RunCmd h ctx ''nft'' [''-f'', ''-''] (nft_script cfg) w = ((err, stderr), w') \<longrightarrow>
        loaded w' = (if err = None then loaded w @ [nft_script cfg] else loaded w))
     \<and> (\<forall>ctx w err stderr w'. RunCmd h ctx ''nft'' nft_delete_args [] w = ((err, stderr), w') \<longrightarrow>
        loaded w' = (if err = None then [] else loaded w))
     \<and> (\<forall>w. loaded w \<noteq> [] \<longrightarrow> fst (fst (RunCmd h live ''nft'' nft_delete_args [] w)) = None)
     \<and> (\<forall>ctx args stdin w. loaded (snd (RunCmd h ctx ''modprobe'' args stdin w)) = loaded w)"

lemma nft_Cleanup_loaded:
  assumes "nft_tool h live loaded"
  shows "loaded (snd (nft_Cleanup h cfg live w)) = []"
proof -
  obtain err stderr w' where r: "RunCmd h live ''nft'' nft_delete_args [] w = ((err, stderr), w')"
    by (metis prod.collapse)
  then have "loaded w' = (if err = None then [] else loaded w)" and "loaded w \<noteq> [] \<longrightarrow> err = None"
    using assms unfolding nft_tool_def by (metis, metis fst_conv)
  then show ?thesis using r by (auto simp: nft_Cleanup_def runWithInput_def split: option.split)
qed

lemma nft_Install_loaded:
  assumes "nft_tool h live loaded" "nft_Install h cfg live w = (e, w')"
  shows "loaded w' = (if e = None then [nft_script cfg] else [])"
proof -
  let ?w = "snd (nft_Cleanup h cfg live (ensureNFQueueKernelSupport h live w))"
  obtain err stderr w2 where r: "RunCmd h live ''nft'' [''-f'', ''-''] (nft_script cfg) ?w = ((err, stderr), w2)"
    by (metis prod.collapse)
  have "loaded w2 = (if err = None then loaded ?w @ [nft_script cfg] else loaded ?w)"
    using assms(1) r unfolding nft_tool_def by metis
  then show ?thesis
    using assms(2) r nft_Cleanup_loaded [OF assms(1), of cfg "ensureNFQueueKernelSupport h live w"]
    by (auto simp: nft_Install_def runWithInput_def Let_def split: option.splits)
qed

text \<open>The iptables commands of the program leave the nft table of the program alone.\<close>

definition nft_apart :: "'w host \<Rightarrow> ('w \<Rightarrow> bytes list) \<Rightarrow> bool" where
  "nft_apart h loaded \<longleftrightarrow>
     (\<forall>ctx bin op chain spec w. bin \<in> iptables_bins \<longrightarrow> op \<in> {''-I'', ''-D''} \<longrightarrow>
        loaded (snd (RunCmd h ctx bin (op # chain # spec) [] w)) = loaded w)"

definition firewall_tools ::
  "'w host \<Rightarrow> go_context \<Rightarrow> ('w \<Rightarrow> rule_table) \<Rightarrow> ('w \<Rightarrow> bytes list) \<Rightarrow> bool" where
  "firewall_tools h live rules loaded \<longleftrightarrow> iptables_tools h live rules \<and> nft_tool h live loaded \<and> nft_apart h loaded"

lemma firewall_toolsD:
  assumes "firewall_tools h live rules loaded"
  shows "iptables_tools h live rules" "nft_tool h live loaded" "nft_apart h loaded"
  using assms by (simp_all add: firewall_tools_def)

text \<open>The commands of an iptables backend keep the table, so its operations do.\<close>

lemma iptables_cmds_keep_table:
  assumes "firewall_tools h live rules loaded" "wf_iptables f"
  shows "kept_by h (backend_cmds (Iptables f)) (\<lambda>w. loaded w = t)"
  using assms(2) firewall_toolsD(2,3) [OF assms(1)]
  by (auto simp: kept_by_def backend_cmds_def modprobe_cmds_def rule_args_pairs wf_iptables_def nft_apart_def nft_tool_def)

lemma iptables_keeps_table:
  assumes "firewall_tools h live rules loaded" "wf_iptables f"
  shows "loaded (snd (backend_Install h (Iptables f) ctx w)) = loaded w"
    and "loaded (snd (backend_Cleanup h (Iptables f) ctx w)) = loaded w"
  using be.inst_frame [OF iptables_cmds_keep_table [OF assms] refl]
    be.clean_frame [OF iptables_cmds_keep_table [OF assms] refl] by simp_all

end
