(* ===== verification/Firewall_Properties.thy ===== *)
theory Firewall_Properties
  imports Firewall_Kernel
begin

text \<open>
  The properties of the firewall managers: what installing and cleaning up do to the packet filter
  when the tools behave as documented, which manager a configuration gets, and how the automatic
  manager falls back. The simulated machine is the concrete instance on which the laws of the tools
  are checked and the properties are tried.
\<close>

section \<open>A simulated machine\<close>

text \<open>
  A concrete machine for which the laws of the tools hold: rule tables, the loaded nft scripts, the
  tools that are not installed, and the tools that refuse insertions.
\<close>

record machine =
  m_rules :: rule_table
  m_nft :: "bytes list"
  m_missing :: "bytes list"
  m_refuse :: "bytes list"

abbreviation exit1 :: "machine \<Rightarrow> (goerror \<times> bytes) \<times> machine" where
  "exit1 m \<equiv> ((Some ''exit status 1'', ''refused''), m)"

definition sim_iptables :: "bytes \<Rightarrow> bytes list \<Rightarrow> machine \<Rightarrow> (goerror \<times> bytes) \<times> machine" where
  "sim_iptables bin args m =
     (case args of
        op # chain # spec \<Rightarrow>
          (let rs = m_rules m bin chain in
           if op = ''-I'' \<and> bin \<notin> set (m_refuse m)
           then ((None, []), m\<lparr>m_rules := set_chain (m_rules m) bin chain (spec # rs)\<rparr>)
           else if op = ''-D'' \<and> spec \<in> set rs
           then ((None, []), m\<lparr>m_rules := set_chain (m_rules m) bin chain (remove1 spec rs)\<rparr>)
           else exit1 m)
      | _ \<Rightarrow> exit1 m)"

definition sim_nft :: "bytes list \<Rightarrow> bytes \<Rightarrow> machine \<Rightarrow> (goerror \<times> bytes) \<times> machine" where
  "sim_nft args stdin m =
     (if args = [''-f'', ''-''] \<and> ''nft'' \<notin> set (m_refuse m) then ((None, []), m\<lparr>m_nft := m_nft m @ [stdin]\<rparr>)
      else if args = nft_delete_args \<and> m_nft m \<noteq> [] then ((None, []), m\<lparr>m_nft := []\<rparr>)
      else exit1 m)"

definition sim_host :: "machine host" where
  "sim_host =
     \<lparr>LookPath = (\<lambda>m tool. if tool \<in> set (m_missing m) then Some ''not found'' else None),
      RunCmd = (\<lambda>ctx name args stdin m.
        if name \<in> iptables_bins then sim_iptables name args m
        else if name = ''nft'' then sim_nft args stdin m
        else if name = ''modprobe'' then ((None, []), m)
        else exit1 m)\<rparr>"

lemma tool_names: "''modprobe'' \<notin> iptables_bins" "''nft'' \<notin> iptables_bins"
  by (simp_all add: iptables_bins_def)

lemma sim_iptables_tools: "iptables_tools sim_host live m_rules"
proof -
  have ids: "insert_law sim_host m_rules" "delete_law sim_host m_rules"
    by (auto simp: insert_law_def delete_law_def sim_host_def sim_iptables_def Let_def split: if_splits)
  have "m_missing (snd (RunCmd sim_host ctx name args stdin m)) = m_missing m" for ctx name args stdin m
    by (auto simp: sim_host_def sim_iptables_def sim_nft_def Let_def split: list.split)
  moreover have "m_rules (snd (RunCmd sim_host ctx name args stdin m)) = m_rules m" if "name \<notin> iptables_bins"
    for ctx name args stdin m
    using that by (simp add: sim_host_def sim_nft_def)
  moreover have "name \<notin> iptables_bins" if "(name, args, stdin) \<in> other_cmds" for name args stdin
    using that tool_names by (auto simp: other_cmds_def modprobe_cmds_def)
  moreover have "LookPath sim_host m = LookPath sim_host m'" if "m_missing m = m_missing m'" for m m'
    using that by (simp add: sim_host_def)
  ultimately have "others_law sim_host m_rules" unfolding others_law_def by blast
  with ids show ?thesis
    by (auto simp: iptables_tools_def sim_host_def sim_iptables_def Let_def)
qed

lemma sim_nft_tool: "nft_tool sim_host live m_nft"
  by (auto simp: nft_tool_def sim_host_def sim_nft_def iptables_bins_def nft_delete_args_def split: if_splits)

lemma sim_firewall_tools: "firewall_tools sim_host live m_rules m_nft"
proof -
  have "nft_apart sim_host m_nft"
    by (auto simp: nft_apart_def sim_host_def sim_iptables_def Let_def)
  then show ?thesis by (simp add: firewall_tools_def sim_iptables_tools sim_nft_tool)
qed

definition example_nfq :: NFQueueConfig where
  "example_nfq =
     \<lparr>QueueNum = 100, FirewallBackend = ''iptables'', InstallRules = True, Chains = [''input'', '' OUTPUT''],
      Capture = ''all'', FailOpen = True, DNSMode = ''nxdomain''\<rparr>"

definition example_iptables :: iptablesFirewall where
  "example_iptables =
     \<lparr>ipt_cfg = example_nfq, ipv4Bin = ''iptables'', ipv6Bin = ''ip6tables'', label = ''iptables''\<rparr>"

definition example_rule :: "bytes list" where
  "example_rule = [''-s'', ''192.0.2.1'', ''-j'', ''DROP'']"

definition example_machine :: machine where
  "example_machine = \<lparr>m_rules = (\<lambda>bin chain. [example_rule]), m_nft = [], m_missing = [], m_refuse = []\<rparr>"

lemma example_chains: "normalizedChains (Chains example_nfq) = [''input'', ''output'']"
  by code_simp

lemma example_specs: "rule_specs example_iptables = [[''-j'', ''NFQUEUE'', ''--queue-num'', ''100'', ''--queue-bypass'']]"
  by code_simp

lemma wf_example_iptables: "wf_iptables example_iptables"
proof -
  have "validateNFQueueConfig example_nfq = None" by code_simp
  then show ?thesis by (simp add: wf_iptables_def example_iptables_def iptables_bins_def)
qed

lemma example_copies: "own_rule example_iptables b c s \<Longrightarrow> copies (m_rules example_machine) b c s = 0"
  by (auto simp: own_rule_def example_specs example_machine_def example_rule_def)

lemma example_LookPath: "LookPath sim_host example_machine b = None"
  by (simp add: sim_host_def example_machine_def)

section \<open>What installing and cleaning up do\<close>

text \<open>
  C30: Installing the iptables rules, whether it succeeds or stops half-way, and cleaning up after it
  leaves every chain of an available tool as it was without the program's rules: all of them are gone,
  also those left over from an earlier crash (fewer than twenty copies of each), and the rules of
  others are all there, in their order.
\<close>

theorem iptables_install_cleanup_restores:
  assumes "iptables_tools h Background rules" and "wf_iptables f" and "iptables_Install h f ctx w = (e, w')"
    and "\<forall>b c s. own_rule f b c s \<longrightarrow> copies (rules w) b c s < 20"
    and "LookPath h w bin = None"
  shows "rules (snd (iptables_Cleanup h f Background w')) bin chain
    = filter (\<lambda>spec. \<not> own_rule f bin chain spec) (rules w bin chain)"
  using install_then_cleanup [OF assms] by (simp add: foreign_def)

theorem iptables_install_cleanup_witness:
  "m_rules (snd (iptables_Cleanup sim_host example_iptables Background
      (snd (iptables_Install sim_host example_iptables SignalContext example_machine)))) ''iptables'' ''INPUT''
   = [example_rule]"
proof -
  have "m_rules (snd (iptables_Cleanup sim_host example_iptables Background
      (snd (iptables_Install sim_host example_iptables SignalContext example_machine)))) ''iptables'' ''INPUT''
    = filter (\<lambda>spec. \<not> own_rule example_iptables ''iptables'' ''INPUT'' spec)
        (m_rules example_machine ''iptables'' ''INPUT'')"
    by (rule iptables_install_cleanup_restores
        [OF sim_iptables_tools wf_example_iptables surjective_pairing _ example_LookPath])
       (simp add: example_copies)
  then show ?thesis
    by (simp add: example_machine_def own_rule_def example_specs example_rule_def)
qed

text \<open>
  A clean-up removes up to twenty copies of each rule of the program, from every available tool,
  and no other rule: of any rule at all it leaves the copies beyond twenty if it is the program's own
  and all copies if it is not.
\<close>

lemma iptables_Cleanup_counts:
  assumes "iptables_tools h ctx rules" and "wf_iptables f"
  shows "count_list (rules (snd (iptables_Cleanup h f ctx w)) bin chain) spec
    = count_list (rules w bin chain) spec
      - (if LookPath h w bin = None \<and> own_rule f bin chain spec then 20 else 0)"
  by (rule iptables_Cleanup_live [OF assms])

definition crowded_machine :: machine where
  "crowded_machine = example_machine\<lparr>m_rules := (\<lambda>bin chain. replicate 21 (hd (rule_specs example_iptables)))\<rparr>"

lemma count_list_replicate_same: "count_list (replicate n x) x = n"
  by (induction n) simp_all

text \<open>
  C32: The nftables backend never piles up rules: after an installation the program's table holds its
  script exactly once, or nothing if the installation failed, whatever was there before, and after a
  clean-up it holds nothing.
\<close>

theorem nft_table_holds_one_script:
  assumes "nft_tool h ctx loaded" and "nft_Install h cfg ctx w = (e, w')"
  shows "loaded w' = (if e = None then [nft_script cfg] else [])
    \<and> loaded (snd (nft_Cleanup h cfg ctx w')) = []"
  using nft_Install_loaded [OF assms] nft_Cleanup_loaded [OF assms(1)] by simp

theorem nft_table_holds_one_script_witness:
  "m_nft (snd (nft_Install sim_host example_nfq SignalContext (example_machine\<lparr>m_nft := [''old'', ''older'']\<rparr>)))
   = [nft_script example_nfq]"
proof -
  let ?m = "example_machine\<lparr>m_nft := [''old'', ''older'']\<rparr>"
  have "fst (nft_Install sim_host example_nfq SignalContext ?m) = None" by code_simp
  then have "nft_Install sim_host example_nfq SignalContext ?m = (None, snd (nft_Install sim_host example_nfq SignalContext ?m))"
    by (metis surjective_pairing)
  from nft_table_holds_one_script [OF sim_nft_tool this] show ?thesis by simp
qed

section \<open>Managers\<close>

text \<open>
  What a backend puts on the machine: an iptables backend rules in the chains of its tools, the
  nftables backend the table \<open>inet middle_filter\<close>.
\<close>

definition backend_owns_rule :: "backend \<Rightarrow> bytes \<Rightarrow> bytes \<Rightarrow> bytes list \<Rightarrow> bool" where
  "backend_owns_rule b bin chain spec \<longleftrightarrow> (case b of Nft cfg \<Rightarrow> False | Iptables f \<Rightarrow> own_rule f bin chain spec)"

definition backend_owns_table :: "backend \<Rightarrow> bool" where
  "backend_owns_table b \<longleftrightarrow> (case b of Nft cfg \<Rightarrow> True | Iptables f \<Rightarrow> False)"

definition wf_backend :: "backend \<Rightarrow> bool" where
  "wf_backend b \<longleftrightarrow>
     (case b of Nft cfg \<Rightarrow> validateNFQueueConfig cfg = None | Iptables f \<Rightarrow> wf_iptables f)"

lemma backend_Cleanup_live:
  assumes "iptables_tools h live rules" "wf_backend b"
  shows "LookPath h (snd (backend_Cleanup h b live w)) = LookPath h w
    \<and> copies (rules (snd (backend_Cleanup h b live w))) bin c s
      = copies (rules w) bin c s - (if LookPath h w bin = None \<and> backend_owns_rule b bin c s then 20 else 0)"
proof (cases b)
  case (Nft cfg)
  then show ?thesis
    using LookPath_runWithInput [OF iptables_toolsD(3) [OF assms(1)]] rules_runWithInput [OF iptables_toolsD(3) [OF assms(1)]]
    by (simp add: backend_Cleanup_def nft_Cleanup_def backend_owns_rule_def other_cmds_def)
next
  case (Iptables f)
  with assms(2) have "wf_iptables f" by (simp add: wf_backend_def)
  with Iptables show ?thesis
    using iptables_Cleanup_any(1) [OF assms(1)] iptables_Cleanup_live [OF assms(1)]
    by (simp add: backend_Cleanup_def backend_owns_rule_def)
qed

lemma auto_cleanup_live:
  assumes "iptables_tools h live rules"
  shows "\<forall>b \<in> set bs. wf_backend b \<Longrightarrow>
    copies (rules (auto_cleanup (backend_Cleanup h) live bs w)) bin c s
    = copies (rules w) bin c s
      - 20 * length (filter (\<lambda>b. LookPath h w bin = None \<and> backend_owns_rule b bin c s) bs)"
proof (induction bs arbitrary: w)
  case (Cons b bs)
  then show ?case
    using backend_Cleanup_live [OF assms, of b w bin c s] by (auto simp: auto_cleanup_def)
qed (simp add: auto_cleanup_def)

lemma Cleanup_live:
  assumes "iptables_tools h live rules" "\<forall>b \<in> set (manager_backends m). wf_backend b"
    and "Cleanup h live m w = (e, m', w')"
  shows "copies (rules w') bin c s = copies (rules w) bin c s
    - 20 * length (filter (\<lambda>b. LookPath h w bin = None \<and> backend_owns_rule b bin c s) (manager_backends m))"
proof (cases m)
  case (Plain b)
  with assms show ?thesis
    using backend_Cleanup_live [OF assms(1), of b w bin c s]
    by (auto simp: Cleanup_def manager_backends_def split: prod.splits)
next
  case (Auto cs act)
  with assms show ?thesis
    using auto_cleanup_live [OF assms(1), of cs w bin c s] by (auto simp: Cleanup_def manager_backends_def)
qed

text \<open>The nft table is gone if some backend is nftables, and untouched otherwise.\<close>

lemma backend_Cleanup_table:
  assumes "firewall_tools h live rules loaded" "wf_backend b"
  shows "loaded (snd (backend_Cleanup h b live w)) = (if backend_owns_table b then [] else loaded w)"
proof (cases b)
  case (Nft cfg)
  then show ?thesis
    using nft_Cleanup_loaded [OF firewall_toolsD(2) [OF assms(1)]] by (simp add: backend_Cleanup_def backend_owns_table_def)
next
  case (Iptables f)
  then show ?thesis
    using iptables_keeps_table(2) [OF assms(1)] assms(2) by (simp add: wf_backend_def backend_owns_table_def)
qed

lemma auto_cleanup_table:
  assumes "firewall_tools h live rules loaded"
  shows "\<forall>b \<in> set bs. wf_backend b \<Longrightarrow>
    loaded (auto_cleanup (backend_Cleanup h) live bs w) = (if \<exists>b \<in> set bs. backend_owns_table b then [] else loaded w)"
proof (induction bs arbitrary: w)
  case (Cons b bs)
  then show ?case
    using backend_Cleanup_table [OF assms, of b w] by (auto simp: auto_cleanup_def)
qed (simp add: auto_cleanup_def)

lemma Cleanup_table:
  assumes "firewall_tools h live rules loaded" "\<forall>b \<in> set (manager_backends m). wf_backend b"
    and "Cleanup h live m w = (e, m', w')"
  shows "loaded w' = (if \<exists>b \<in> set (manager_backends m). backend_owns_table b then [] else loaded w)"
proof (cases m)
  case (Plain b)
  with assms show ?thesis
    using backend_Cleanup_table [OF assms(1), of b w] by (auto simp: Cleanup_def manager_backends_def split: prod.splits)
next
  case (Auto cs act)
  with assms show ?thesis
    using auto_cleanup_table [OF assms(1), of cs w] by (auto simp: Cleanup_def manager_backends_def)
qed

lemma Cleanup_effect:
  assumes "iptables_tools h Background rules" and "\<forall>b \<in> set (manager_backends m). wf_backend b"
    and "Cleanup h Background m w = (e, m', w')"
  shows "e = None
    \<and> ((\<exists>b \<in> set (manager_backends m). backend_owns_rule b bin c s) \<and> LookPath h w bin = None
         \<and> count_list (rules w bin c) s \<le> 20 \<longrightarrow> count_list (rules w' bin c) s = 0)
    \<and> (\<not> (\<exists>b \<in> set (manager_backends m). backend_owns_rule b bin c s) \<longrightarrow>
         count_list (rules w' bin c) s = count_list (rules w bin c) s)"
proof -
  let ?own = "filter (\<lambda>b. LookPath h w bin = None \<and> backend_owns_rule b bin c s) (manager_backends m)"
  have e: "e = None"
    using assms(3) be.clean_no_error [of h] by (cases m) (auto simp: Cleanup_def split: prod.splits dest: prod_eqI, metis fst_conv)
  have "1 \<le> length ?own" if "b \<in> set (manager_backends m)" "backend_owns_rule b bin c s" "LookPath h w bin = None" for b
    using that by (metis (mono_tags, lifting) One_nat_def Suc_leI filter_empty_conv length_greater_0_conv)
  moreover have "?own = []" if "\<not> (\<exists>b \<in> set (manager_backends m). backend_owns_rule b bin c s)"
    using that by (auto simp: filter_empty_conv)
  ultimately show ?thesis
    using e Cleanup_live [OF assms, of bin c s] by fastforce
qed

text \<open>
  C31: Cleaning up a manager, automatic or not, never reports an error. Afterwards no rule of any of its
  iptables backends is left in an available tool (if there were at most twenty copies of it), every
  rule that belongs to none of them keeps all its copies, and the nft table of the program is gone if
  one of the backends is nftables and as it was otherwise.
\<close>

theorem Cleanup_removes_own_rules:
  assumes "firewall_tools h Background rules loaded" and "\<forall>b \<in> set (manager_backends m). wf_backend b"
    and "Cleanup h Background m w = (e, m', w')"
  shows "e = None
    \<and> ((\<exists>b \<in> set (manager_backends m). backend_owns_rule b bin c s) \<and> LookPath h w bin = None
         \<and> count_list (rules w bin c) s \<le> 20 \<longrightarrow> count_list (rules w' bin c) s = 0)
    \<and> (\<not> (\<exists>b \<in> set (manager_backends m). backend_owns_rule b bin c s) \<longrightarrow>
         count_list (rules w' bin c) s = count_list (rules w bin c) s)
    \<and> loaded w' = (if \<exists>b \<in> set (manager_backends m). backend_owns_table b then [] else loaded w)"
  using Cleanup_effect [OF firewall_toolsD(1) [OF assms(1)] assms(2,3)] Cleanup_table [OF assms] by simp

definition example_auto :: FirewallManager where
  "example_auto = Auto [Nft example_nfq, Iptables example_iptables] None"

lemma example_auto_wf: "\<forall>b \<in> set (manager_backends example_auto). wf_backend b"
  using wf_example_iptables
  by (simp add: example_auto_def manager_backends_def wf_backend_def wf_iptables_def example_iptables_def)

text \<open>A machine with rules of others, one left-over rule of the program in each chain, and its table.\<close>

definition used_machine :: machine where
  "used_machine = example_machine
     \<lparr>m_rules := (\<lambda>bin chain. [hd (rule_specs example_iptables), example_rule]), m_nft := [nft_script example_nfq]\<rparr>"

theorem Cleanup_removes_own_rules_witness:
  "\<exists>m' w'. Cleanup sim_host Background example_auto used_machine = (None, m', w')
     \<and> count_list (m_rules w' ''iptables'' ''INPUT'') (hd (rule_specs example_iptables)) = 0
     \<and> count_list (m_rules w' ''iptables'' ''INPUT'') example_rule = 1 \<and> m_nft w' = []"
proof -
  obtain e m' w' where c: "Cleanup sim_host Background example_auto used_machine = (e, m', w')" by (metis surj_pair)
  note r = Cleanup_removes_own_rules [OF sim_firewall_tools example_auto_wf c, of "''iptables''" "''INPUT''"]
  have "ToUpper ''input'' = ''INPUT''" by code_simp
  then have "''INPUT'' \<in> upper_chains example_iptables"
    using example_chains by (auto simp: upper_chains_def example_iptables_def image_iff)
  then have "own_rule example_iptables ''iptables'' ''INPUT'' (hd (rule_specs example_iptables))"
    unfolding own_rule_def example_specs by (simp add: example_iptables_def)
  then have own: "\<exists>b \<in> set (manager_backends example_auto). backend_owns_rule b ''iptables'' ''INPUT'' (hd (rule_specs example_iptables))"
    by (simp add: example_auto_def manager_backends_def backend_owns_rule_def)
  have others: "\<not> (\<exists>b \<in> set (manager_backends example_auto). backend_owns_rule b ''iptables'' ''INPUT'' example_rule)"
    by (simp add: example_auto_def manager_backends_def backend_owns_rule_def own_rule_def example_specs example_rule_def)
  have table: "\<exists>b \<in> set (manager_backends example_auto). backend_owns_table b"
    by (simp add: example_auto_def manager_backends_def backend_owns_table_def)
  have "count_list (m_rules used_machine ''iptables'' ''INPUT'') (hd (rule_specs example_iptables)) = 1"
    "count_list (m_rules used_machine ''iptables'' ''INPUT'') example_rule = 1" "LookPath sim_host used_machine ''iptables'' = None"
    by (simp_all add: used_machine_def example_machine_def example_specs example_rule_def sim_host_def)
  then show ?thesis
    using c r [of "hd (rule_specs example_iptables)"] r [of example_rule] own others table by auto
qed

text \<open>
  The manager a valid configuration gets: none exactly when the rules are not to be installed or
  the backend is \<open>none\<close> or \<open>disabled\<close>; otherwise one whose backends are well formed, carry this
  configuration and have their tool, nftables first; an error only when the tool is missing, never
  because the backend is unknown.
\<close>

lemma newFirewallManager_cases:
  assumes "validateNFQueueConfig cfg = None"
  shows "(newFirewallManager h cfg w = Inr None \<longleftrightarrow>
      \<not> InstallRules cfg \<or> FirewallBackend cfg \<in> {''none'', ''disabled''})
    \<and> (\<forall>m. newFirewallManager h cfg w = Inr (Some m) \<longrightarrow>
        manager_backends m \<noteq> [] \<and> distinct (manager_backends m)
        \<and> (\<forall>b \<in> set (manager_backends m). wf_backend b \<and> LookPath h w (backend_tool b) = None
             \<and> b \<in> {Nft cfg, iptables_backend cfg, iptables_legacy_backend cfg})
        \<and> (Nft cfg \<in> set (manager_backends m) \<longrightarrow> hd (manager_backends m) = Nft cfg))
    \<and> (\<forall>b. newFirewallManager h cfg w \<noteq> Inl (UnknownBackend b))"
proof -
  have wf: "wf_backend (Nft cfg)" "wf_backend (iptables_backend cfg)" "wf_backend (iptables_legacy_backend cfg)"
    using assms by (simp_all add: wf_backend_def iptables_backend_def iptables_legacy_backend_def wf_iptables_def iptables_bins_def)
  have tool: "backend_tool (Nft cfg) = ''nft''" "backend_tool (iptables_backend cfg) = ''iptables''"
    "backend_tool (iptables_legacy_backend cfg) = ''iptables-legacy''"
    by (simp_all add: backend_tool_def iptables_backend_def iptables_legacy_backend_def)
  have ne: "iptables_backend cfg \<noteq> Nft cfg" "iptables_legacy_backend cfg \<noteq> Nft cfg"
    "iptables_legacy_backend cfg \<noteq> iptables_backend cfg"
    by (simp_all add: iptables_backend_def iptables_legacy_backend_def)
  have "FirewallBackend cfg \<in> {''auto'', ''nftables'', ''nft'', ''iptables'', ''iptables-legacy'', ''none'', ''disabled''}"
    using assms unfolding validate_None_iff by blast
  then show ?thesis
    using wf tool ne
    by (auto simp: newFirewallManager_def manager_backends_def Let_def split: option.splits)
qed

text \<open>
  A manager runs no commands but its own (loading the three kernel modules, its nft script and
  table deletion, its own rules of its own tools): whatever property of the machine these commands
  keep, installing and cleaning up keep.
\<close>

lemma manager_runs_own_commands:
  assumes "kept_by h (manager_cmds m) P" and "P w"
  shows "P (snd (snd (Install h ctx m w))) \<and> P (snd (snd (Cleanup h ctx m w)))"
proof (cases m)
  case (Plain b)
  then have "kept_by h (backend_cmds b) P" using assms(1) by (simp add: manager_cmds_def)
  with Plain assms(2) show ?thesis
    using be.inst_frame [of h b P w ctx] be.clean_frame [of h b P w ctx]
    by (auto simp: Install_def Cleanup_def split: prod.splits)
next
  case (Auto cs act)
  then have "kept_by h (\<Union> (backend_cmds ` set cs)) P" using assms(1) by (simp add: manager_cmds_def)
  with Auto assms(2) show ?thesis
    using be.auto_install_frame [of h cs P w ctx "[]"] be.auto_cleanup_frame [of h cs P w ctx]
    by (auto simp: Install_def Cleanup_def split: prod.splits sum.splits)
qed

text \<open>
  C33: The automatic manager settles on the first candidate that installs: every earlier one has failed
  and was cleaned up under the background context before the next was tried. It fails exactly when all
  candidates fail, all being cleaned up again, and reports the message of each.
\<close>

theorem auto_Install_first_working:
  assumes "Install h ctx (Auto cs act) w = (err, m', w')"
  shows "(err = None \<and> (\<exists>pre b post es w0. cs = pre @ b # post \<and> failed_all h ctx pre es w w0
           \<and> backend_Install h b ctx w0 = (None, w') \<and> m' = Auto cs (Some b)))
    \<or> (\<exists>es. failed_all h ctx cs es w w' \<and> m' = Auto cs act
           \<and> err = Some (''all firewall backends failed: '' @ Join es ''; ''))"
proof -
  obtain r w1 where r: "auto_install (backend_Install h) (backend_Cleanup h) ctx cs [] w = (r, w1)" by fastforce
  from auto_install_reached [OF r] show ?thesis
  proof (elim disjE exE conjE)
    fix es assume "failed_all h ctx cs es w w1" "r = Inl ([] @ es)"
    then show ?thesis using assms r by (auto simp: Install_def)
  next
    fix pre b post es w0
    assume "cs = pre @ b # post" "failed_all h ctx pre es w w0" "backend_Install h b ctx w0 = (None, w1)" "r = Inr b"
    moreover from this have "err = None" "m' = Auto cs (Some b)" "w' = w1"
      using assms r by (auto simp: Install_def)
    ultimately show ?thesis by blast
  qed
qed

theorem auto_Install_first_working_witness:
  "\<exists>pre b post es w0. [Nft example_nfq, Iptables example_iptables] = pre @ b # post
     \<and> failed_all sim_host SignalContext pre es (example_machine\<lparr>m_refuse := [''nft'']\<rparr>) w0
     \<and> fst (backend_Install sim_host b SignalContext w0) = None"
proof -
  let ?r = "Install sim_host SignalContext (Auto [Nft example_nfq, Iptables example_iptables] None) (example_machine\<lparr>m_refuse := [''nft'']\<rparr>)"
  have "fst ?r = None" by code_simp
  moreover have "?r = (fst ?r, fst (snd ?r), snd (snd ?r))" by simp
  ultimately show ?thesis
    using auto_Install_first_working [of sim_host SignalContext "[Nft example_nfq, Iptables example_iptables]" None
        "example_machine\<lparr>m_refuse := [''nft'']\<rparr>" "fst ?r" "fst (snd ?r)" "snd (snd ?r)"]
    by (metis fst_conv option.distinct(1))
qed

end
