(* ===== verification/Lifecycle.thy ===== *)
theory Lifecycle
  imports Engine Firewall_Properties
begin

text \<open>
  The life cycle of a run over the packet filter: lemmas on what an installation by a manager adds,
  that the queue and the sockets do not touch the rules, and how these combine in \<open>Run\<close>. The
  properties themselves are in the root theory.
\<close>

section \<open>Installing by a manager\<close>

lemma count_list_filter: "P x \<Longrightarrow> count_list (filter P xs) x = count_list xs x"
  by (induction xs) auto

lemma copies_foreign: "\<not> own_rule f b c s \<Longrightarrow> copies (foreign f R) b c s = copies R b c s"
  by (simp add: foreign_def count_list_filter)

lemma backend_Install_any:
  assumes "iptables_tools h live rules" "wf_backend b" "backend_Install h b ctx w = (e, w')"
  shows "LookPath h w' = LookPath h w"
    and "copies (rules w') bin c s \<le> copies (rules w) bin c s + (if backend_owns_rule b bin c s then 1 else 0)"
    and "\<not> backend_owns_rule b bin c s \<Longrightarrow> copies (rules w') bin c s = copies (rules w) bin c s"
proof -
  have "LookPath h w' = LookPath h w
    \<and> copies (rules w') bin c s \<le> copies (rules w) bin c s + (if backend_owns_rule b bin c s then 1 else 0)
    \<and> (\<not> backend_owns_rule b bin c s \<longrightarrow> copies (rules w') bin c s = copies (rules w) bin c s)"
  proof (cases b)
    case (Nft cfg)
    note o = iptables_toolsD(3) [OF assms(1)]
    have "w' = snd (nft_Install h cfg ctx w)" using assms(3) Nft by (simp add: backend_Install_def)
    then have "w' = snd (runWithInput h ctx ''nft'' [''-f'', ''-''] (nft_script cfg) False
        (snd (nft_Cleanup h cfg ctx (ensureNFQueueKernelSupport h ctx w))))"
      by (auto simp: nft_Install_def Let_def split: prod.splits option.splits)
    moreover have "validateNFQueueConfig cfg = None" using assms(2) Nft by (simp add: wf_backend_def)
    then have c: "(''nft'', nft_delete_args, []) \<in> other_cmds" "(''nft'', [''-f'', ''-''], nft_script cfg) \<in> other_cmds"
      by (auto simp: other_cmds_def)
    ultimately have "LookPath h w' = LookPath h w" "rules w' = rules w"
      using ensure_keeps [OF o, of ctx w]
      by (auto simp: nft_Cleanup_def LookPath_runWithInput [OF o] rules_runWithInput [OF o c(1)] rules_runWithInput [OF o c(2)])
    then show ?thesis by simp
  next
    case (Iptables f)
    then have f: "wf_iptables f" "iptables_Install h f ctx w = (e, w')" "backend_owns_rule b bin c s \<longleftrightarrow> own_rule f bin c s"
      using assms(2,3) by (simp_all add: wf_backend_def backend_Install_def backend_owns_rule_def)
    note i = iptables_Install_own [OF assms(1) f(1,2)]
    have "copies (rules w') bin c s = copies (rules w) bin c s" if "\<not> own_rule f bin c s"
      using copies_foreign [OF that, of "rules w'"] copies_foreign [OF that, of "rules w"] i(2) by simp
    with i(1) i(3) [of bin c s] f(3) show ?thesis by simp
  qed
  then show "LookPath h w' = LookPath h w"
    and "copies (rules w') bin c s \<le> copies (rules w) bin c s + (if backend_owns_rule b bin c s then 1 else 0)"
    and "\<not> backend_owns_rule b bin c s \<Longrightarrow> copies (rules w') bin c s = copies (rules w) bin c s"
    by blast+
qed

lemma auto_install_any:
  assumes "iptables_tools h Background rules"
  shows "\<forall>b \<in> set bs. wf_backend b \<Longrightarrow>
    auto_install (backend_Install h) (backend_Cleanup h) ctx bs errs w = (r, w') \<Longrightarrow>
    LookPath h w' = LookPath h w
    \<and> copies (rules w') bin c s \<le> copies (rules w) bin c s + length bs
    \<and> ((\<forall>b \<in> set bs. \<not> backend_owns_rule b bin c s) \<longrightarrow> copies (rules w') bin c s = copies (rules w) bin c s)"
proof (induction bs arbitrary: errs w)
  case (Cons b bs)
  obtain e w1 where i: "backend_Install h b ctx w = (e, w1)" by fastforce
  have wf: "wf_backend b" using Cons.prems(1) by simp
  note ib = backend_Install_any(1) [OF assms wf i] backend_Install_any(2,3) [OF assms wf i, of bin c s]
  note cb = backend_Cleanup_live [OF assms wf, of w1 bin c s]
  show ?case
  proof (cases e)
    case None
    with i Cons.prems(2) have "w' = w1" by simp
    with ib show ?thesis by (auto split: if_splits)
  next
    case (Some err)
    with i Cons.prems have "auto_install (backend_Install h) (backend_Cleanup h) ctx bs (errs @ [err])
        (snd (backend_Cleanup h b Background w1)) = (r, w')" by simp
    from Cons.IH [OF _ this] Cons.prems(1) ib cb show ?thesis by (auto split: if_splits)
  qed
qed simp

lemma Install_any:
  assumes "iptables_tools h Background rules" "\<forall>b \<in> set (manager_backends m). wf_backend b"
    and "Install h ctx m w = (e, m', w')"
  shows "manager_backends m' = manager_backends m" and "LookPath h w' = LookPath h w"
    and "copies (rules w') bin c s \<le> copies (rules w) bin c s + length (manager_backends m)"
    and "\<forall>b \<in> set (manager_backends m). \<not> backend_owns_rule b bin c s \<Longrightarrow>
      copies (rules w') bin c s = copies (rules w) bin c s"
proof -
  have "manager_backends m' = manager_backends m \<and> LookPath h w' = LookPath h w
    \<and> copies (rules w') bin c s \<le> copies (rules w) bin c s + length (manager_backends m)
    \<and> ((\<forall>b \<in> set (manager_backends m). \<not> backend_owns_rule b bin c s) \<longrightarrow>
        copies (rules w') bin c s = copies (rules w) bin c s)"
  proof (cases m)
    case (Plain b)
    then have "m' = m" "backend_Install h b ctx w = (e, w')" "wf_backend b"
      using assms(2,3) by (auto simp: Install_def manager_backends_def split: prod.splits)
    then show ?thesis
      using backend_Install_any(1) [OF assms(1), of b ctx w e w']
        backend_Install_any(2,3) [OF assms(1), of b ctx w e w' bin c s] Plain
      by (auto simp: manager_backends_def split: if_splits)
  next
    case (Auto cs act)
    obtain r w1 where r: "auto_install (backend_Install h) (backend_Cleanup h) ctx cs [] w = (r, w1)" by fastforce
    with Auto assms(3) have "w' = w1" "manager_backends m' = cs"
      by (auto simp: Install_def manager_backends_def split: sum.splits)
    then show ?thesis
      using auto_install_any [OF assms(1) _ r, of bin c s] assms(2) Auto by (simp add: manager_backends_def)
  qed
  then show "manager_backends m' = manager_backends m" and "LookPath h w' = LookPath h w"
    and "copies (rules w') bin c s \<le> copies (rules w) bin c s + length (manager_backends m)"
    and "\<forall>b \<in> set (manager_backends m). \<not> backend_owns_rule b bin c s \<Longrightarrow>
      copies (rules w') bin c s = copies (rules w) bin c s"
    by blast+
qed

text \<open>Without an nftables backend the nft table stays as it is.\<close>

lemma backend_Install_table:
  assumes "firewall_tools h live rules loaded" "wf_backend b" "\<not> backend_owns_table b"
  shows "loaded (snd (backend_Install h b ctx w)) = loaded w" "loaded (snd (backend_Cleanup h b ctx w)) = loaded w"
  using assms(2,3) iptables_keeps_table [OF assms(1)]
  by (cases b; simp add: wf_backend_def backend_owns_table_def)+

lemma auto_install_table:
  assumes "firewall_tools h live rules loaded"
  shows "\<forall>b \<in> set bs. wf_backend b \<and> \<not> backend_owns_table b \<Longrightarrow>
    loaded (snd (auto_install (backend_Install h) (backend_Cleanup h) ctx bs errs w)) = loaded w"
proof (induction bs arbitrary: errs w)
  case (Cons b bs)
  obtain e w1 where i: "backend_Install h b ctx w = (e, w1)" by fastforce
  have b: "wf_backend b" "\<not> backend_owns_table b" using Cons.prems by simp_all
  show ?case
    using Cons backend_Install_table(1) [OF assms b, of ctx w] backend_Install_table(2) [OF assms b, of Background w1] i
    by (cases e) simp_all
qed simp

lemma Install_table:
  assumes "firewall_tools h live rules loaded" "\<forall>b \<in> set (manager_backends m). wf_backend b"
    and "\<not> (\<exists>b \<in> set (manager_backends m). backend_owns_table b)" and "Install h ctx m w = (e, m', w')"
  shows "loaded w' = loaded w"
proof (cases m)
  case (Plain b)
  with assms show ?thesis
    using backend_Install_table(1) [OF assms(1), of b ctx w] by (auto simp: Install_def manager_backends_def split: prod.splits)
next
  case (Auto cs act)
  obtain r w1 where r: "auto_install (backend_Install h) (backend_Cleanup h) ctx cs [] w = (r, w1)" by fastforce
  with Auto assms show ?thesis
    using auto_install_table [OF assms(1), of cs ctx "[]" w]
    by (auto simp: Install_def manager_backends_def split: sum.splits)
qed

section \<open>The queue and the sockets\<close>

text \<open>A view of the world that no call of the library changes.\<close>

definition lib_keeps :: "'w nfq_lib \<Rightarrow> ('w \<Rightarrow> 'v) \<Rightarrow> bool" where
  "lib_keeps nf view \<longleftrightarrow>
     (\<forall>w. (\<forall>c. view (snd (nfq_Open nf c w)) = view w) \<and> view (snd (nfq_SetNoENOBUFS nf w)) = view w
        \<and> (\<forall>ctx. view (snd (nfq_Register nf ctx w)) = view w)
        \<and> (\<forall>i v. view (snd (nfq_SetVerdict nf i v w)) = view w)
        \<and> view (snd (nfq_Close nf w)) = view w
        \<and> (\<forall>n opt a. view (snd (ListenPacket nf n opt a w)) = view w)
        \<and> (\<forall>p a. view (snd (WriteTo nf p a w)) = view w)
        \<and> view (CloseConn nf w) = view w)"

lemma lib_keepsD:
  assumes "lib_keeps nf view"
  shows "nfq_Open nf c w = (x, w') \<Longrightarrow> view w' = view w"
    and "nfq_SetNoENOBUFS nf w = (x, w') \<Longrightarrow> view w' = view w"
    and "nfq_Register nf ctx w = (x, w') \<Longrightarrow> view w' = view w"
    and "view (snd (nfq_SetVerdict nf i v w)) = view w"
    and "view (snd (nfq_Close nf w)) = view w"
    and "ListenPacket nf n opt a w = (x, w') \<Longrightarrow> view w' = view w"
    and "WriteTo nf p a w = (x, w') \<Longrightarrow> view w' = view w"
    and "view (CloseConn nf w) = view w"
  using assms unfolding lib_keeps_def by (metis snd_conv)+

lemma sendDNSResponse_keeps:
  assumes "lib_keeps nf view"
  shows "view (snd (sendDNSResponse nf resp w)) = view w"
proof -
  obtain x1 w1 where 1: "ListenPacket nf (if Is4 (resp_SrcIP resp) then ''udp4'' else ''udp6'')
      (if Is4 (resp_SrcIP resp) then IP_FREEBIND else IPV6_FREEBIND)
      (netIPFromAddr (resp_SrcIP resp), unat (resp_SrcPort resp)) w = (x1, w1)" by fastforce
  obtain x2 w2 where 2: "WriteTo nf (resp_Payload resp) (netIPFromAddr (resp_DstIP resp), unat (resp_DstPort resp)) w1 = (x2, w2)"
    by fastforce
  from 1 2 show ?thesis
    using lib_keepsD(6) [OF assms 1] lib_keepsD(7) [OF assms 2] lib_keepsD(8) [OF assms]
    by (simp only: sendDNSResponse_def Let_def) (simp split: option.split)
qed

lemma handlePacket_keeps:
  assumes "lib_keeps nf view" "handlePacket gp nf attr (e, w) = r"
  shows "case r of Inl (e', w') \<Rightarrow> view w' = view w \<and> e_firewall e' = e_firewall e
    | Inr (e', w') \<Rightarrow> view w' = view w \<and> e_firewall e' = e_firewall e"
  using assms lib_keepsD(4) [OF assms(1)] sendDNSResponse_keeps [OF assms(1)]
  by (auto simp: handlePacket_def act_on_def Let_def split: option.splits verdictKind.splits sum.splits)

lemma handle_all_keeps:
  assumes "lib_keeps nf view"
  shows "handle_all gp nf attrs (e, w) = r \<Longrightarrow>
    case r of Inl (e', w') \<Rightarrow> view w' = view w \<and> e_firewall e' = e_firewall e
    | Inr (e', w') \<Rightarrow> view w' = view w \<and> e_firewall e' = e_firewall e"
proof (induction attrs arbitrary: e w)
  case (Cons attr attrs)
  obtain x where x: "handlePacket gp nf attr (e, w) = x" by blast
  note h = handlePacket_keeps [OF assms x]
  show ?case
  proof (cases x)
    case (Inl s)
    with Cons.prems x h show ?thesis by (cases s) auto
  next
    case (Inr s)
    obtain e1 w1 where "s = (e1, w1)" by fastforce
    with Inr Cons.prems x have "handle_all gp nf attrs (e1, w1) = r" by simp
    from Cons.IH [OF this] h Inr \<open>s = (e1, w1)\<close> show ?thesis by (auto split: sum.splits)
  qed
qed auto

lemma run_queue_keeps:
  assumes "lib_keeps nf view" "run_queue gp nf attrs (e, w) = (r, e', w')"
  shows "view w' = view w \<and> e_firewall e' = e_firewall e"
proof -
  obtain x1 w1 where 1: "nfq_Open nf (run_config (e_cfg e)) w = (x1, w1)" by fastforce
  obtain x2 w2 where 2: "nfq_SetNoENOBUFS nf w1 = (x2, w2)" by fastforce
  obtain x3 w3 where 3: "nfq_Register nf SignalContext w2 = (x3, w3)" by fastforce
  obtain x4 where 4: "handle_all gp nf attrs (e\<lparr>e_nfq := True\<rparr>, w3) = x4" by blast
  note v = lib_keepsD(1) [OF assms(1) 1] lib_keepsD(2) [OF assms(1) 2] lib_keepsD(3) [OF assms(1) 3]
    lib_keepsD(5) [OF assms(1)]
  show ?thesis
    using assms(2) 1 2 3 4 v handle_all_keeps [OF assms(1) 4]
    by (auto simp: run_queue_def deferred_close_def Let_def split: option.splits sum.splits)
qed

section \<open>Runs\<close>

lemma Run_installed:
  assumes "e_firewall e = Some m" "Run gp h nf attrs (e, w) = (r, e', w')" "\<forall>x. r \<noteq> Returned (Some (InstallError x))"
  shows "\<exists>m1 w1 r1 e2 w2. Install h SignalContext m w = (None, m1, w1)
    \<and> run_queue gp nf attrs (e\<lparr>e_firewall := Some m1\<rparr>, w1) = (r, e2, w2)
    \<and> (e', w') = (if r = Crashed then (e2, w2) else deferred_cleanup h (e2, w2))"
proof -
  obtain x m1 w1 where i: "Install h SignalContext m w = (x, m1, w1)" by (metis surj_pair)
  with assms have "x = None" by (cases x) (auto simp: Run_def)
  obtain r2 e2 w2 where q: "run_queue gp nf attrs (e\<lparr>e_firewall := Some m1\<rparr>, w1) = (r2, e2, w2)" by (metis surj_pair)
  have "r2 = r \<and> (e', w') = (if r = Crashed then (e2, w2) else deferred_cleanup h (e2, w2))"
    using assms(1,2) i \<open>x = None\<close> q by (cases r2) (auto simp: Run_def)
  with i \<open>x = None\<close> q show ?thesis by blast
qed

lemma Run_restores:
  assumes tools: "firewall_tools h Background rules loaded"
    and keeps: "lib_keeps nf rules" "lib_keeps nf loaded" "lib_keeps nf (LookPath h)"
    and m: "e_firewall e = Some m" and wf: "\<forall>b \<in> set (manager_backends m). wf_backend b"
    and few: "copies (rules w) bin c s + length (manager_backends m) \<le> 20"
    and run: "Run gp h nf attrs (e, w) = (Returned err, e', w')" and ok: "\<forall>x. err \<noteq> Some (InstallError x)"
  shows "((\<exists>b \<in> set (manager_backends m). backend_owns_rule b bin c s) \<and> LookPath h w bin = None
        \<longrightarrow> copies (rules w') bin c s = 0)
    \<and> (\<not> (\<exists>b \<in> set (manager_backends m). backend_owns_rule b bin c s) \<longrightarrow> copies (rules w') bin c s = copies (rules w) bin c s)
    \<and> loaded w' = (if \<exists>b \<in> set (manager_backends m). backend_owns_table b then [] else loaded w)"
proof -
  note ipt = firewall_toolsD(1) [OF tools]
  obtain m1 w1 e2 w2 where i: "Install h SignalContext m w = (None, m1, w1)"
    and q: "run_queue gp nf attrs (e\<lparr>e_firewall := Some m1\<rparr>, w1) = (Returned err, e2, w2)"
    and d: "(e', w') = deferred_cleanup h (e2, w2)"
    using Run_installed [OF m run] ok by auto
  note k = run_queue_keeps [OF keeps(1) q] run_queue_keeps [OF keeps(2) q] run_queue_keeps [OF keeps(3) q]
  obtain x m2 where cl: "Cleanup h Background m1 w2 = (x, m2, w')"
    using d k by (auto simp: deferred_cleanup_def split: prod.splits)
  note inst = Install_any(1,2) [OF ipt wf i] Install_any(3,4) [OF ipt wf i, of bin c s]
  have wf1: "\<forall>b \<in> set (manager_backends m1). wf_backend b" using wf inst(1) by simp
  have "loaded w' = (if \<exists>b \<in> set (manager_backends m). backend_owns_table b then [] else loaded w)"
    using Cleanup_table [OF tools wf1 cl] k inst(1) Install_table [OF tools wf _ i] by auto
  then show ?thesis
    using Cleanup_effect [OF ipt wf1 cl, of bin c s] k inst few by auto
qed

section \<open>A machine with a log\<close>

definition on_machine :: "'m host \<Rightarrow> ('m \<times> 'x) host" where
  "on_machine h =
     \<lparr>LookPath = (\<lambda>(m, x). LookPath h m),
      RunCmd = (\<lambda>ctx name args stdin (m, x). (case RunCmd h ctx name args stdin m of (r, m') \<Rightarrow> (r, (m', x))))\<rparr>"

lemma on_machine_tools:
  assumes "iptables_tools h live rules"
  shows "iptables_tools (on_machine h) live (rules \<circ> fst)"
proof -
  have "insert_law (on_machine h) (rules \<circ> fst)"
    using assms unfolding iptables_tools_def insert_law_def
    by (auto simp: on_machine_def split: prod.splits)
  moreover have "delete_law (on_machine h) (rules \<circ> fst)"
    using assms unfolding iptables_tools_def delete_law_def
    by (auto simp: on_machine_def split: prod.splits)
  moreover have "others_law (on_machine h) (rules \<circ> fst)"
    using assms unfolding iptables_tools_def others_law_def
    by (auto simp: on_machine_def split: prod.splits) (metis snd_conv)+
  moreover have "\<forall>bin chain spec w. bin \<in> iptables_bins \<longrightarrow> spec \<in> set ((rules \<circ> fst) w bin chain) \<longrightarrow>
      fst (fst (RunCmd (on_machine h) live bin (''-D'' # chain # spec) [] w)) = None"
    using assms unfolding iptables_tools_def
    by (auto simp: on_machine_def split: prod.splits) (metis fst_conv)
  ultimately show ?thesis by (simp add: iptables_tools_def)
qed

lemma on_machine_firewall_tools:
  assumes "firewall_tools h live rules loaded"
  shows "firewall_tools (on_machine h) live (rules \<circ> fst) (loaded \<circ> fst)"
proof -
  have run: "RunCmd (on_machine h) ctx name args stdin w
      = (fst (RunCmd h ctx name args stdin (fst w)), (snd (RunCmd h ctx name args stdin (fst w)), snd w))" for ctx name args stdin w
    by (simp add: on_machine_def split_beta)
  note t = firewall_toolsD [OF assms]
  have "nft_tool (on_machine h) live (loaded \<circ> fst)"
    using t(2) unfolding nft_tool_def run by (auto simp: prod_eq_iff)
  moreover have "nft_apart (on_machine h) (loaded \<circ> fst)"
    using t(3) by (simp add: nft_apart_def run)
  ultimately show ?thesis using on_machine_tools [OF t(1)] by (simp add: firewall_tools_def)
qed

lemma log_lib_keeps: "lib_keeps log_lib (v \<circ> fst)"
  by (simp add: lib_keeps_def log_lib_def log_event_def split_beta)

end
