(* ===== verification/Main_Program.thy ===== *)
theory Main_Program
  imports Load_Config_Properties Lifecycle
begin

text \<open>
  The main program of \<open>main.go\<close>: the command line (with what it uses of the package \<open>flag\<close>), the
  start-up sequence, and the loop that prints statistics until the engine has returned. The engine
  runs in its own goroutine; the loop sees it as a sequence of events, each with the counters at that
  time. The file system, the user id and the machine are parameters.
\<close>

section \<open>The command line\<close>

text \<open>
  \<open>flag.Parse\<close> with the single string flag \<open>config\<close>: the value of the flag and the positional
  arguments, or the exit status of the process (0 after printing the usage, 2 for a wrong flag).
\<close>

definition cut_equals :: "bytes \<Rightarrow> bytes \<times> bytes option" where
  "cut_equals name =
     (case IndexByte (tl name) (CHR ''='') of
        None \<Rightarrow> (name, None)
      | Some i \<Rightarrow> (take (i + 1) name, Some (drop (i + 2) name)))"

fun parse_flags :: "bytes \<Rightarrow> bytes list \<Rightarrow> nat + (bytes \<times> bytes list)" where
  "parse_flags cfg [] = Inr (cfg, [])"
| "parse_flags cfg (s # args) =
     (if length s < 2 \<or> hd s \<noteq> CHR ''-'' then Inr (cfg, s # args)
      else if s = ''--'' then Inr (cfg, args)
      else
        (let name = (if s ! 1 = CHR ''-'' then drop 2 s else drop 1 s) in
         if name = [] \<or> hd name \<in> {CHR ''-'', CHR ''=''} then Inl 2
         else case cut_equals name of (key, val) \<Rightarrow>
           if key \<noteq> ''config'' then Inl (if key \<in> {''help'', ''h''} then 0 else 2)
           else case val of
             Some v \<Rightarrow> parse_flags v args
           | None \<Rightarrow> (case args of [] \<Rightarrow> Inl 2 | v # args' \<Rightarrow> parse_flags v args')))"

section \<open>Start-up\<close>

datatype main_error =
    UnexpectedArguments bytes
  | ConfigError config_error
  | NotRoot
  | EngineError engine_error
  | RunError run_error

datatype start_result =
    Exits nat
  | Fails main_error
  | TickerPanics
  | Starts AppConfig nfQueueEngine

definition start_up ::
  "(bytes \<Rightarrow> bytes option) \<Rightarrow> nat \<Rightarrow> 'w host \<Rightarrow> bytes list \<Rightarrow> 'w \<Rightarrow> start_result" where
  "start_up os_Open euid h args w =
     (case parse_flags defaultConfigPath args of
        Inl code \<Rightarrow> Exits code
      | Inr (configPath, rest) \<Rightarrow>
          if rest \<noteq> [] then Fails (UnexpectedArguments (Join rest '' ''))
          else case loadConfig os_Open configPath of
            Inl e \<Rightarrow> Fails (ConfigError e)
          | Inr cfg \<Rightarrow>
              if euid \<noteq> 0 then Fails NotRoot
              else case newEngine h cfg w of
                Inl e \<Rightarrow> Fails (EngineError e)
              | Inr e \<Rightarrow> if statsEvery cfg \<le> 0 then TickerPanics else Starts cfg e)"

section \<open>The statistics loop\<close>

datatype main_event = Tick | RunReturned "run_error option" | CtxDone

definition printStats :: "EngineStats \<Rightarrow> (bytes \<times> 64 word) list" where
  "printStats stats =
     [(''total'', Total stats), (''passed'', Passed stats), (''http_blocked'', HTTPBlocked stats),
      (''tls_blocked'', TLSBlocked stats), (''dns_poisoned'', DNSPoisoned stats), (''dns_blocked'', DNSBlocked stats),
      (''ip_blocked'', IPBlocked stats), (''ip_port_blocked'', IPPortBlocked stats), (''malformed'', Malformed stats)]"

type_synonym log_lines = "(bytes \<times> 64 word) list list"

text \<open>Receiving the error of the engine, while nothing else is served.\<close>

fun await_engine :: "(main_event \<times> EngineStats) list \<Rightarrow> log_lines \<times> run_error option option" where
  "await_engine [] = ([], None)"
| "await_engine ((RunReturned err, stats) # es) =
     (case err of Some e \<Rightarrow> ([], Some (Some e)) | None \<Rightarrow> ([printStats stats], Some None))"
| "await_engine ((_, stats) # es) = await_engine es"

text \<open>
  The loop over the events of \<open>select\<close>, with the lines it prints; the second component is \<^const>\<open>None\<close>
  while it still waits, and the returned error otherwise.
\<close>

fun main_loop :: "(main_event \<times> EngineStats) list \<Rightarrow> log_lines \<times> run_error option option" where
  "main_loop [] = ([], None)"
| "main_loop ((Tick, stats) # es) = (case main_loop es of (lines, r) \<Rightarrow> (printStats stats # lines, r))"
| "main_loop ((RunReturned err, stats) # es) =
     (case err of Some e \<Rightarrow> ([], Some (Some e)) | None \<Rightarrow> ([printStats stats], Some None))"
| "main_loop ((CtxDone, stats) # es) = await_engine es"

section \<open>The program\<close>

text \<open>
  \<open>run\<close> from the arguments to its return, with the packets the queue delivers and the events the loop
  serves before the engine returns, each with the statistics of that time. A panic of the callback ends
  the process at once; otherwise the loop receives the result of the engine, and the deferred \<open>Close\<close>
  runs last. \<open>main\<close> turns the result into the exit status: 1 for an error, 2 for a panic.
\<close>

datatype program_result = Exited nat | Failed main_error | Done | Panicked

definition run ::
  "gopacket \<Rightarrow> 'w host \<Rightarrow> 'w nfq_lib \<Rightarrow> (bytes \<Rightarrow> bytes option) \<Rightarrow> nat \<Rightarrow> bytes list \<Rightarrow> attribute list
    \<Rightarrow> (main_event \<times> EngineStats) list \<Rightarrow> 'w \<Rightarrow> program_result \<times> log_lines \<times> 'w" where
  "run gp h nf os_Open euid args attrs events w =
     (case start_up os_Open euid h args w of
        Exits code \<Rightarrow> (Exited code, [], w)
      | Fails err \<Rightarrow> (Failed err, [], w)
      | TickerPanics \<Rightarrow> (Panicked, [], w)
      | Starts cfg e \<Rightarrow>
          (case Run gp h nf attrs (e, w) of
             (Crashed, e', w') \<Rightarrow> (Panicked, fst (main_loop events), w')
           | (Returned err, e', w') \<Rightarrow>
               (case main_loop (events @ [(RunReturned err, Stats e')]) of
                  (lines, r) \<Rightarrow>
                    (case r of Some (Some x) \<Rightarrow> Failed (RunError x) | _ \<Rightarrow> Done, lines, snd (Close nf e' w')))))"

definition main_status :: "program_result \<Rightarrow> nat" where
  "main_status r = (case r of Exited n \<Rightarrow> n | Failed _ \<Rightarrow> 1 | Done \<Rightarrow> 0 | Panicked \<Rightarrow> 2)"

section \<open>Properties\<close>

definition engine_returns :: "(main_event \<times> EngineStats) list \<Rightarrow> run_error option option" where
  "engine_returns es =
     (case filter (\<lambda>(ev, s). case ev of RunReturned _ \<Rightarrow> True | _ \<Rightarrow> False) es of
        (RunReturned err, s) # _ \<Rightarrow> Some err
      | _ \<Rightarrow> None)"

lemma await_engine_result: "snd (await_engine es) = engine_returns es"
  by (induction es rule: await_engine.induct) (auto simp: engine_returns_def split: option.splits)

lemma main_loop_result: "snd (main_loop es) = engine_returns es"
proof (induction es rule: main_loop.induct)
  case (4 stats es)
  then show ?case using await_engine_result [of es] by (simp add: engine_returns_def)
qed (auto simp: engine_returns_def split: option.splits prod.splits)

lemma await_engine_lines: "length (fst (await_engine es)) = (if engine_returns es = Some None then 1 else 0)"
  by (induction es rule: await_engine.induct) (auto simp: engine_returns_def split: option.splits)

text \<open>The ticks the loop serves: those before the signal and before the engine returns.\<close>

definition served_ticks :: "(main_event \<times> EngineStats) list \<Rightarrow> nat" where
  "served_ticks es = length (takeWhile (\<lambda>(ev, s). ev = Tick) es)"

lemma main_loop_lines:
  "length (fst (main_loop es)) = served_ticks es + (if engine_returns es = Some None then 1 else 0)"
proof (induction es rule: main_loop.induct)
  case (4 stats es)
  then show ?case using await_engine_lines [of es] by (simp add: served_ticks_def engine_returns_def)
qed (auto simp: served_ticks_def engine_returns_def split: option.splits prod.splits)

text \<open>Events before the engine returns: ticks and the signal.\<close>

definition no_return :: "(main_event \<times> EngineStats) list \<Rightarrow> bool" where
  "no_return events \<longleftrightarrow> list_all (\<lambda>(ev, s). ev = Tick \<or> ev = CtxDone) events"

lemma engine_returns_snoc: "no_return events \<Longrightarrow> engine_returns (events @ [(RunReturned err, s)]) = Some err"
  by (induction events) (auto simp: engine_returns_def no_return_def)

lemma await_engine_last: "no_return events \<Longrightarrow>
    fst (await_engine (events @ [(RunReturned err, s)])) = (if err = None then [printStats s] else [])"
  by (induction events) (auto simp: no_return_def split: option.splits)

lemma main_loop_last:
  "no_return events \<Longrightarrow> \<exists>lines. fst (main_loop (events @ [(RunReturned None, s)])) = lines @ [printStats s]"
proof (induction events)
  case (Cons x events)
  obtain ev st where x: "x = (ev, st)" by (cases x)
  from Cons.prems have n: "no_return events" "ev = Tick \<or> ev = CtxDone" by (simp_all add: no_return_def x)
  obtain lines where "fst (main_loop (events @ [(RunReturned None, s)])) = lines @ [printStats s]"
    using Cons.IH n(1) by blast
  then have "fst (main_loop ((Tick, st) # events @ [(RunReturned None, s)])) = (printStats st # lines) @ [printStats s]"
    by (cases "main_loop (events @ [(RunReturned None, s)])") simp
  then show ?case using n await_engine_last [OF n(1), of None s] x by fastforce
qed simp

lemma run_Done:
  assumes "run gp h nf os_Open euid args attrs events w = (Done, lines, w')" and "no_return events"
  obtains cfg e e' w1 before where "start_up os_Open euid h args w = Starts cfg e"
    "Run gp h nf attrs (e, w) = (Returned None, e', w1)" "w' = snd (Close nf e' w1)"
    "lines = before @ [printStats (Stats e')]"
proof -
  obtain cfg e where s: "start_up os_Open euid h args w = Starts cfg e"
    using assms(1) by (auto simp: run_def split: start_result.splits)
  obtain r e' w1 where R: "Run gp h nf attrs (e, w) = (r, e', w1)" by (metis surj_pair)
  then obtain err where r: "r = Returned err"
    using assms(1) s by (cases r) (simp_all add: run_def)
  have "snd (main_loop (events @ [(RunReturned err, Stats e')])) = Some err"
    using main_loop_result engine_returns_snoc [OF assms(2)] by simp
  then have "err = None" "lines = fst (main_loop (events @ [(RunReturned err, Stats e')]))" "w' = snd (Close nf e' w1)"
    using assms(1) s R r by (auto simp: run_def split: prod.splits option.splits)
  then show ?thesis using that s R r main_loop_last [OF assms(2), of "Stats e'"] by auto
qed

text \<open>
  C36: The program waits for the engine, never less and never longer: the loop returns exactly when the
  engine has returned, also after a signal, so that the clean-up of the engine has run, and it returns
  the error of the engine. It prints one line for each tick served before the signal, and a last one
  exactly when there was no error.
\<close>

theorem main_waits_for_engine:
  "snd (main_loop es) = engine_returns es
   \<and> length (fst (main_loop es)) = served_ticks es + (if engine_returns es = Some None then 1 else 0)"
  using main_loop_result main_loop_lines by blast

text \<open>
  C35: The start-up hands over only what it has checked. If it starts, there were no positional
  arguments, the user is root, the configuration was loaded and is valid, and the engine is the nfqueue
  engine made from it; and it never starts a ticker with an interval that makes it panic.
\<close>

theorem start_up_checked:
  "start_up os_Open euid h args w \<noteq> TickerPanics
   \<and> (\<forall>cfg e. start_up os_Open euid h args w = Starts cfg e \<longrightarrow>
        euid = 0 \<and> (\<exists>path. parse_flags defaultConfigPath args = Inr (path, []) \<and> loadConfig os_Open path = Inr cfg)
        \<and> Engine cfg = ''nfqueue'' \<and> 0 < statsEvery cfg \<and> newEngine h cfg w = Inr e)"
proof -
  have valid: "0 < statsEvery cfg" if l: "loadConfig os_Open path = Inr cfg" for path cfg
  proof -
    obtain cfg0 where "finish_config cfg0 = Inr cfg"
      using l by (auto simp: loadConfig_def Let_def split: option.splits)
    then show ?thesis by (rule finish_config_Inr(2))
  qed
  have nfq: "Engine cfg = ''nfqueue''" if "newEngine h cfg w = Inr e" for cfg e
    using that by (auto simp: newEngine_def split: if_splits)
  have "start_up os_Open euid h args w \<noteq> TickerPanics"
    by (auto simp: start_up_def dest!: valid split: sum.splits prod.splits)
  moreover have "euid = 0 \<and> (\<exists>path. parse_flags defaultConfigPath args = Inr (path, []) \<and> loadConfig os_Open path = Inr cfg)
        \<and> Engine cfg = ''nfqueue'' \<and> 0 < statsEvery cfg \<and> newEngine h cfg w = Inr e"
    if "start_up os_Open euid h args w = Starts cfg e" for cfg e
    using that valid nfq by (auto simp: start_up_def split: sum.splits prod.splits if_splits)
  ultimately show ?thesis by blast
qed

theorem start_up_checked_witness:
  "\<exists>cfg e. start_up example_file 0 sim_host [''-config= my.json''] example_machine = Starts cfg e
     \<and> Engine cfg = ''nfqueue'' \<and> 0 < statsEvery cfg"
proof -
  obtain cfg where cfg: "loadConfig example_file '' my.json'' = Inr cfg" "statsEvery cfg = 90000000000"
    "Engine cfg = ''nfqueue''" "Rules cfg = example_rules" "FirewallBackend (NFQueue cfg) = ''auto''"
    using load_example by blast
  have "parse_flags defaultConfigPath [''-config= my.json''] = Inr ('' my.json'', [])" by code_simp
  moreover have "\<exists>e. newEngine sim_host cfg example_machine = Inr e"
    using cfg by (simp add: newEngine_def newNFQueueEngine_def compile_example newFirewallManager_def example_LookPath Let_def)
  ultimately obtain e where "start_up example_file 0 sim_host [''-config= my.json''] example_machine = Starts cfg e"
    using cfg by (auto simp: start_up_def)
  with start_up_checked [of example_file 0 sim_host "[''-config= my.json'']" example_machine] show ?thesis by blast
qed

end
