(* ===== verification/Stats_Snapshot.thy ===== *)
theory Stats_Snapshot
  imports Engine
begin

text \<open>
  \<open>Stats\<close> is called by the main loop while the packet callback runs in another goroutine. Each counter is
  an atomic variable, but the nine of them are loaded one after the other. This theory models the
  increments of the callback and the loads of \<open>Stats\<close> as steps of an interleaving, and shows what a
  snapshot taken in the middle of the traffic still guarantees.
\<close>

section \<open>The counters as shared variables\<close>

datatype counter_id =
    CTotal | CPassed | CHTTP | CTLS | CDNSPoisoned | CDNSBlocked | CIP | CIPPort | CMalformed

primrec load_of :: "counter_id \<Rightarrow> atomicStats \<Rightarrow> 64 word" where
  "load_of CTotal s = st_total s"
| "load_of CPassed s = st_passed s"
| "load_of CHTTP s = st_httpBlocked s"
| "load_of CTLS s = st_tlsBlocked s"
| "load_of CDNSPoisoned s = st_dnsPoisoned s"
| "load_of CDNSBlocked s = st_dnsBlocked s"
| "load_of CIP s = st_ipBlocked s"
| "load_of CIPPort s = st_ipPortBlocked s"
| "load_of CMalformed s = st_malformed s"

primrec add_one :: "counter_id \<Rightarrow> atomicStats \<Rightarrow> atomicStats" where
  "add_one CTotal s = s\<lparr>st_total := st_total s + 1\<rparr>"
| "add_one CPassed s = s\<lparr>st_passed := st_passed s + 1\<rparr>"
| "add_one CHTTP s = s\<lparr>st_httpBlocked := st_httpBlocked s + 1\<rparr>"
| "add_one CTLS s = s\<lparr>st_tlsBlocked := st_tlsBlocked s + 1\<rparr>"
| "add_one CDNSPoisoned s = s\<lparr>st_dnsPoisoned := st_dnsPoisoned s + 1\<rparr>"
| "add_one CDNSBlocked s = s\<lparr>st_dnsBlocked := st_dnsBlocked s + 1\<rparr>"
| "add_one CIP s = s\<lparr>st_ipBlocked := st_ipBlocked s + 1\<rparr>"
| "add_one CIPPort s = s\<lparr>st_ipPortBlocked := st_ipPortBlocked s + 1\<rparr>"
| "add_one CMalformed s = s\<lparr>st_malformed := st_malformed s + 1\<rparr>"

text \<open>The increments of \<open>recordDecision\<close> and of \<open>handlePacket\<close>, in their order.\<close>

definition decision_incs :: "packetVerdict \<Rightarrow> counter_id list" where
  "decision_incs decision =
     (case Reason decision of
        reasonHTTP \<Rightarrow> [CHTTP]
      | reasonTLS \<Rightarrow> [CTLS]
      | reasonDNSPoison \<Rightarrow> [CDNSPoisoned]
      | reasonDNSDrop \<Rightarrow> [CDNSBlocked]
      | reasonIP \<Rightarrow> [CIP]
      | reasonIPPort \<Rightarrow> [CIPPort]
      | reasonMalformed \<Rightarrow> [CMalformed]
      | reasonNone \<Rightarrow> []) @
     (if Kind decision = verdictAccept then [CPassed] else [])"

definition packet_incs :: "gopacket \<Rightarrow> packetClassifier \<Rightarrow> attribute \<Rightarrow> counter_id list" where
  "packet_incs gp c attr =
     (case (PacketID attr, Payload attr) of
        (Some _, Some payload) \<Rightarrow>
          CTotal # (case Classify gp c payload of None \<Rightarrow> [] | Some decision \<Rightarrow> decision_incs decision)
      | _ \<Rightarrow> [CMalformed])"

text \<open>The order in which \<open>Stats\<close> loads them.\<close>

definition load_order :: "counter_id list" where
  "load_order = [CTotal, CPassed, CHTTP, CTLS, CDNSPoisoned, CDNSBlocked, CIP, CIPPort, CMalformed]"

section \<open>Interleaving\<close>

record snapshot =
  shared :: atomicStats
  incs_left :: "counter_id list"
  loads_left :: "counter_id list"
  loaded :: "counter_id \<Rightarrow> 64 word"

inductive snap_step :: "snapshot \<Rightarrow> snapshot \<Rightarrow> bool" where
  increment: "incs_left s = c # cs \<Longrightarrow> snap_step s (s\<lparr>shared := add_one c (shared s), incs_left := cs\<rparr>)"
| load: "loads_left s = c # cs \<Longrightarrow>
    snap_step s (s\<lparr>loads_left := cs, loaded := (loaded s)(c := load_of c (shared s))\<rparr>)"

definition snap_start :: "atomicStats \<Rightarrow> counter_id list \<Rightarrow> snapshot" where
  "snap_start s incs = \<lparr>shared = s, incs_left = incs, loads_left = load_order, loaded = (\<lambda>_. 0)\<rparr>"

definition snapshot_stats :: "snapshot \<Rightarrow> EngineStats" where
  "snapshot_stats s =
     \<lparr>Total = loaded s CTotal, Passed = loaded s CPassed, HTTPBlocked = loaded s CHTTP, TLSBlocked = loaded s CTLS,
      DNSPoisoned = loaded s CDNSPoisoned, DNSBlocked = loaded s CDNSBlocked, IPBlocked = loaded s CIP,
      IPPortBlocked = loaded s CIPPort, Malformed = loaded s CMalformed\<rparr>"

text \<open>A schedule as a list of choices: the executable form of the relation.\<close>

fun snap_exec :: "bool list \<Rightarrow> snapshot \<Rightarrow> snapshot" where
  "snap_exec [] s = s"
| "snap_exec (b # bs) s =
     (case (b, incs_left s, loads_left s) of
        (True, c # cs, _) \<Rightarrow> snap_exec bs (s\<lparr>shared := add_one c (shared s), incs_left := cs\<rparr>)
      | (False, _, c # cs) \<Rightarrow> snap_exec bs (s\<lparr>loads_left := cs, loaded := (loaded s)(c := load_of c (shared s))\<rparr>)
      | _ \<Rightarrow> s)"

lemma snap_exec_steps: "snap_step\<^sup>*\<^sup>* s (snap_exec bs s)"
proof (induction bs s rule: snap_exec.induct)
  case (2 b bs s)
  show ?case
    using 2 increment [of s] load [of s]
    by (cases b; cases "incs_left s"; cases "loads_left s") (auto intro: converse_rtranclp_into_rtranclp)
qed simp

section \<open>The increments are those of the callback\<close>

lemma fold_decision_incs: "fold add_one (decision_incs v) s = recordDecision v s"
  by (cases "Reason v") (simp_all add: decision_incs_def recordDecision_def count_reason_def)

lemma fold_packet_incs:
  assumes "handlePacket gp nf attr (e, w) = Inr (e', w')"
  shows "fold add_one (packet_incs gp (e_classifier e) attr) (e_stats e) = e_stats e'"
  using assms
  by (auto simp: handlePacket_def packet_incs_def fold_decision_incs Let_def split: option.splits)

lemma fold_all_incs:
  "handle_all gp nf attrs (e, w) = Inr (e', w') \<Longrightarrow>
    fold add_one (concat (map (packet_incs gp (e_classifier e)) attrs)) (e_stats e) = e_stats e'"
proof (induction attrs arbitrary: e w)
  case (Cons attr attrs)
  then obtain e1 w1 where 1: "handlePacket gp nf attr (e, w) = Inr (e1, w1)" "handle_all gp nf attrs (e1, w1) = Inr (e', w')"
    by (auto split: sum.splits)
  then show ?case using Cons.IH [OF 1(2)] fold_packet_incs [OF 1(1)] handlePacket_Inr(1) [OF 1(1)] by simp
qed simp

lemma load_of_add_one: "load_of c (add_one d s) = load_of c s + (if c = d then 1 else 0)"
  by (cases c; cases d) simp_all

lemma load_of_fold: "load_of c (fold add_one incs s) = load_of c s + of_nat (count_list incs c)"
  by (induction incs arbitrary: s) (simp_all add: load_of_add_one)

section \<open>At most one packet is in flight\<close>

definition outcomes :: "counter_id list" where
  "outcomes = [CPassed, CHTTP, CTLS, CDNSPoisoned, CDNSBlocked, CIP, CIPPort]"

definition outcome_count :: "counter_id list \<Rightarrow> nat" where
  "outcome_count incs = sum_list (map (count_list incs) outcomes)"

definition in_flight :: "counter_id list \<Rightarrow> int" where
  "in_flight incs = int (count_list incs CTotal) - int (outcome_count incs)"

definition at_most_one :: "counter_id list \<Rightarrow> bool" where
  "at_most_one incs \<longleftrightarrow> (\<forall>j. in_flight (take j incs) \<in> {0, 1}) \<and> in_flight incs = 0"

lemma in_flight_append: "in_flight (xs @ ys) = in_flight xs + in_flight ys"
  by (simp add: in_flight_def outcome_count_def outcomes_def)

lemma at_most_one_append: "at_most_one xs \<Longrightarrow> at_most_one ys \<Longrightarrow> at_most_one (xs @ ys)"
proof -
  assume a: "at_most_one xs" "at_most_one ys"
  have "in_flight (take j (xs @ ys)) \<in> {0, 1}" for j
  proof (cases "j < length xs")
    case True
    then show ?thesis using a by (simp add: at_most_one_def)
  next
    case False
    then have "in_flight (take j (xs @ ys)) = in_flight (take (j - length xs) ys)"
      using a(1) by (simp add: in_flight_append at_most_one_def)
    then show ?thesis using a(2) by (simp add: at_most_one_def)
  qed
  then show ?thesis using a by (simp add: at_most_one_def in_flight_append)
qed

lemma at_most_one_concat: "\<forall>x \<in> set xs. at_most_one (f x) \<Longrightarrow> at_most_one (concat (map f xs))"
  by (induction xs) (simp_all add: at_most_one_append, simp add: at_most_one_def in_flight_def outcome_count_def outcomes_def)

lemma take_2: "take j [a, b] \<in> {[], [a], [a, b]}"
  by (cases j; cases "j - 1") simp_all

lemma take_3: "take j [a, b, c] \<in> {[], [a], [a, b], [a, b, c]}"
  by (cases j; cases "j - 1"; cases "j - 2") simp_all

lemma in_flight_simps [simp]: "in_flight [] = 0" "in_flight [CMalformed] = 0" "in_flight [CTotal] = 1"
  "c \<in> set outcomes \<Longrightarrow> in_flight [CTotal, c] = 0" "in_flight [CTotal, CMalformed] = 1"
  "in_flight [CTotal, CMalformed, CPassed] = 0"
  by (auto simp: in_flight_def outcome_count_def outcomes_def)

lemma at_most_one_malformed: "at_most_one [CMalformed]"
  using take_2 [of _ CMalformed CMalformed]
  by (auto simp: at_most_one_def take_Cons')

lemma at_most_one_outcome: "c \<in> set outcomes \<Longrightarrow> at_most_one [CTotal, c]"
proof -
  assume c: "c \<in> set outcomes"
  have "in_flight (take j [CTotal, c]) \<in> {0, 1}" for j
    using take_2 [of j CTotal c] c by auto
  then show ?thesis using c by (simp add: at_most_one_def)
qed

lemma at_most_one_undecoded: "at_most_one [CTotal, CMalformed, CPassed]"
proof -
  have "in_flight (take j [CTotal, CMalformed, CPassed]) \<in> {0, 1}" for j
    using take_3 [of j CTotal CMalformed CPassed] by auto
  then show ?thesis by (simp add: at_most_one_def)
qed

lemma at_most_one_packet:
  assumes "complete attr \<longleftrightarrow> verdict_of gp c attr \<noteq> None"
  shows "at_most_one (packet_incs gp c attr)"
proof (cases "verdict_of gp c attr")
  case None
  then have "packet_incs gp c attr = [CMalformed]"
    using assms by (auto simp: complete_def packet_incs_def split: option.splits)
  then show ?thesis by (simp add: at_most_one_malformed)
next
  case (Some v)
  then obtain p where p: "Classify gp c p = Some v" and i: "packet_incs gp c attr = CTotal # decision_incs v"
    by (auto simp: verdict_of_def packet_incs_def split: option.splits)
  note r = cl.accept_reason [OF p]
  show ?thesis
  proof (cases "Reason v = reasonMalformed")
    case True
    then show ?thesis using r i by (simp add: decision_incs_def at_most_one_undecoded)
  next
    case False
    then obtain d where "decision_incs v = [d]" "d \<in> set outcomes"
      using r by (cases "Reason v") (auto simp: decision_incs_def outcomes_def)
    then show ?thesis using i by (simp add: at_most_one_outcome)
  qed
qed

section \<open>What has been loaded\<close>

text \<open>
  After \<open>n\<close> increments and \<open>i\<close> loads: the total was loaded first, after \<open>m\<close> increments, and every other
  counter that is loaded was loaded after at least as many.
\<close>

definition after :: "atomicStats \<Rightarrow> counter_id list \<Rightarrow> nat \<Rightarrow> atomicStats" where
  "after s0 incs j = fold add_one (take j incs) s0"

definition loads_ok :: "atomicStats \<Rightarrow> counter_id list \<Rightarrow> nat \<Rightarrow> nat \<Rightarrow> nat \<Rightarrow> snapshot \<Rightarrow> bool" where
  "loads_ok s0 incs i m n s \<longleftrightarrow>
     m \<le> n \<and> n \<le> length incs \<and> shared s = after s0 incs n \<and> incs_left s = drop n incs
     \<and> i \<le> length load_order \<and> loads_left s = drop i load_order
     \<and> (0 < i \<longrightarrow> loaded s CTotal = load_of CTotal (after s0 incs m))
     \<and> (\<forall>c \<in> set (take i load_order). \<exists>j. m \<le> j \<and> j \<le> n \<and> loaded s c = load_of c (after s0 incs j))"

lemma load_order_nth: "i < length load_order \<Longrightarrow> load_order ! i = CTotal \<longleftrightarrow> i = 0"
  by (auto simp: load_order_def nth_Cons' less_Suc_eq)

lemma load_order_new: "i < length load_order \<Longrightarrow> load_order ! i \<notin> set (take i load_order)"
  by (simp add: distinct_conv_nth in_set_conv_nth load_order_def) (auto simp: nth_Cons' less_Suc_eq)

lemma snap_step_ok:
  assumes "snap_step s t" and ok: "loads_ok s0 incs i m n s"
  shows "\<exists>i m n. loads_ok s0 incs i m n t"
  using assms(1)
proof (cases rule: snap_step.cases)
  case (increment c cs)
  then have d: "drop n incs = c # cs" using ok by (simp add: loads_ok_def)
  then have n: "n < length incs" "incs ! n = c" "cs = drop (Suc n) incs"
    by (metis drop_all list.distinct(1) not_le, metis nth_via_drop, metis Cons_nth_drop_Suc drop_all list.inject list.distinct(1) not_le)
  then have "after s0 incs (Suc n) = add_one c (after s0 incs n)"
    by (simp add: after_def take_Suc_conv_app_nth)
  then have "loads_ok s0 incs i m (Suc n) t"
    using ok increment(1) n unfolding loads_ok_def by (auto simp: le_Suc_eq)
  then show ?thesis by blast
next
  case (load c cs)
  then have d: "drop i load_order = c # cs" using ok by (simp add: loads_ok_def)
  then have i: "i < length load_order" "load_order ! i = c" "cs = drop (Suc i) load_order"
    by (metis drop_all list.distinct(1) not_le, metis nth_via_drop, metis Cons_nth_drop_Suc drop_all list.inject list.distinct(1) not_le)
  have new: "c \<notin> set (take i load_order)" "c = CTotal \<longleftrightarrow> i = 0"
    using load_order_new [OF i(1)] load_order_nth [OF i(1)] i(2) by auto
  let ?m = "if i = 0 then n else m"
  have "set (take (Suc i) load_order) = insert c (set (take i load_order))"
    using i by (simp add: take_Suc_conv_app_nth)
  then have "loads_ok s0 incs (Suc i) ?m n t"
    using ok load(1) i(1,3) new unfolding loads_ok_def by auto
  then show ?thesis by blast
qed

lemma snap_steps_ok:
  assumes "snap_step\<^sup>*\<^sup>* (snap_start s0 incs) s"
  shows "\<exists>i m n. loads_ok s0 incs i m n s"
  using assms
proof (induction rule: rtranclp_induct)
  case base
  have "loads_ok s0 incs 0 0 0 (snap_start s0 incs)"
    by (simp add: loads_ok_def snap_start_def after_def)
  then show ?case by blast
next
  case (step s t)
  then show ?case using snap_step_ok by blast
qed

lemma count_list_take_mono: "m \<le> j \<Longrightarrow> count_list (take m xs) c \<le> count_list (take j xs) c"
  by (metis count_list_append le_add1 le_add_diff_inverse take_add)

lemma outcome_count_mono:
  assumes "\<forall>c \<in> set outcomes. count_list xs c \<le> f c"
  shows "outcome_count xs \<le> sum_list (map f outcomes)"
  unfolding outcome_count_def using assms by (intro sum_list_mono) auto

lemma sum_load_of:
  "balanced s0 \<Longrightarrow> \<forall>c \<in> set outcomes. ld c = load_of c s0 + of_nat (f c) \<Longrightarrow>
    sum_list (map ld outcomes) = st_total s0 + of_nat (sum_list (map f outcomes))"
  by (simp add: outcomes_def balanced_def)

text \<open>
  The loads of a complete snapshot: the sum of the outcomes and one packet in flight exceed the total by
  a number between zero and one plus the number of packets.
\<close>

lemma snapshot_bounds:
  assumes "balanced s0" and "at_most_one incs" and "snap_step\<^sup>*\<^sup>* (snap_start s0 incs) s" and "loads_left s = []"
  shows "\<exists>k \<le> 1 + count_list incs CTotal. sum_list (map (loaded s) outcomes) + 1 = loaded s CTotal + of_nat k"
proof -
  obtain i m n where ok: "loads_ok s0 incs i m n s" using snap_steps_ok [OF assms(3)] by blast
  then have "length load_order \<le> i" using assms(4) by (simp add: loads_ok_def)
  moreover have "set load_order = UNIV" by (auto simp: load_order_def intro: counter_id.exhaust)
  ultimately have all: "\<exists>j. m \<le> j \<and> j \<le> n \<and> loaded s c = load_of c (after s0 incs j)" for c
    using ok by (simp add: loads_ok_def)
  then obtain j where j: "\<And>c. m \<le> j c" "\<And>c. j c \<le> n" "\<And>c. loaded s c = load_of c (after s0 incs (j c))"
    by metis
  have i: "0 < i" using \<open>length load_order \<le> i\<close> by (simp add: load_order_def)
  then have total: "loaded s CTotal = st_total s0 + of_nat (count_list (take m incs) CTotal)"
    using ok by (simp add: loads_ok_def after_def load_of_fold)
  let ?f = "\<lambda>c. count_list (take (j c) incs) c"
  let ?sum = "sum_list (map ?f outcomes)"
  have sum: "sum_list (map (loaded s) outcomes) = st_total s0 + of_nat ?sum"
    by (rule sum_load_of [OF assms(1)]) (simp add: j(3) after_def load_of_fold)
  have "in_flight (take m incs) \<in> {0, 1}" "in_flight (take n incs) \<in> {0, 1}"
    using assms(2) by (simp_all add: at_most_one_def)
  then have flight: "count_list (take m incs) CTotal \<le> outcome_count (take m incs) + 1"
    "outcome_count (take n incs) \<le> count_list (take n incs) CTotal"
    by (auto simp: in_flight_def)
  have "outcome_count (take m incs) \<le> ?sum"
    by (rule outcome_count_mono) (simp add: count_list_take_mono j(1))
  moreover have "?sum \<le> outcome_count (take n incs)"
    unfolding outcome_count_def by (intro sum_list_mono) (simp add: count_list_take_mono j(2))
  moreover have "count_list (take n incs) CTotal \<le> count_list incs CTotal"
    by (metis append_take_drop_id count_list_append le_add1)
  ultimately have le: "count_list (take m incs) CTotal \<le> ?sum + 1" "?sum \<le> count_list incs CTotal"
    using flight by linarith+
  let ?k = "?sum + 1 - count_list (take m incs) CTotal"
  have "of_nat (?sum + 1) = (of_nat (count_list (take m incs) CTotal + ?k) :: 64 word)"
    using le(1) by simp
  then have "sum_list (map (loaded s) outcomes) + 1 = loaded s CTotal + of_nat ?k"
    unfolding sum total by (simp only: of_nat_add of_nat_1 add.assoc)
  moreover have "?k \<le> 1 + count_list incs CTotal" using le(2) by linarith
  ultimately show ?thesis by blast
qed

lemma count_total_incs:
  "\<forall>attr \<in> set attrs. complete attr \<longleftrightarrow> verdict_of gp c attr \<noteq> None \<Longrightarrow>
    count_list (concat (map (packet_incs gp c) attrs)) CTotal = length (filter complete attrs)"
proof (induction attrs)
  case (Cons attr attrs)
  have "count_list (decision_incs v) CTotal = 0" for v
    by (simp add: decision_incs_def split: blockReason.split)
  then have "count_list (packet_incs gp c attr) CTotal = (if complete attr then 1 else 0)"
    by (auto simp: packet_incs_def complete_def split: option.splits)
  then show ?case using Cons by simp
qed simp

section \<open>The property\<close>

text \<open>
  C9: A snapshot taken in the middle of the traffic is nearly balanced. However the loads of \<open>Stats\<close>
  interleave with the increments of the packet callback, the total it reports is at most one more than
  the sum of the passed and blocked packets it reports, the one being the packet in flight, because the
  total is loaded first; the sum can exceed the total by no more than the packets handled meanwhile.
\<close>

theorem Stats_snapshot_balanced:
  assumes "balanced (e_stats e)" and "handle_all gp nf attrs (e, w) = Inr (e', w')"
    and "snap_step\<^sup>*\<^sup>* (snap_start (e_stats e) (concat (map (packet_incs gp (e_classifier e)) attrs))) s"
    and "loads_left s = []" and "st = snapshot_stats s"
  shows "\<exists>k. k \<le> 1 + length (filter complete attrs)
    \<and> Passed st + HTTPBlocked st + TLSBlocked st + DNSPoisoned st + DNSBlocked st + IPBlocked st + IPPortBlocked st + 1
      = Total st + of_nat k"
proof -
  have c: "\<forall>attr \<in> set attrs. complete attr \<longleftrightarrow> verdict_of gp (e_classifier e) attr \<noteq> None"
    using handle_all_Inr [OF assms(2)] by blast
  then have "at_most_one (concat (map (packet_incs gp (e_classifier e)) attrs))"
    by (intro at_most_one_concat) (simp add: at_most_one_packet)
  from snapshot_bounds [OF assms(1) this assms(3,4)] show ?thesis
    unfolding count_total_incs [OF c] by (auto simp: assms(5) snapshot_stats_def outcomes_def add.assoc)
qed

text \<open>A snapshot between the first increment of a packet and the one of its outcome.\<close>

definition example_incs :: "counter_id list" where
  "example_incs = concat (map (packet_incs example_gp (e_classifier example_engine)) [dns_attr, bare_attr, http_attr])"

definition example_snapshot :: snapshot where
  "example_snapshot = snap_exec (True # replicate 9 False) (snap_start (e_stats example_engine) example_incs)"

lemma example_snapshot_loaded: "loads_left example_snapshot = []" "loaded example_snapshot CTotal = 1"
proof -
  obtain cs where cs: "example_incs = CTotal # cs"
    by (simp add: example_incs_def packet_incs_def dns_attr_def)
  then show "loads_left example_snapshot = []" "loaded example_snapshot CTotal = 1"
    by (simp_all add: example_snapshot_def cs snap_start_def load_order_def numeral_nat example_engine_def zero_stats_def)
qed

theorem Stats_snapshot_balanced_witness:
  "\<exists>st k. st = snapshot_stats example_snapshot \<and> Total st = 1
     \<and> Passed st + HTTPBlocked st + TLSBlocked st + DNSPoisoned st + DNSBlocked st + IPBlocked st + IPPortBlocked st + 1
       = Total st + of_nat k"
proof -
  obtain e' w' where h: "handle_all example_gp log_lib [dns_attr, bare_attr, http_attr] (example_engine, ((), [])) = Inr (e', w')"
    using handle_examples by blast
  have b: "balanced (e_stats example_engine)" by (simp add: example_engine_def zero_stats_def balanced_def)
  have "snap_step\<^sup>*\<^sup>* (snap_start (e_stats example_engine)
      (concat (map (packet_incs example_gp (e_classifier example_engine)) [dns_attr, bare_attr, http_attr]))) example_snapshot"
    unfolding example_snapshot_def example_incs_def by (rule snap_exec_steps)
  from Stats_snapshot_balanced [OF b h this example_snapshot_loaded(1) refl]
  obtain k where "Passed (snapshot_stats example_snapshot) + HTTPBlocked (snapshot_stats example_snapshot)
      + TLSBlocked (snapshot_stats example_snapshot) + DNSPoisoned (snapshot_stats example_snapshot)
      + DNSBlocked (snapshot_stats example_snapshot) + IPBlocked (snapshot_stats example_snapshot)
      + IPPortBlocked (snapshot_stats example_snapshot) + 1 = Total (snapshot_stats example_snapshot) + of_nat k"
    by blast
  moreover have "Total (snapshot_stats example_snapshot) = 1"
    by (simp add: snapshot_stats_def example_snapshot_loaded(2))
  ultimately show ?thesis by blast
qed

end
