(* ===== verification/Verdict_Trace.thy ===== *)
theory Verdict_Trace
  imports Engine "HOL-Library.Sublist"
begin

text \<open>
  The calls the packet callback makes, as a trace. Any library is wrapped so that it notes the calls that
  matter: verdicts, and what is done with the sockets for forged answers. The wrapped library answers
  as the library itself does, so the trace is that of the run over the library.
\<close>

section \<open>Traces\<close>

text \<open>A call to open a socket is noted with its success.\<close>

datatype lib_call =
    CallVerdict "32 word" nf_verdict
  | CallListen "bytes \<times> nat" bool
  | CallWrite bytes "bytes \<times> nat"
  | CallCloseConn

definition noted :: "('a \<Rightarrow> lib_call list) \<Rightarrow> ('w \<Rightarrow> 'a \<times> 'w) \<Rightarrow> 'w \<times> lib_call list \<Rightarrow> 'a \<times> 'w \<times> lib_call list" where
  "noted call f = (\<lambda>(w, t). (case f w of (x, w') \<Rightarrow> (x, w', t @ call x)))"

definition traced :: "'w nfq_lib \<Rightarrow> ('w \<times> lib_call list) nfq_lib" where
  "traced nf =
     \<lparr>nfq_Open = (\<lambda>c. noted (\<lambda>_. []) (nfq_Open nf c)),
      nfq_SetNoENOBUFS = noted (\<lambda>_. []) (nfq_SetNoENOBUFS nf),
      nfq_Register = (\<lambda>ctx. noted (\<lambda>_. []) (nfq_Register nf ctx)),
      nfq_SetVerdict = (\<lambda>i v. noted (\<lambda>_. [CallVerdict i v]) (nfq_SetVerdict nf i v)),
      nfq_Close = noted (\<lambda>_. []) (nfq_Close nf),
      ListenPacket = (\<lambda>n opt a. noted (\<lambda>err. [CallListen a (err = None)]) (ListenPacket nf n opt a)),
      WriteTo = (\<lambda>p a. noted (\<lambda>_. [CallWrite p a]) (WriteTo nf p a)),
      CloseConn = (\<lambda>(w, t). (CloseConn nf w, t @ [CallCloseConn]))\<rparr>"

fun verdicts :: "lib_call list \<Rightarrow> (32 word \<times> nf_verdict) list" where
  "verdicts [] = []"
| "verdicts (CallVerdict i v # cs) = (i, v) # verdicts cs"
| "verdicts (_ # cs) = verdicts cs"

fun opened :: "lib_call list \<Rightarrow> (bytes \<times> nat) list" where
  "opened [] = []"
| "opened (CallListen a True # cs) = a # opened cs"
| "opened (_ # cs) = opened cs"

fun written :: "lib_call list \<Rightarrow> (bytes \<times> bytes \<times> nat) list" where
  "written [] = []"
| "written (CallWrite p a # cs) = (p, a) # written cs"
| "written (_ # cs) = written cs"

lemma verdicts_append [simp]: "verdicts (cs @ ds) = verdicts cs @ verdicts ds"
  by (induction cs rule: verdicts.induct) simp_all

lemma opened_append [simp]: "opened (cs @ ds) = opened cs @ opened ds"
  by (induction cs rule: opened.induct) simp_all

lemma written_append [simp]: "written (cs @ ds) = written cs @ written ds"
  by (induction cs rule: written.induct) simp_all

text \<open>
  The protocol of the sockets: a socket that was opened is written once and closed, one at a time, and
  no verdict is set while one is open.
\<close>

datatype socket_state = Idle | Opened | Written

fun protocol :: "socket_state \<Rightarrow> lib_call list \<Rightarrow> socket_state option" where
  "protocol s [] = Some s"
| "protocol Idle (CallVerdict i v # cs) = protocol Idle cs"
| "protocol Idle (CallListen a ok # cs) = protocol (if ok then Opened else Idle) cs"
| "protocol Opened (CallWrite p a # cs) = protocol Written cs"
| "protocol Written (CallCloseConn # cs) = protocol Idle cs"
| "protocol _ _ = None"

lemma protocol_append: "protocol s (cs @ ds) = Option.bind (protocol s cs) (\<lambda>s. protocol s ds)"
  by (induction s cs rule: protocol.induct) auto

section \<open>What the calls should be\<close>

text \<open>The verdict due to a packet: drop what the classifier drops, accept everything else.\<close>

definition due :: "gopacket \<Rightarrow> packetClassifier \<Rightarrow> attribute \<Rightarrow> (32 word \<times> nf_verdict) list" where
  "due gp c attr =
     (case PacketID attr of
        None \<Rightarrow> []
      | Some pid \<Rightarrow> [(pid, if Payload attr = None \<or> is_accepted gp c attr then NfAccept else NfDrop)])"

text \<open>The answer a packet may be given: the address to send from, the payload and the address to send to.\<close>

definition answers :: "gopacket \<Rightarrow> packetClassifier \<Rightarrow> attribute \<Rightarrow> ((bytes \<times> nat) \<times> bytes \<times> bytes \<times> nat) list" where
  "answers gp c attr =
     (case Option.bind (verdict_of gp c attr) DNSResponse of
        None \<Rightarrow> []
      | Some resp \<Rightarrow> [((netIPFromAddr (resp_SrcIP resp), unat (resp_SrcPort resp)), resp_Payload resp,
                   (netIPFromAddr (resp_DstIP resp), unat (resp_DstPort resp)))])"

definition calls_for :: "gopacket \<Rightarrow> packetClassifier \<Rightarrow> attribute list \<Rightarrow> lib_call list \<Rightarrow> bool" where
  "calls_for gp c attrs calls \<longleftrightarrow>
     verdicts calls = concat (map (due gp c) attrs) \<and> protocol Idle calls = Some Idle
     \<and> (\<exists>sent. subseq sent (concat (map (answers gp c) attrs)) \<and> opened calls = map fst sent \<and> written calls = map snd sent)"

lemma calls_for_Nil: "calls_for gp c [] []"
  by (simp add: calls_for_def)

lemma calls_for_append:
  assumes "calls_for gp c xs cs" "calls_for gp c ys ds"
  shows "calls_for gp c (xs @ ys) (cs @ ds)"
proof -
  obtain s1 s2 where "subseq s1 (concat (map (answers gp c) xs))" "opened cs = map fst s1" "written cs = map snd s1"
    "subseq s2 (concat (map (answers gp c) ys))" "opened ds = map fst s2" "written ds = map snd s2"
    using assms by (auto simp: calls_for_def)
  then have "\<exists>sent. subseq sent (concat (map (answers gp c) (xs @ ys))) \<and> opened (cs @ ds) = map fst sent \<and> written (cs @ ds) = map snd sent"
    by (intro exI [of _ "s1 @ s2"]) (simp add: list_emb_append_mono)
  then show ?thesis using assms by (simp add: calls_for_def protocol_append)
qed

section \<open>One packet\<close>

lemma sendDNSResponse_traced:
  "\<exists>calls. sendDNSResponse (traced nf) resp (w, t)
      = (fst (sendDNSResponse nf resp w), snd (sendDNSResponse nf resp w), t @ calls)
    \<and> verdicts calls = [] \<and> protocol Idle calls = Some Idle
    \<and> (calls = [] \<or> (\<exists>src. calls = [CallListen src False])
       \<or> opened calls = [(netIPFromAddr (resp_SrcIP resp), unat (resp_SrcPort resp))]
         \<and> written calls = [(resp_Payload resp, netIPFromAddr (resp_DstIP resp), unat (resp_DstPort resp))])"
proof -
  let ?n = "if Is4 (resp_SrcIP resp) then ''udp4'' else ''udp6''"
  let ?o = "if Is4 (resp_SrcIP resp) then IP_FREEBIND else IPV6_FREEBIND"
  let ?src = "(netIPFromAddr (resp_SrcIP resp), unat (resp_SrcPort resp))"
  let ?dst = "(netIPFromAddr (resp_DstIP resp), unat (resp_DstPort resp))"
  obtain x1 w1 where l: "ListenPacket nf ?n ?o ?src w = (x1, w1)" by fastforce
  obtain x2 w2 where w: "WriteTo nf (resp_Payload resp) ?dst w1 = (x2, w2)" by fastforce
  have lt: "ListenPacket (traced nf) ?n ?o ?src (w, t) = (x1, w1, t @ [CallListen ?src (x1 = None)])"
    using l by (simp add: traced_def noted_def)
  have wt: "WriteTo (traced nf) (resp_Payload resp) ?dst (w1, t') = (x2, w2, t' @ [CallWrite (resp_Payload resp) ?dst])" for t'
    using w by (simp add: traced_def noted_def)
  have ct: "CloseConn (traced nf) (w2, t') = (CloseConn nf w2, t' @ [CallCloseConn])" for t'
    by (simp add: traced_def)
  consider "resp_Payload resp = [] \<or> Is4 (resp_SrcIP resp) \<noteq> Is4 (resp_DstIP resp)"
    | e where "resp_Payload resp \<noteq> []" "Is4 (resp_SrcIP resp) = Is4 (resp_DstIP resp)" "x1 = Some e"
    | "resp_Payload resp \<noteq> []" "Is4 (resp_SrcIP resp) = Is4 (resp_DstIP resp)" "x1 = None"
    by (cases x1) auto
  then show ?thesis
  proof cases
    case 1
    then show ?thesis by (intro exI [of _ "[]"]) (auto simp: sendDNSResponse_def)
  next
    case 2
    then show ?thesis
      unfolding sendDNSResponse_def Let_def l lt by (intro exI [of _ "[CallListen ?src False]"]) simp
  next
    case 3
    then show ?thesis
      unfolding sendDNSResponse_def Let_def l lt
      by (intro exI [of _ "[CallListen ?src True, CallWrite (resp_Payload resp) ?dst, CallCloseConn]"]) (simp add: w wt ct)
  qed
qed

lemma act_on_traced:
  assumes "PacketID attr = Some pid" "Payload attr = Some p" "Classify gp c p = Some v"
  shows "\<exists>calls. act_on (traced nf) pid v (w, t) = (act_on nf pid v w, t @ calls) \<and> calls_for gp c [attr] calls"
proof -
  have v: "verdict_of gp c attr = Some v" using assms by (simp add: verdict_of_def)
  have set: "nfq_SetVerdict (traced nf) pid x (w1, t1)
      = (fst (nfq_SetVerdict nf pid x w1), snd (nfq_SetVerdict nf pid x w1), t1 @ [CallVerdict pid x])" for x w1 t1
    by (simp add: traced_def noted_def split_beta)
  have d: "due gp c attr = [(pid, if Kind v = verdictAccept then NfAccept else NfDrop)]"
    using assms(1,2) v by (simp add: due_def is_accepted_def)
  show ?thesis
  proof (cases "Kind v = verdictAccept \<or> DNSResponse v = None")
    case True
    then show ?thesis
      by (intro exI [of _ "[CallVerdict pid (if Kind v = verdictAccept then NfAccept else NfDrop)]"])
         (auto simp: act_on_def Let_def set calls_for_def d split: verdictKind.split option.split)
  next
    case False
    then obtain resp where resp: "DNSResponse v = Some resp" "Kind v = verdictDrop" by (cases "Kind v") auto
    obtain calls where calls: "sendDNSResponse (traced nf) resp (w, t)
        = (fst (sendDNSResponse nf resp w), snd (sendDNSResponse nf resp w), t @ calls)"
      "verdicts calls = []" "protocol Idle calls = Some Idle"
      "calls = [] \<or> (\<exists>src. calls = [CallListen src False])
       \<or> opened calls = [(netIPFromAddr (resp_SrcIP resp), unat (resp_SrcPort resp))]
         \<and> written calls = [(resp_Payload resp, netIPFromAddr (resp_DstIP resp), unat (resp_DstPort resp))]"
      using sendDNSResponse_traced [of nf resp w t] by blast
    have "\<exists>sent. subseq sent (answers gp c attr) \<and> opened calls = map fst sent \<and> written calls = map snd sent"
    proof (cases "opened calls = []")
      case True
      then show ?thesis using calls(4) by (intro exI [of _ "[]"]) auto
    next
      case False
      then show ?thesis using calls(4) v resp(1) by (intro exI [of _ "answers gp c attr"]) (auto simp: answers_def)
    qed
    then have "calls_for gp c [attr] (calls @ [CallVerdict pid NfDrop])"
      using calls(2,3) resp(2) by (simp add: calls_for_def d protocol_append)
    then show ?thesis
      using resp calls(1) set by (intro exI [of _ "calls @ [CallVerdict pid NfDrop]"]) (simp add: act_on_def Let_def)
  qed
qed

lemma handlePacket_traced:
  "case handlePacket gp (traced nf) attr (e, w, t) of
     Inr (e', w', t') \<Rightarrow> handlePacket gp nf attr (e, w) = Inr (e', w') \<and> e_classifier e' = e_classifier e
       \<and> (\<exists>calls. t' = t @ calls \<and> calls_for gp (e_classifier e) [attr] calls)
   | Inl (e', w', t') \<Rightarrow> handlePacket gp nf attr (e, w) = Inl (e', w')
       \<and> complete attr \<and> verdict_of gp (e_classifier e) attr = None \<and> t' = t"
proof -
  consider "PacketID attr = None" | pid where "PacketID attr = Some pid" "Payload attr = None"
    | pid p where "PacketID attr = Some pid" "Payload attr = Some p" by (cases "PacketID attr"; cases "Payload attr") auto
  then show ?thesis
  proof cases
    case 1
    then show ?thesis
      by (auto simp: handlePacket_def calls_for_def due_def answers_def verdict_of_def)
  next
    case 2
    then show ?thesis
      by (auto simp: handlePacket_def calls_for_def due_def answers_def verdict_of_def traced_def noted_def split_beta)
  next
    case 3
    show ?thesis
    proof (cases "Classify gp (e_classifier e) p")
      case None
      with 3 show ?thesis by (simp add: handlePacket_def Let_def complete_def verdict_of_def)
    next
      case (Some v)
      with 3 act_on_traced [OF 3 Some, of nf w t] show ?thesis by (auto simp: handlePacket_def Let_def)
    qed
  qed
qed

section \<open>All packets\<close>

text \<open>
  C8: Every packet gets exactly one verdict, for its own identifier and in the order of the packets: whatever the
  library does, the verdicts set while a sequence of packets is handled are, one after the other,
  drop for each packet that the classifier drops and accept for every other one with an identifier, and
  a packet without one gets none. The other calls follow the protocol of the sockets: what is
  opened is written once and closed before the next verdict, and what is sent are forged
  answers of the packets, each at most once, in their order, from and to the right addresses. If the
  callback panics, this holds of the packets before the one that the classifier panics on, and that
  packet and the later ones get no verdict.
\<close>

theorem one_verdict_per_packet:
  "case handle_all gp (traced nf) attrs (e, w, t) of
     Inr (e', w', t') \<Rightarrow> handle_all gp nf attrs (e, w) = Inr (e', w')
       \<and> (\<exists>calls. t' = t @ calls \<and> calls_for gp (e_classifier e) attrs calls)
   | Inl (e', w', t') \<Rightarrow> handle_all gp nf attrs (e, w) = Inl (e', w')
       \<and> (\<exists>before attr after calls. attrs = before @ attr # after \<and> complete attr
            \<and> verdict_of gp (e_classifier e) attr = None \<and> t' = t @ calls \<and> calls_for gp (e_classifier e) before calls)"
proof (induction attrs arbitrary: e w t)
  case Nil
  then show ?case by (simp add: calls_for_Nil)
next
  case (Cons attr attrs)
  note one = handlePacket_traced [of gp nf attr e w t]
  show ?case
  proof (cases "handlePacket gp (traced nf) attr (e, w, t)")
    case (Inl s)
    obtain e1 w1 t1 where "s = (e1, w1, t1)" by (cases s)
    with one Inl show ?thesis
      using calls_for_Nil by (auto intro!: exI [of _ "[]"])
  next
    case (Inr s)
    obtain e1 w1 t1 where s: "s = (e1, w1, t1)" by (cases s)
    from one Inr s obtain calls where h: "handlePacket gp nf attr (e, w) = Inr (e1, w1)"
      and c: "e_classifier e1 = e_classifier e" and t1: "t1 = t @ calls" and ok: "calls_for gp (e_classifier e) [attr] calls"
      by auto
    note more = calls_for_append [OF ok]
    show ?thesis
    proof (cases "handle_all gp (traced nf) attrs (e1, w1, t1)")
      case Inr': (Inr r)
      obtain e2 w2 t2 where r: "r = (e2, w2, t2)" by (cases r)
      from Cons.IH [of e1 w1 t1] Inr' r c obtain ds where
        "handle_all gp nf attrs (e1, w1) = Inr (e2, w2)" "t2 = t1 @ ds" "calls_for gp (e_classifier e) attrs ds" by auto
      then show ?thesis using Inr s h r Inr' t1 more [of attrs ds] by auto
    next
      case Inl': (Inl r)
      obtain e2 w2 t2 where r: "r = (e2, w2, t2)" by (cases r)
      from Cons.IH [of e1 w1 t1] Inl' r c obtain before a post ds where
        d: "handle_all gp nf attrs (e1, w1) = Inl (e2, w2)" "attrs = before @ a # post" "complete a"
        "verdict_of gp (e_classifier e) a = None" "t2 = t1 @ ds" "calls_for gp (e_classifier e) before ds" by auto
      have "calls_for gp (e_classifier e) (attr # before) (calls @ ds)" using more [OF d(6)] by simp
      moreover have "attr # attrs = (attr # before) @ a # post" using d(2) by simp
      moreover have "handle_all gp nf (attr # attrs) (e, w) = Inl (e2, w2)"
        "handle_all gp (traced nf) (attr # attrs) (e, w, t) = Inl (e2, w2, t @ calls @ ds)"
        using Inr s h r Inl' t1 d(1,5) by simp_all
      ultimately show ?thesis using d(3,4) by (simp del: handle_all.simps append_Cons) blast
    qed
  qed
qed

end
