(* ===== verification/Xdp.thy ===== *)
theory Xdp
  imports Rules
begin

text \<open>
  The loader of the XDP filter, \<open>xdp.go\<close> (built with the tag \<open>xdp\<close>): loading and attaching the eBPF
  program, the table of tail calls, and the rules written to the eBPF maps. The eBPF library, the
  kernel and the network interfaces are a parameter, a record of the calls the file makes; a pointer
  that may be nil is an option of a handle.
\<close>

section \<open>Printing addresses\<close>

text \<open>
  \<open>netip.Addr.String\<close>: the eight groups of an IPv6 address in hexadecimal without leading zeros, with
  the first longest run of at least two zero groups written as a double colon.
\<close>

definition hex_char :: "nat \<Rightarrow> char" where
  "hex_char d = ''0123456789abcdef'' ! d"

fun hex_string :: "nat \<Rightarrow> bytes" where
  "hex_string n = (if n < 16 then [hex_char n] else hex_string (n div 16) @ [hex_char (n mod 16)])"

definition v6u16 :: "128 word \<Rightarrow> nat \<Rightarrow> nat" where
  "v6u16 w i = unat (drop_bit (16 * (7 - i)) w AND 0xFFFF)"

definition zero_run :: "128 word \<Rightarrow> nat \<Rightarrow> nat" where
  "zero_run w i = length (takeWhile (\<lambda>j. v6u16 w j = 0) [i..<8])"

definition zero_groups :: "128 word \<Rightarrow> (nat \<times> nat) option" where
  "zero_groups w = foldl
     (\<lambda>best i. if 2 \<le> zero_run w i \<and> (case best of None \<Rightarrow> 0 | Some (s, e) \<Rightarrow> e - s) < zero_run w i
               then Some (i, i + zero_run w i) else best)
     None [0..<8]"

definition groups_string :: "128 word \<Rightarrow> nat list \<Rightarrow> bytes" where
  "groups_string w is = Join (map (\<lambda>i. hex_string (v6u16 w i)) is) '':''"

definition string6 :: "128 word \<Rightarrow> bytes" where
  "string6 w =
     (case zero_groups w of
        None \<Rightarrow> groups_string w [0..<8]
      | Some (s, e) \<Rightarrow> groups_string w [0..<s] @ ''::'' @ groups_string w [e..<8])"

definition zone_suffix :: "bytes \<Rightarrow> bytes" where
  "zone_suffix z = (if z = [] then [] else ''%'' @ z)"

definition Addr_String :: "addr \<Rightarrow> bytes" where
  "Addr_String a =
     (case a of
        AddrZero \<Rightarrow> ''invalid IP''
      | Addr4 w \<Rightarrow> addr4_string w
      | Addr6 w z \<Rightarrow> (if Is4In6 a then ''::ffff:'' @ addr4_string (ucast w) else string6 w) @ zone_suffix z)"

definition Prefix_Bits :: "prefix \<Rightarrow> int" where
  "Prefix_Bits p = int (bitsPlusOne p) - 1"

definition Prefix_String :: "prefix \<Rightarrow> bytes" where
  "Prefix_String p =
     (if bitsPlusOne p = 0 then ''invalid Prefix''
      else Addr_String (pfx_ip p) @ ''/'' @ decimal (bitsPlusOne p - 1))"

section \<open>Keys of the maps\<close>

definition maxDomainLen :: nat where
  "maxDomainLen = 64"

definition domainHTTP :: "32 word" where
  "domainHTTP = 1"

definition domainTLS :: "32 word" where
  "domainTLS = 2"

definition domainDNSPoison :: "32 word" where
  "domainDNSPoison = 4"

definition statNames :: "bytes list" where
  "statNames =
     [''total'', ''passed'', ''http_blocked'', ''tls_blocked'', ''dns_poisoned'', ''ip_blocked'',
      ''ip_port_blocked'', ''malformed'']"

record lpmV4Key =
  v4_PrefixLen :: "32 word"
  v4_Addr :: "32 word"

record lpmV6Key =
  v6_PrefixLen :: "32 word"
  v6_Addr :: bytes

record ipPortKey =
  p4_Addr :: "32 word"
  p4_Port :: "16 word"
  p4_Proto :: "8 word"
  p4_Pad :: "8 word"

record ipPortV6Key =
  p6_Addr :: bytes
  p6_Port :: "16 word"
  p6_Proto :: "8 word"
  p6_Pad :: "8 word"

datatype mapKey =
    DomainKey bytes
  | LpmV4 lpmV4Key
  | LpmV6 lpmV6Key
  | IPPortV4 ipPortKey
  | IPPortV6 ipPortV6Key

section \<open>The loaded objects and the library\<close>

text \<open>The anonymous struct \<open>objs\<close> of \<open>NewXDPFilter\<close>: programs and maps, as handles.\<close>

record xdp_objects =
  Program :: "nat option"
  IPv4Program :: "nat option"
  IPv6Program :: "nat option"
  TCP4Program :: "nat option"
  UDP4Program :: "nat option"
  TCP6Program :: "nat option"
  UDP6Program :: "nat option"
  HTTP4Program :: "nat option"
  TLS4Program :: "nat option"
  HTTP6Program :: "nat option"
  TLS6Program :: "nat option"
  DNS4Program :: "nat option"
  DNS6Program :: "nat option"
  DispatchRules :: "nat option"
  ScratchDomain :: "nat option"
  DomainRules :: "nat option"
  CidrRules :: "nat option"
  CidrV6Rules :: "nat option"
  IPPortRules :: "nat option"
  IPPortV6Rules :: "nat option"
  StatsMap :: "nat option"

record XDPFilter =
  program :: "nat option"
  ipv4Program :: "nat option"
  ipv6Program :: "nat option"
  tcp4Program :: "nat option"
  udp4Program :: "nat option"
  tcp6Program :: "nat option"
  udp6Program :: "nat option"
  http4Program :: "nat option"
  tls4Program :: "nat option"
  http6Program :: "nat option"
  tls6Program :: "nat option"
  dns4Program :: "nat option"
  dns6Program :: "nat option"
  dispatchRules :: "nat option"
  scratchDomain :: "nat option"
  domainRules :: "nat option"
  cidrRules :: "nat option"
  cidrV6Rules :: "nat option"
  ipPortRules :: "nat option"
  ipPortV6Rules :: "nat option"
  statsMap :: "nat option"
  xdpLink :: "nat option"
  xdp_iface :: bytes

datatype xdp_error =
    MemlockError bytes
  | LoadSpecError bytes
  | LoadObjectsError bytes
  | DispatchMissing
  | ProgramsMissing
  | PutDispatchError nat bytes
  | InterfaceError bytes bytes
  | UnknownXDPMode bytes
  | AttachError bytes bytes
  | EmptyDomain
  | DomainTooLong bytes
  | PutDomainError bytes bytes
  | NotIPv4 bytes
  | InvalidIPv4Prefix bytes
  | InvalidIPv6Prefix bytes
  | PutCIDRError bytes bytes
  | NotAPrefix bytes
  | ProtocolError
  | PutIPPortError bytes bytes
  | NotAnAddress bytes
  | LookupStatError bytes bytes

record 'w ebpf_lib =
  RemoveMemlock :: "'w \<Rightarrow> bytes option \<times> 'w"
  LoadCollectionSpec :: "bytes \<Rightarrow> bytes + nat"
  LoadAndAssign :: "nat \<Rightarrow> 'w \<Rightarrow> (bytes + xdp_objects) \<times> 'w"
  InterfaceByName :: "bytes \<Rightarrow> 'w \<Rightarrow> bytes + nat"
  XDPGenericMode :: "32 word"
  XDPDriverMode :: "32 word"
  AttachXDP :: "nat option \<Rightarrow> nat \<Rightarrow> 32 word \<Rightarrow> 'w \<Rightarrow> (bytes + nat) \<times> 'w"
  CloseLink :: "nat \<Rightarrow> 'w \<Rightarrow> bytes option \<times> 'w"
  CloseObj :: "nat option \<Rightarrow> 'w \<Rightarrow> bytes option \<times> 'w"
  PutProgram :: "nat \<Rightarrow> 32 word \<Rightarrow> nat option \<Rightarrow> 'w \<Rightarrow> bytes option \<times> 'w"
  MapPut :: "nat option \<Rightarrow> mapKey \<Rightarrow> 32 word \<Rightarrow> 'w \<Rightarrow> bytes option \<times> 'w"
  MapLookup :: "nat option \<Rightarrow> mapKey \<Rightarrow> 'w \<Rightarrow> bytes + 32 word"
  StatLookup :: "nat option \<Rightarrow> 32 word \<Rightarrow> 'w \<Rightarrow> bytes + 64 word"

section \<open>Loading and attaching\<close>

text \<open>
  Every argument of \<open>closeObjects\<close> is a pointer in an interface, which is never the nil interface, so
  \<open>Close\<close> is called on each of them; the errors are ignored.
\<close>

fun closeObjects :: "'w ebpf_lib \<Rightarrow> nat option list \<Rightarrow> 'w \<Rightarrow> 'w" where
  "closeObjects lib [] w = w"
| "closeObjects lib (obj # objs) w = closeObjects lib objs (snd (CloseObj lib obj w))"

definition all_objects :: "xdp_objects \<Rightarrow> nat option list" where
  "all_objects objs =
     [Program objs, IPv4Program objs, IPv6Program objs, TCP4Program objs, UDP4Program objs,
      TCP6Program objs, UDP6Program objs, HTTP4Program objs, TLS4Program objs, HTTP6Program objs,
      TLS6Program objs, DNS4Program objs, DNS6Program objs, DispatchRules objs,
      ScratchDomain objs, DomainRules objs, CidrRules objs, CidrV6Rules objs, IPPortRules objs,
      IPPortV6Rules objs, StatsMap objs]"

definition xdpAttachFlags :: "'w ebpf_lib \<Rightarrow> bytes \<Rightarrow> xdp_error + 32 word" where
  "xdpAttachFlags lib mode =
     (let m = ToLower (TrimSpace mode) in
      if m \<in> {[], ''generic''} then Inr (XDPGenericMode lib)
      else if m \<in> {''driver'', ''native''} then Inr (XDPDriverMode lib)
      else if m = ''auto'' then Inr 0
      else Inl (UnknownXDPMode mode))"

fun put_programs ::
  "'w ebpf_lib \<Rightarrow> nat \<Rightarrow> nat \<Rightarrow> nat option list \<Rightarrow> 'w \<Rightarrow> xdp_error option \<times> 'w" where
  "put_programs lib dispatch i [] w = (None, w)"
| "put_programs lib dispatch i (p # ps) w =
     (case PutProgram lib dispatch (of_nat i) p w of
        (Some e, w') \<Rightarrow> (Some (PutDispatchError i e), w')
      | (None, w') \<Rightarrow> put_programs lib dispatch (Suc i) ps w')"

definition populateDispatchRules ::
  "'w ebpf_lib \<Rightarrow> nat option \<Rightarrow> nat option list \<Rightarrow> 'w \<Rightarrow> xdp_error option \<times> 'w" where
  "populateDispatchRules lib dispatch programs w =
     (case dispatch of
        None \<Rightarrow> (Some DispatchMissing, w)
      | Some d \<Rightarrow>
          if None \<in> set programs then (Some ProgramsMissing, w)
          else put_programs lib d 0 programs w)"

definition dispatch_programs :: "xdp_objects \<Rightarrow> nat option list" where
  "dispatch_programs objs =
     [IPv4Program objs, IPv6Program objs, TCP4Program objs, UDP4Program objs, TCP6Program objs,
      UDP6Program objs, HTTP4Program objs, TLS4Program objs, HTTP6Program objs, TLS6Program objs,
      DNS4Program objs, DNS6Program objs]"

definition new_filter :: "xdp_objects \<Rightarrow> nat \<Rightarrow> bytes \<Rightarrow> XDPFilter" where
  "new_filter objs l ifaceName =
     \<lparr>program = Program objs, ipv4Program = IPv4Program objs, ipv6Program = IPv6Program objs,
      tcp4Program = TCP4Program objs, udp4Program = UDP4Program objs,
      tcp6Program = TCP6Program objs, udp6Program = UDP6Program objs,
      http4Program = HTTP4Program objs, tls4Program = TLS4Program objs,
      http6Program = HTTP6Program objs, tls6Program = TLS6Program objs,
      dns4Program = DNS4Program objs, dns6Program = DNS6Program objs,
      dispatchRules = DispatchRules objs, scratchDomain = ScratchDomain objs,
      domainRules = DomainRules objs, cidrRules = CidrRules objs, cidrV6Rules = CidrV6Rules objs,
      ipPortRules = IPPortRules objs, ipPortV6Rules = IPPortV6Rules objs,
      statsMap = StatsMap objs, xdpLink = Some l, xdp_iface = ifaceName\<rparr>"

definition NewXDPFilter ::
  "'w ebpf_lib \<Rightarrow> bytes \<Rightarrow> bytes \<Rightarrow> bytes \<Rightarrow> 'w \<Rightarrow> (xdp_error + XDPFilter) \<times> 'w" where
  "NewXDPFilter lib bpfProgram ifaceName mode w =
     (case RemoveMemlock lib w of
        (Some e, w) \<Rightarrow> (Inl (MemlockError e), w)
      | (None, w) \<Rightarrow>
     (case LoadCollectionSpec lib bpfProgram of
        Inl e \<Rightarrow> (Inl (LoadSpecError e), w)
      | Inr spec \<Rightarrow>
     (case LoadAndAssign lib spec w of
        (Inl e, w) \<Rightarrow> (Inl (LoadObjectsError e), w)
      | (Inr objs, w) \<Rightarrow>
     (case populateDispatchRules lib (DispatchRules objs) (dispatch_programs objs) w of
        (Some e, w) \<Rightarrow> (Inl e, closeObjects lib (all_objects objs) w)
      | (None, w) \<Rightarrow>
     (case InterfaceByName lib ifaceName w of
        Inl e \<Rightarrow> (Inl (InterfaceError ifaceName e), closeObjects lib (all_objects objs) w)
      | Inr ifindex \<Rightarrow>
     (case xdpAttachFlags lib mode of
        Inl e \<Rightarrow> (Inl e, closeObjects lib (all_objects objs) w)
      | Inr flags \<Rightarrow>
     (case AttachXDP lib (Program objs) ifindex flags w of
        (Inl e, w) \<Rightarrow> (Inl (AttachError ifaceName e), closeObjects lib (all_objects objs) w)
      | (Inr l, w) \<Rightarrow> (Inr (new_filter objs l ifaceName), w))))))))"

definition XDPFilter_Close :: "'w ebpf_lib \<Rightarrow> XDPFilter \<Rightarrow> 'w \<Rightarrow> 'w" where
  "XDPFilter_Close lib f w =
     closeObjects lib
       [program f, ipv4Program f, ipv6Program f, tcp4Program f, udp4Program f, tcp6Program f,
        udp6Program f, http4Program f, tls4Program f, http6Program f, tls6Program f,
        dns4Program f, dns6Program f, dispatchRules f, scratchDomain f, domainRules f,
        cidrRules f, cidrV6Rules f, ipPortRules f, ipPortV6Rules f, statsMap f]
       (case xdpLink f of None \<Rightarrow> w | Some l \<Rightarrow> snd (CloseLink lib l w))"

section \<open>Rules\<close>

definition xdp_normalizeDomain :: "bytes \<Rightarrow> bytes" where
  "xdp_normalizeDomain input =
     (let s = TrimSpace (ToLower input);
          s = TrimPrefix s ''http://'';
          s = TrimPrefix s ''https://'';
          s = (case IndexByte s (CHR ''/'') of None \<Rightarrow> s | Some slash \<Rightarrow> take slash s);
          s = (case IndexByte s (CHR '':'') of None \<Rightarrow> s | Some colon \<Rightarrow> take colon s)
      in TrimSuffix s ''.'')"

text \<open>The key is an array of zero bytes into which the name is copied.\<close>

definition makeDomainKey :: "bytes \<Rightarrow> xdp_error + bytes \<times> bytes" where
  "makeDomainKey input =
     (let normalized = xdp_normalizeDomain input in
      if normalized = [] then Inl EmptyDomain
      else if maxDomainLen \<le> length normalized then Inl (DomainTooLong normalized)
      else Inr (normalized @ replicate (maxDomainLen - length normalized) (CHR 0x00), normalized))"

definition AddDomainRule ::
  "'w ebpf_lib \<Rightarrow> XDPFilter \<Rightarrow> bytes \<Rightarrow> 32 word \<Rightarrow> 'w \<Rightarrow> (xdp_error + bytes) \<times> 'w" where
  "AddDomainRule lib f domain flags w =
     (case makeDomainKey domain of
        Inl e \<Rightarrow> (Inl e, w)
      | Inr (key, normalized) \<Rightarrow>
          let flags = (case MapLookup lib (domainRules f) (DomainKey key) w of
                         Inr existing \<Rightarrow> flags OR existing
                       | Inl _ \<Rightarrow> flags) in
          (case MapPut lib (domainRules f) (DomainKey key) flags w of
             (Some e, w') \<Rightarrow> (Inl (PutDomainError normalized e), w')
           | (None, w') \<Rightarrow> (Inr normalized, w')))"

definition le_uint32 :: "bytes \<Rightarrow> 32 word" where
  "le_uint32 raw = of_int (be_val (rev raw))"

definition ipv4MapUint32 :: "addr \<Rightarrow> xdp_error + 32 word" where
  "ipv4MapUint32 a =
     (case Unmap a of
        Addr4 w \<Rightarrow> Inr (le_uint32 (As4 w))
      | a' \<Rightarrow> Inl (NotIPv4 (Addr_String a')))"

definition AddCIDR :: "'w ebpf_lib \<Rightarrow> XDPFilter \<Rightarrow> prefix \<Rightarrow> 'w \<Rightarrow> (xdp_error + bytes) \<times> 'w" where
  "AddCIDR lib f pfx0 w =
     (let pfx = pfx_masked pfx0; ones = Prefix_Bits pfx in
      case pfx_ip pfx of
        Addr4 _ \<Rightarrow>
          (case ipv4MapUint32 (pfx_ip pfx) of
             Inl e \<Rightarrow> (Inl e, w)
           | Inr addr \<Rightarrow>
               if ones < 0 \<or> 32 < ones then (Inl (InvalidIPv4Prefix (Prefix_String pfx)), w)
               else case MapPut lib (cidrRules f) (LpmV4 \<lparr>v4_PrefixLen = of_int ones, v4_Addr = addr\<rparr>) 1 w of
                 (Some e, w') \<Rightarrow> (Inl (PutCIDRError (Prefix_String pfx) e), w')
               | (None, w') \<Rightarrow> (Inr (Prefix_String pfx), w'))
      | Addr6 v z \<Rightarrow>
          if ones < 0 \<or> 128 < ones then (Inl (InvalidIPv6Prefix (Prefix_String pfx)), w)
          else (case MapPut lib (cidrV6Rules f) (LpmV6 \<lparr>v6_PrefixLen = of_int ones, v6_Addr = As16 v\<rparr>) 1 w of
                  (Some e, w') \<Rightarrow> (Inl (PutCIDRError (Prefix_String pfx) e), w')
                | (None, w') \<Rightarrow> (Inr (Prefix_String pfx), w'))
      | AddrZero \<Rightarrow> (Inl (NotAPrefix (Prefix_String pfx)), w))"

definition protoName :: "8 word \<Rightarrow> bytes" where
  "protoName proto =
     (if proto = protoTCP then ''tcp''
      else if proto = protoUDP then ''udp''
      else ''proto'' @ decimal (unat proto))"

definition AddIPPort ::
  "'w ebpf_lib \<Rightarrow> XDPFilter \<Rightarrow> addr \<Rightarrow> 16 word \<Rightarrow> 8 word \<Rightarrow> 'w \<Rightarrow> (xdp_error + bytes) \<times> 'w" where
  "AddIPPort lib f addr0 port proto w =
     (let addr = Unmap addr0; tail = '':'' @ decimal (unat port) @ ''/'' @ protoName proto in
      if proto \<noteq> protoTCP \<and> proto \<noteq> protoUDP then (Inl ProtocolError, w)
      else case addr of
        Addr4 _ \<Rightarrow>
          (case ipv4MapUint32 addr of
             Inl e \<Rightarrow> (Inl e, w)
           | Inr ip \<Rightarrow>
               (case MapPut lib (ipPortRules f)
                       (IPPortV4 \<lparr>p4_Addr = ip, p4_Port = port, p4_Proto = proto, p4_Pad = 0\<rparr>) 1 w of
                  (Some e, w') \<Rightarrow> (Inl (PutIPPortError (Addr_String addr @ tail) e), w')
                | (None, w') \<Rightarrow> (Inr (Addr_String addr @ tail), w')))
      | Addr6 v z \<Rightarrow>
          (case MapPut lib (ipPortV6Rules f)
                  (IPPortV6 \<lparr>p6_Addr = As16 v, p6_Port = port, p6_Proto = proto, p6_Pad = 0\<rparr>) 1 w of
             (Some e, w') \<Rightarrow> (Inl (PutIPPortError (''['' @ Addr_String addr @ '']'' @ tail) e), w')
           | (None, w') \<Rightarrow> (Inr (''['' @ Addr_String addr @ '']'' @ tail), w'))
      | AddrZero \<Rightarrow> (Inl (NotAnAddress (Addr_String addr)), w))"

section \<open>Statistics\<close>

fun stats_loop ::
  "'w ebpf_lib \<Rightarrow> nat option \<Rightarrow> nat \<Rightarrow> bytes list \<Rightarrow> (bytes \<rightharpoonup> 64 word) \<Rightarrow> 'w \<Rightarrow> xdp_error + (bytes \<rightharpoonup> 64 word)" where
  "stats_loop lib m i [] result w = Inr result"
| "stats_loop lib m i (name # names) result w =
     (case StatLookup lib m (of_nat i) w of
        Inl e \<Rightarrow> Inl (LookupStatError name e)
      | Inr value \<Rightarrow> stats_loop lib m (Suc i) names (result(name \<mapsto> value)) w)"

definition GetStats :: "'w ebpf_lib \<Rightarrow> XDPFilter \<Rightarrow> 'w \<Rightarrow> xdp_error + (bytes \<rightharpoonup> 64 word)" where
  "GetStats lib f w = stats_loop lib (statsMap f) 0 statNames Map.empty w"

end
