(* ===== verification/Bpf_Filter.thy ===== *)
theory Bpf_Filter
  imports Xdp
begin

text \<open>
  The eBPF program \<open>bpf/filter.bpf.c\<close> that \<open>xdp.go\<close> loads: twelve programs that call each other through the
  dispatch table, behind the entry \<open>xdp_filter\<close>. A frame is its bytes from \<open>data\<close> to \<open>data_end\<close>; the
  structs of \<open>vmlinux.h\<close> are read at their offsets, after the checks of the code. Offsets are natural
  numbers: they stay below \<open>2\<^sup>1\<^sup>8\<close>, so that no sum of the code wraps and the tests for wrapping are
  false. The lookups in the maps and the dispatch table are a record of functions.
\<close>

unbundle bit_operations_syntax

section \<open>Constants and helpers\<close>

datatype xdp_action = XDP_DROP | XDP_PASS | XDP_TX

datatype xdp_stat =
    STAT_TOTAL | STAT_PASSED | STAT_HTTP_BLOCKED | STAT_TLS_BLOCKED | STAT_DNS_POISONED
  | STAT_IP_BLOCKED | STAT_IP_PORT_BLOCKED | STAT_MALFORMED

datatype bpf_prog =
    P_IPv4 | P_IPv6 | P_TCP4 | P_UDP4 | P_TCP6 | P_UDP6 | P_HTTP4 | P_TLS4 | P_HTTP6 | P_TLS6 | P_DNS4 | P_DNS6

record bpf_env =
  domain_rules :: "bytes \<Rightarrow> 32 word option"
  cidr_rules :: "lpmV4Key \<Rightarrow> 32 word option"
  cidr_v6_rules :: "lpmV6Key \<Rightarrow> 32 word option"
  ip_port_rules :: "ipPortKey \<Rightarrow> 32 word option"
  ip_port_v6_rules :: "ipPortV6Key \<Rightarrow> 32 word option"
  dispatch_rules :: "nat \<Rightarrow> bpf_prog option"

definition MAX_PACKET_READ :: nat where
  "MAX_PACKET_READ = 1024"

definition MAX_TLS_SCAN :: nat where
  "MAX_TLS_SCAN = 512"

definition MAX_DNS_SCAN :: nat where
  "MAX_DNS_SCAN = 64"

definition MAX_DNS_LABELS :: nat where
  "MAX_DNS_LABELS = 8"

definition load_u8 :: "bytes \<Rightarrow> nat \<Rightarrow> nat option" where
  "load_u8 pkt off =
     (if MAX_PACKET_READ \<le> off then None
      else if length pkt < off + 1 then None
      else Some (byte (pkt ! off)))"

definition load_be16 :: "bytes \<Rightarrow> nat \<Rightarrow> nat option" where
  "load_be16 pkt off = do { hi \<leftarrow> load_u8 pkt off; lo \<leftarrow> load_u8 pkt (off + 1); Some (256 * hi + lo) }"

text \<open>A 16-bit field in network byte order, and a range of bytes, of a struct that was checked.\<close>

definition field16 :: "bytes \<Rightarrow> nat \<Rightarrow> nat" where
  "field16 pkt off = 256 * byte (pkt ! off) + byte (pkt ! (off + 1))"

definition field_bytes :: "bytes \<Rightarrow> nat \<Rightarrow> nat \<Rightarrow> bytes" where
  "field_bytes pkt off n = take n (drop off pkt)"

definition put_bytes :: "bytes \<Rightarrow> nat \<Rightarrow> bytes \<Rightarrow> bytes" where
  "put_bytes pkt off bs = take off pkt @ bs @ drop (off + length bs) pkt"

definition put16 :: "bytes \<Rightarrow> nat \<Rightarrow> nat \<Rightarrow> bytes" where
  "put16 pkt off x = put_bytes pkt off [char_of (x div 256), char_of (x mod 256)]"

text \<open>Exchanging two fields of the same length.\<close>

definition swap_fields :: "bytes \<Rightarrow> nat \<Rightarrow> nat \<Rightarrow> nat \<Rightarrow> bytes" where
  "swap_fields pkt i j n =
     put_bytes (put_bytes pkt i (field_bytes pkt j n)) j (field_bytes pkt i n)"

definition swap_macs :: "bytes \<Rightarrow> bytes" where
  "swap_macs pkt = swap_fields pkt 0 6 6"

definition csum_replace16 :: "nat \<Rightarrow> nat \<Rightarrow> nat \<Rightarrow> nat" where
  "csum_replace16 check old new =
     (let sum = (65535 - check) + (65535 - old) + new;
          sum = sum mod 65536 + sum div 65536;
          sum = sum mod 65536 + sum div 65536;
          out = 65535 - sum mod 65536
      in if out = 0 then 65535 else out)"

section \<open>Lookups\<close>

definition bpf_domain_matches :: "bpf_env \<Rightarrow> bytes \<Rightarrow> nat \<Rightarrow> 32 word \<Rightarrow> bool" where
  "bpf_domain_matches env key len action =
     (if len = 0 \<or> maxDomainLen \<le> len then False
      else case domain_rules env key of None \<Rightarrow> False | Some rule \<Rightarrow> rule AND action \<noteq> 0)"

text \<open>The key of a name in the packet, or \<^const>\<open>None\<close> if one of its bytes cannot be read.\<close>

fun packet_name :: "bytes \<Rightarrow> nat \<Rightarrow> nat \<Rightarrow> bytes option" where
  "packet_name pkt off 0 = Some []"
| "packet_name pkt off (Suc n) = do {
     c \<leftarrow> load_u8 pkt off;
     cs \<leftarrow> packet_name pkt (Suc off) n;
     Some (ascii_lower (char_of c) # cs) }"

definition domain_from_packet_matches :: "bpf_env \<Rightarrow> bytes \<Rightarrow> nat \<Rightarrow> nat \<Rightarrow> 32 word \<Rightarrow> bool" where
  "domain_from_packet_matches env pkt off len action =
     (if len = 0 \<or> maxDomainLen \<le> len then False
      else if MAX_PACKET_READ \<le> off \<or> MAX_PACKET_READ - off < len then False
      else case packet_name pkt off len of
        None \<Rightarrow> False
      | Some name \<Rightarrow>
          bpf_domain_matches env (name @ replicate (maxDomainLen - len) (CHR 0x00)) len action)"

definition bpf_ip_matches_cidr :: "bpf_env \<Rightarrow> bytes \<Rightarrow> bool" where
  "bpf_ip_matches_cidr env addr = (cidr_rules env \<lparr>v4_PrefixLen = 32, v4_Addr = le_uint32 addr\<rparr> \<noteq> None)"

definition bpf_ip6_matches_cidr :: "bpf_env \<Rightarrow> bytes \<Rightarrow> bool" where
  "bpf_ip6_matches_cidr env addr = (cidr_v6_rules env \<lparr>v6_PrefixLen = 128, v6_Addr = addr\<rparr> \<noteq> None)"

definition bpf_ip_port_matches :: "bpf_env \<Rightarrow> bytes \<Rightarrow> nat \<Rightarrow> 8 word \<Rightarrow> bool" where
  "bpf_ip_port_matches env addr port proto =
     (ip_port_rules env \<lparr>p4_Addr = le_uint32 addr, p4_Port = of_nat port, p4_Proto = proto, p4_Pad = 0\<rparr> \<noteq> None)"

definition bpf_ip6_port_matches :: "bpf_env \<Rightarrow> bytes \<Rightarrow> nat \<Rightarrow> 8 word \<Rightarrow> bool" where
  "bpf_ip6_port_matches env addr port proto =
     (ip_port_v6_rules env \<lparr>p6_Addr = addr, p6_Port = of_nat port, p6_Proto = proto, p6_Pad = 0\<rparr> \<noteq> None)"

section \<open>HTTP\<close>

text \<open>
  In this function and the next one every early return passes the packet; it is \<^const>\<open>None\<close> here. The
  result is where the name is in the packet. The loop counts at most 63 bytes.
\<close>

fun host_scan :: "bytes \<Rightarrow> nat \<Rightarrow> nat \<Rightarrow> nat" where
  "host_scan pkt off 0 = 0"
| "host_scan pkt off (Suc n) =
     (case load_u8 pkt off of
        None \<Rightarrow> 0
      | Some hc \<Rightarrow> if char_of hc \<in> {CHR 0x0D, CHR 0x0A, CHR '' '', CHR 0x09, CHR '':''} then 0
                   else Suc (host_scan pkt (Suc off) n))"

definition skip_blank :: "bytes \<Rightarrow> nat \<Rightarrow> nat option" where
  "skip_blank pkt off = do {
     c \<leftarrow> load_u8 pkt off;
     let off' = (if char_of c \<in> {CHR '' '', CHR 0x09} then off + 1 else off);
     if MAX_PACKET_READ \<le> off' then None else Some off' }"

definition find_http_host :: "bytes \<Rightarrow> nat \<Rightarrow> nat \<Rightarrow> (nat \<times> nat) option" where
  "find_http_host pkt payload_off rel_off =
     (if MAX_PACKET_READ \<le> payload_off then None
      else if 64 < rel_off \<or> MAX_PACKET_READ - rel_off < payload_off then None
      else do {
        let off = payload_off + rel_off;
        h \<leftarrow> load_u8 pkt off;
        o1 \<leftarrow> load_u8 pkt (off + 1);
        s \<leftarrow> load_u8 pkt (off + 2);
        t \<leftarrow> load_u8 pkt (off + 3);
        colon \<leftarrow> load_u8 pkt (off + 4);
        if map (\<lambda>c. ascii_lower (char_of c)) [h, o1, s, t] \<noteq> ''host'' \<or> char_of colon \<noteq> CHR '':'' then None
        else if MAX_PACKET_READ \<le> off + 5 then None
        else do {
          host_off \<leftarrow> skip_blank pkt (off + 5);
          host_off \<leftarrow> skip_blank pkt host_off;
          Some (host_off, host_scan pkt host_off (maxDomainLen - 1)) } })"

definition check_http_host_at :: "bpf_env \<Rightarrow> bytes \<Rightarrow> nat \<Rightarrow> nat \<Rightarrow> xdp_action" where
  "check_http_host_at env pkt payload_off rel_off =
     (case find_http_host pkt payload_off rel_off of
        None \<Rightarrow> XDP_PASS
      | Some (host_off, host_len) \<Rightarrow>
          if domain_from_packet_matches env pkt host_off host_len domainHTTP then XDP_DROP else XDP_PASS)"

definition check_http_host :: "bpf_env \<Rightarrow> bytes \<Rightarrow> nat \<Rightarrow> xdp_action" where
  "check_http_host env pkt payload_off = check_http_host_at env pkt payload_off 16"

section \<open>TLS\<close>

text \<open>The name of a \<open>server_name\<close> extension at \<open>pos\<close>.\<close>

definition sni_name :: "bytes \<Rightarrow> nat \<Rightarrow> nat \<Rightarrow> nat \<Rightarrow> (nat \<times> nat) option" where
  "sni_name pkt tls_limit pos ext_len =
     (if ext_len < 5 then None
      else do {
        list_len \<leftarrow> load_be16 pkt pos;
        name_type \<leftarrow> load_u8 pkt (pos + 2);
        name_len \<leftarrow> load_be16 pkt (pos + 3);
        if name_type \<noteq> 0 \<or> list_len < 3 \<or> name_len = 0 \<or> maxDomainLen \<le> name_len then None
        else if ext_len < 5 \<or> ext_len - 5 < name_len then None
        else if tls_limit < pos + 5 \<or> tls_limit - (pos + 5) < name_len then None
        else Some (pos + 5, name_len) })"

fun ext_loop :: "bytes \<Rightarrow> nat \<Rightarrow> nat \<Rightarrow> nat \<Rightarrow> nat \<Rightarrow> (nat \<times> nat) option" where
  "ext_loop pkt tls_limit extensions_end 0 pos = None"
| "ext_loop pkt tls_limit extensions_end (Suc n) pos =
     (if extensions_end < pos \<or> extensions_end - pos < 4 then None
      else do {
        ext_type \<leftarrow> load_be16 pkt pos;
        ext_len \<leftarrow> load_be16 pkt (pos + 2);
        if tls_limit < pos + 4 then None
        else if MAX_TLS_SCAN < ext_len \<or> tls_limit - (pos + 4) < ext_len then None
        else if ext_type = 0 then sni_name pkt tls_limit (pos + 4) ext_len
        else ext_loop pkt tls_limit extensions_end n (pos + 4 + ext_len) })"

definition find_tls_sni :: "bytes \<Rightarrow> nat \<Rightarrow> (nat \<times> nat) option" where
  "find_tls_sni pkt payload_off =
     (if MAX_PACKET_READ \<le> payload_off \<or> MAX_PACKET_READ - 6 < payload_off then None
      else do {
        content_type \<leftarrow> load_u8 pkt payload_off;
        version_major \<leftarrow> load_u8 pkt (payload_off + 1);
        handshake_type \<leftarrow> load_u8 pkt (payload_off + 5);
        if content_type \<noteq> 0x16 \<or> version_major \<noteq> 0x03 \<or> handshake_type \<noteq> 0x01 then None
        else do {
          let tls_limit = min (payload_off + MAX_TLS_SCAN) MAX_PACKET_READ;
          if MAX_PACKET_READ - 44 < payload_off then None
          else do {
            session_len \<leftarrow> load_u8 pkt (payload_off + 43);
            let pos = payload_off + 43 + 1 + session_len;
            if tls_limit < pos \<or> tls_limit < pos + 2 then None
            else do {
              cipher_len \<leftarrow> load_be16 pkt pos;
              let pos = pos + 2 + cipher_len;
              if MAX_TLS_SCAN < cipher_len \<or> tls_limit < pos \<or> tls_limit < pos + 1 then None
              else do {
                compression_len \<leftarrow> load_u8 pkt pos;
                let pos = pos + 1 + compression_len;
                if 32 < compression_len \<or> tls_limit < pos \<or> tls_limit < pos + 2 then None
                else do {
                  extensions_len \<leftarrow> load_be16 pkt pos;
                  let pos = pos + 2;
                  let extensions_end = (if tls_limit < pos + extensions_len then tls_limit else pos + extensions_len);
                  ext_loop pkt tls_limit extensions_end 16 pos } } } } } })"

definition check_tls_sni :: "bpf_env \<Rightarrow> bytes \<Rightarrow> nat \<Rightarrow> xdp_action" where
  "check_tls_sni env pkt payload_off =
     (case find_tls_sni pkt payload_off of
        None \<Rightarrow> XDP_PASS
      | Some (name_off, name_len) \<Rightarrow>
          if domain_from_packet_matches env pkt name_off name_len domainTLS then XDP_DROP else XDP_PASS)"

section \<open>DNS\<close>

text \<open>
  The scan of the question name: position, the name written so far, what is left of the current label
  and the number of labels. The result is the position after the name and the name.
\<close>

fun dns_scan :: "bytes \<Rightarrow> nat \<Rightarrow> nat \<Rightarrow> nat \<Rightarrow> bytes \<Rightarrow> nat \<Rightarrow> nat \<Rightarrow> (nat \<times> bytes) option" where
  "dns_scan pkt dns_end 0 pos name label_remaining labels = None"
| "dns_scan pkt dns_end (Suc n) pos name label_remaining labels =
     (if label_remaining = 0 then
        (if dns_end \<le> pos then None
         else do {
           label_len \<leftarrow> load_u8 pkt pos;
           if label_len = 0 then Some (pos + 1, name)
           else if label_len AND 0xc0 \<noteq> 0 \<or> 63 < label_len then None
           else if MAX_DNS_LABELS < labels + 1 then None
           else if name = [] then dns_scan pkt dns_end n (pos + 1) name label_len (labels + 1)
           else if maxDomainLen - 1 \<le> length name then None
           else dns_scan pkt dns_end n (pos + 1) (name @ ''.'') label_len (labels + 1) })
      else if maxDomainLen - 1 \<le> length name then None
      else if dns_end \<le> pos then None
      else do {
        c \<leftarrow> load_u8 pkt pos;
        dns_scan pkt dns_end n (pos + 1) (name @ [ascii_lower (char_of c)]) (label_remaining - 1) labels })"

definition dns_domain_matches :: "bpf_env \<Rightarrow> bytes \<Rightarrow> nat \<Rightarrow> nat \<Rightarrow> bool" where
  "dns_domain_matches env pkt dns_off dns_payload_len =
     (let dns_end = dns_off + dns_payload_len in
      if MAX_PACKET_READ \<le> dns_off \<or> MAX_PACKET_READ - 12 < dns_off then False
      else if MAX_PACKET_READ < dns_end then False
      else if length pkt < dns_end \<or> length pkt < dns_off + 12 then False
      else if field16 pkt (dns_off + 2) AND 0x8000 \<noteq> 0 then False
      else if field16 pkt (dns_off + 4) = 0 then False
      else case dns_scan pkt dns_end MAX_DNS_SCAN (dns_off + 12) [] 0 0 of
        None \<Rightarrow> False
      | Some (pos, name) \<Rightarrow>
          if dns_end < pos \<or> dns_end - pos < 4 then False
          else bpf_domain_matches env (name @ replicate (maxDomainLen - length name) (CHR 0x00)) (length name) domainDNSPoison)"

text \<open>The answer is made in place.\<close>

definition answer_header :: "bytes \<Rightarrow> nat \<Rightarrow> bytes" where
  "answer_header pkt dns_off = put16 (put16 (put16 (put16 pkt (dns_off + 2) 0x8183) (dns_off + 6) 0) (dns_off + 8) 0) (dns_off + 10) 0"

definition poison_dns_nxdomain_v4 :: "bytes \<Rightarrow> nat \<Rightarrow> nat \<Rightarrow> bytes" where
  "poison_dns_nxdomain_v4 pkt udp_off dns_off =
     (let p = swap_macs pkt;
          p = swap_fields p 26 30 4;
          p = swap_fields p udp_off (udp_off + 2) 2;
          p = answer_header p dns_off
      in put16 p (udp_off + 6) 0)"

definition poison_dns_nxdomain_v6 :: "bytes \<Rightarrow> nat \<Rightarrow> nat \<Rightarrow> bytes" where
  "poison_dns_nxdomain_v6 pkt udp_off dns_off =
     (let p = swap_macs pkt;
          p = swap_fields p 22 38 16;
          p = swap_fields p udp_off (udp_off + 2) 2;
          old_flags = field16 p (dns_off + 2);
          old_ancount = field16 p (dns_off + 6);
          old_nscount = field16 p (dns_off + 8);
          old_arcount = field16 p (dns_off + 10);
          p = answer_header p dns_off;
          check = csum_replace16 (field16 p (udp_off + 6)) old_flags 0x8183;
          check = csum_replace16 check old_ancount 0;
          check = csum_replace16 check old_nscount 0;
          check = csum_replace16 check old_arcount 0
      in put16 p (udp_off + 6) check)"

text \<open>A verdict: the action, the counters that were incremented, and the frame.\<close>

type_synonym verdict = "xdp_action \<times> xdp_stat list \<times> bytes"

definition check_dns_v4 :: "bpf_env \<Rightarrow> bytes \<Rightarrow> nat \<Rightarrow> nat \<Rightarrow> verdict" where
  "check_dns_v4 env pkt udp_off dns_off =
     (let udp_len = field16 pkt (udp_off + 4) in
      if udp_len < 8 + 12 then (XDP_PASS, [], pkt)
      else if \<not> dns_domain_matches env pkt dns_off (udp_len - 8) then (XDP_PASS, [], pkt)
      else if length pkt < dns_off + 12 then (XDP_PASS, [], pkt)
      else if byte (pkt ! 14) mod 16 \<noteq> 5 then (XDP_DROP, [], pkt)
      else (XDP_TX, [STAT_DNS_POISONED], poison_dns_nxdomain_v4 pkt udp_off dns_off))"

definition check_dns_v6 :: "bpf_env \<Rightarrow> bytes \<Rightarrow> nat \<Rightarrow> nat \<Rightarrow> verdict" where
  "check_dns_v6 env pkt udp_off dns_off =
     (let udp_len = field16 pkt (udp_off + 4) in
      if udp_len < 8 + 12 then (XDP_PASS, [], pkt)
      else if MAX_PACKET_READ \<le> udp_off \<or> MAX_PACKET_READ - udp_off < udp_len then (XDP_PASS, [], pkt)
      else if \<not> dns_domain_matches env pkt dns_off (udp_len - 8) then (XDP_PASS, [], pkt)
      else if length pkt < dns_off + 12 then (XDP_PASS, [], pkt)
      else (XDP_TX, [STAT_DNS_POISONED], poison_dns_nxdomain_v6 pkt udp_off dns_off))"

section \<open>Headers\<close>

text \<open>A check that returns a verdict, with its counter, or the value the caller goes on with.\<close>

definition parse_tcp_ports :: "bytes \<Rightarrow> nat \<Rightarrow> (xdp_action \<times> xdp_stat) + nat \<times> nat \<times> nat" where
  "parse_tcp_ports pkt l4_off =
     (if length pkt < l4_off + 20 then Inl (XDP_PASS, STAT_MALFORMED)
      else
        (let tcp_doff = byte (pkt ! (l4_off + 12)) div 16 in
         if tcp_doff < 5 \<or> 15 < tcp_doff then Inl (XDP_PASS, STAT_MALFORMED)
         else if length pkt < l4_off + tcp_doff * 4 then Inl (XDP_PASS, STAT_MALFORMED)
         else Inr (l4_off + tcp_doff * 4, field16 pkt l4_off, field16 pkt (l4_off + 2))))"

definition parse_udp_ports :: "bytes \<Rightarrow> nat \<Rightarrow> (xdp_action \<times> xdp_stat) + nat \<times> nat" where
  "parse_udp_ports pkt l4_off =
     (if length pkt < l4_off + 8 then Inl (XDP_PASS, STAT_MALFORMED)
      else Inr (field16 pkt l4_off, field16 pkt (l4_off + 2)))"

definition validate_ipv4 :: "bpf_env \<Rightarrow> bytes \<Rightarrow> (xdp_action \<times> xdp_stat) + nat" where
  "validate_ipv4 env pkt =
     (if length pkt < 14 then Inl (XDP_PASS, STAT_MALFORMED)
      else if length pkt < 14 + 20 then Inl (XDP_PASS, STAT_MALFORMED)
      else
        (let ihl = byte (pkt ! 14) mod 16; version = byte (pkt ! 14) div 16 in
         if version \<noteq> 4 then Inl (XDP_PASS, STAT_MALFORMED)
         else if ihl < 5 \<or> 15 < ihl then Inl (XDP_PASS, STAT_MALFORMED)
         else if length pkt < 14 + ihl * 4 then Inl (XDP_PASS, STAT_MALFORMED)
         else if bpf_ip_matches_cidr env (field_bytes pkt 26 4) \<or> bpf_ip_matches_cidr env (field_bytes pkt 30 4)
           then Inl (XDP_DROP, STAT_IP_BLOCKED)
         else if field16 pkt 20 AND 0x3fff \<noteq> 0 then Inl (XDP_PASS, STAT_PASSED)
         else Inr (14 + ihl * 4)))"

definition validate_ipv6 :: "bpf_env \<Rightarrow> bytes \<Rightarrow> (xdp_action \<times> xdp_stat) + nat" where
  "validate_ipv6 env pkt =
     (if length pkt < 14 then Inl (XDP_PASS, STAT_MALFORMED)
      else if length pkt < 14 + 40 then Inl (XDP_PASS, STAT_MALFORMED)
      else if byte (pkt ! 14) div 16 \<noteq> 6 then Inl (XDP_PASS, STAT_MALFORMED)
      else if bpf_ip6_matches_cidr env (field_bytes pkt 22 16) \<or> bpf_ip6_matches_cidr env (field_bytes pkt 38 16)
        then Inl (XDP_DROP, STAT_IP_BLOCKED)
      else Inr (14 + 40))"

definition tcp4_payload_for_port :: "bytes \<Rightarrow> nat \<Rightarrow> (xdp_action \<times> xdp_stat) + nat" where
  "tcp4_payload_for_port pkt want_dport =
     (if length pkt < 14 then Inl (XDP_PASS, STAT_MALFORMED)
      else if length pkt < 14 + 20 then Inl (XDP_PASS, STAT_MALFORMED)
      else
        (let ihl = byte (pkt ! 14) mod 16; version = byte (pkt ! 14) div 16 in
         if version \<noteq> 4 \<or> byte (pkt ! 23) \<noteq> 6 then Inl (XDP_PASS, STAT_PASSED)
         else if ihl < 5 \<or> 15 < ihl then Inl (XDP_PASS, STAT_MALFORMED)
         else if length pkt < 14 + ihl * 4 then Inl (XDP_PASS, STAT_MALFORMED)
         else if field16 pkt 20 AND 0x3fff \<noteq> 0 then Inl (XDP_PASS, STAT_PASSED)
         else case parse_tcp_ports pkt (14 + ihl * 4) of
           Inl v \<Rightarrow> Inl v
         | Inr (payload_off, sport, dport) \<Rightarrow>
             if dport \<noteq> want_dport then Inl (XDP_PASS, STAT_PASSED) else Inr payload_off))"

definition tcp6_payload_for_port :: "bytes \<Rightarrow> nat \<Rightarrow> (xdp_action \<times> xdp_stat) + nat" where
  "tcp6_payload_for_port pkt want_dport =
     (if length pkt < 14 then Inl (XDP_PASS, STAT_MALFORMED)
      else if length pkt < 14 + 40 then Inl (XDP_PASS, STAT_MALFORMED)
      else if byte (pkt ! 14) div 16 \<noteq> 6 \<or> byte (pkt ! 20) \<noteq> 6 then Inl (XDP_PASS, STAT_PASSED)
      else case parse_tcp_ports pkt (14 + 40) of
        Inl v \<Rightarrow> Inl v
      | Inr (payload_off, sport, dport) \<Rightarrow>
          if dport \<noteq> want_dport then Inl (XDP_PASS, STAT_PASSED) else Inr payload_off)"

section \<open>The programs\<close>

text \<open>
  A program ends with a verdict or makes a tail call. When a tail call fails, every program goes on by
  counting the packet as passed and passing it.
\<close>

datatype prog_end = Finish verdict | TailCall nat

definition counted :: "bytes \<Rightarrow> xdp_action \<times> xdp_stat \<Rightarrow> prog_end" where
  "counted pkt v = Finish (fst v, [snd v], pkt)"

definition passed :: "bytes \<Rightarrow> prog_end" where
  "passed pkt = counted pkt (XDP_PASS, STAT_PASSED)"

definition run_http_rule :: "bpf_env \<Rightarrow> bytes \<Rightarrow> nat \<Rightarrow> prog_end" where
  "run_http_rule env pkt payload_off =
     (if check_http_host env pkt payload_off = XDP_DROP then counted pkt (XDP_DROP, STAT_HTTP_BLOCKED) else passed pkt)"

definition run_tls_rule :: "bpf_env \<Rightarrow> bytes \<Rightarrow> nat \<Rightarrow> prog_end" where
  "run_tls_rule env pkt payload_off =
     (if check_tls_sni env pkt payload_off = XDP_DROP then counted pkt (XDP_DROP, STAT_TLS_BLOCKED) else passed pkt)"

definition xdp_ipv4 :: "bpf_env \<Rightarrow> bytes \<Rightarrow> prog_end" where
  "xdp_ipv4 env pkt =
     (case validate_ipv4 env pkt of
        Inl v \<Rightarrow> counted pkt v
      | Inr l4_off \<Rightarrow>
          if byte (pkt ! 23) = 6 then TailCall 2
          else if byte (pkt ! 23) = 17 then TailCall 3
          else passed pkt)"

definition xdp_ipv6 :: "bpf_env \<Rightarrow> bytes \<Rightarrow> prog_end" where
  "xdp_ipv6 env pkt =
     (case validate_ipv6 env pkt of
        Inl v \<Rightarrow> counted pkt v
      | Inr l4_off \<Rightarrow>
          if byte (pkt ! 20) = 6 then TailCall 4
          else if byte (pkt ! 20) = 17 then TailCall 5
          else passed pkt)"

definition xdp_tcp4 :: "bpf_env \<Rightarrow> bytes \<Rightarrow> prog_end" where
  "xdp_tcp4 env pkt =
     (case validate_ipv4 env pkt of
        Inl v \<Rightarrow> counted pkt v
      | Inr l4_off \<Rightarrow>
          if byte (pkt ! 23) \<noteq> 6 then passed pkt
          else case parse_tcp_ports pkt l4_off of
            Inl v \<Rightarrow> counted pkt v
          | Inr (payload_off, sport, dport) \<Rightarrow>
              if bpf_ip_port_matches env (field_bytes pkt 30 4) dport protoTCP
                 \<or> bpf_ip_port_matches env (field_bytes pkt 26 4) sport protoTCP
              then counted pkt (XDP_DROP, STAT_IP_PORT_BLOCKED)
              else if dport = 80 then TailCall 6
              else if dport = 443 then TailCall 7
              else passed pkt)"

definition xdp_udp4 :: "bpf_env \<Rightarrow> bytes \<Rightarrow> prog_end" where
  "xdp_udp4 env pkt =
     (if length pkt < 14 then counted pkt (XDP_PASS, STAT_MALFORMED)
      else case validate_ipv4 env pkt of
        Inl v \<Rightarrow> counted pkt v
      | Inr l4_off \<Rightarrow>
          if byte (pkt ! 23) \<noteq> 17 then passed pkt
          else case parse_udp_ports pkt l4_off of
            Inl v \<Rightarrow> counted pkt v
          | Inr (sport, dport) \<Rightarrow>
              if bpf_ip_port_matches env (field_bytes pkt 30 4) dport protoUDP
                 \<or> bpf_ip_port_matches env (field_bytes pkt 26 4) sport protoUDP
              then counted pkt (XDP_DROP, STAT_IP_PORT_BLOCKED)
              else if dport = 53 then TailCall 10
              else passed pkt)"

definition xdp_tcp6 :: "bpf_env \<Rightarrow> bytes \<Rightarrow> prog_end" where
  "xdp_tcp6 env pkt =
     (case validate_ipv6 env pkt of
        Inl v \<Rightarrow> counted pkt v
      | Inr l4_off \<Rightarrow>
          if byte (pkt ! 20) \<noteq> 6 then passed pkt
          else case parse_tcp_ports pkt l4_off of
            Inl v \<Rightarrow> counted pkt v
          | Inr (payload_off, sport, dport) \<Rightarrow>
              if bpf_ip6_port_matches env (field_bytes pkt 38 16) dport protoTCP
                 \<or> bpf_ip6_port_matches env (field_bytes pkt 22 16) sport protoTCP
              then counted pkt (XDP_DROP, STAT_IP_PORT_BLOCKED)
              else if dport = 80 then TailCall 8
              else if dport = 443 then TailCall 9
              else passed pkt)"

definition xdp_udp6 :: "bpf_env \<Rightarrow> bytes \<Rightarrow> prog_end" where
  "xdp_udp6 env pkt =
     (if length pkt < 14 then counted pkt (XDP_PASS, STAT_MALFORMED)
      else case validate_ipv6 env pkt of
        Inl v \<Rightarrow> counted pkt v
      | Inr l4_off \<Rightarrow>
          if byte (pkt ! 20) \<noteq> 17 then passed pkt
          else case parse_udp_ports pkt l4_off of
            Inl v \<Rightarrow> counted pkt v
          | Inr (sport, dport) \<Rightarrow>
              if bpf_ip6_port_matches env (field_bytes pkt 38 16) dport protoUDP
                 \<or> bpf_ip6_port_matches env (field_bytes pkt 22 16) sport protoUDP
              then counted pkt (XDP_DROP, STAT_IP_PORT_BLOCKED)
              else if dport = 53 then TailCall 11
              else passed pkt)"

definition xdp_http4 :: "bpf_env \<Rightarrow> bytes \<Rightarrow> prog_end" where
  "xdp_http4 env pkt =
     (case tcp4_payload_for_port pkt 80 of Inl v \<Rightarrow> counted pkt v | Inr off \<Rightarrow> run_http_rule env pkt off)"

definition xdp_tls4 :: "bpf_env \<Rightarrow> bytes \<Rightarrow> prog_end" where
  "xdp_tls4 env pkt =
     (case tcp4_payload_for_port pkt 443 of Inl v \<Rightarrow> counted pkt v | Inr off \<Rightarrow> run_tls_rule env pkt off)"

definition xdp_http6 :: "bpf_env \<Rightarrow> bytes \<Rightarrow> prog_end" where
  "xdp_http6 env pkt =
     (case tcp6_payload_for_port pkt 80 of Inl v \<Rightarrow> counted pkt v | Inr off \<Rightarrow> run_http_rule env pkt off)"

definition xdp_tls6 :: "bpf_env \<Rightarrow> bytes \<Rightarrow> prog_end" where
  "xdp_tls6 env pkt =
     (case tcp6_payload_for_port pkt 443 of Inl v \<Rightarrow> counted pkt v | Inr off \<Rightarrow> run_tls_rule env pkt off)"

definition xdp_dns4 :: "bpf_env \<Rightarrow> bytes \<Rightarrow> prog_end" where
  "xdp_dns4 env pkt =
     (if length pkt < 14 then counted pkt (XDP_PASS, STAT_MALFORMED)
      else case validate_ipv4 env pkt of
        Inl v \<Rightarrow> counted pkt v
      | Inr l4_off \<Rightarrow>
          if byte (pkt ! 23) \<noteq> 17 then passed pkt
          else case parse_udp_ports pkt l4_off of
            Inl v \<Rightarrow> counted pkt v
          | Inr (sport, dport) \<Rightarrow>
              if dport \<noteq> 53 then passed pkt else Finish (check_dns_v4 env pkt l4_off (l4_off + 8)))"

definition xdp_dns6 :: "bpf_env \<Rightarrow> bytes \<Rightarrow> prog_end" where
  "xdp_dns6 env pkt =
     (if length pkt < 14 then counted pkt (XDP_PASS, STAT_MALFORMED)
      else case validate_ipv6 env pkt of
        Inl v \<Rightarrow> counted pkt v
      | Inr l4_off \<Rightarrow>
          if byte (pkt ! 20) \<noteq> 17 then passed pkt
          else case parse_udp_ports pkt l4_off of
            Inl v \<Rightarrow> counted pkt v
          | Inr (sport, dport) \<Rightarrow>
              if dport \<noteq> 53 then passed pkt else Finish (check_dns_v6 env pkt l4_off (l4_off + 8)))"

primrec run_prog :: "bpf_env \<Rightarrow> bpf_prog \<Rightarrow> bytes \<Rightarrow> prog_end" where
  "run_prog env P_IPv4 = xdp_ipv4 env"
| "run_prog env P_IPv6 = xdp_ipv6 env"
| "run_prog env P_TCP4 = xdp_tcp4 env"
| "run_prog env P_UDP4 = xdp_udp4 env"
| "run_prog env P_TCP6 = xdp_tcp6 env"
| "run_prog env P_UDP6 = xdp_udp6 env"
| "run_prog env P_HTTP4 = xdp_http4 env"
| "run_prog env P_TLS4 = xdp_tls4 env"
| "run_prog env P_HTTP6 = xdp_http6 env"
| "run_prog env P_TLS6 = xdp_tls6 env"
| "run_prog env P_DNS4 = xdp_dns4 env"
| "run_prog env P_DNS6 = xdp_dns6 env"

text \<open>The machine allows 33 tail calls in a row; the next one fails.\<close>

primrec exec :: "bpf_env \<Rightarrow> nat \<Rightarrow> prog_end \<Rightarrow> bytes \<Rightarrow> verdict" where
  "exec env 0 r pkt = (case r of Finish v \<Rightarrow> v | TailCall i \<Rightarrow> (XDP_PASS, [STAT_PASSED], pkt))"
| "exec env (Suc n) r pkt =
     (case r of
        Finish v \<Rightarrow> v
      | TailCall i \<Rightarrow>
          (case dispatch_rules env i of
             None \<Rightarrow> (XDP_PASS, [STAT_PASSED], pkt)
           | Some p \<Rightarrow> exec env n (run_prog env p pkt) pkt))"

definition xdp_entry :: "bytes \<Rightarrow> prog_end" where
  "xdp_entry pkt =
     (if length pkt < 14 then counted pkt (XDP_PASS, STAT_MALFORMED)
      else if field16 pkt 12 = 0x0800 then TailCall 0
      else if field16 pkt 12 = 0x86DD then TailCall 1
      else passed pkt)"

definition xdp_filter :: "bpf_env \<Rightarrow> bytes \<Rightarrow> verdict" where
  "xdp_filter env pkt =
     (case exec env 33 (xdp_entry pkt) pkt of (action, stats, pkt') \<Rightarrow> (action, STAT_TOTAL # stats, pkt'))"

end
