(* ===== verification/Xdp_Properties.thy ===== *)
theory Xdp_Properties
  imports Xdp
begin

text \<open>
  Properties of the XDP loader: what the rules it writes to the eBPF maps match in the kernel, the
  table of tail calls, and that no kernel object is leaked. The laws of the eBPF library that they
  rely on are stated as predicates on the library (\<open>bpf_maps\<close>, \<open>bpf_dispatch\<close>, \<open>bpf_objects\<close>), and
  hold of the example kernel at the end of the theory. The lookups of the kernel side are those of
  \<open>bpf/filter.bpf.c\<close>; map keys are read as the memory of the structs on x86-64, the platform of the
  filter.
\<close>

unbundle bit_operations_syntax

section \<open>Laws of the eBPF library\<close>

text \<open>Hash maps and tries: an update that succeeds sets one entry, one that fails changes nothing.\<close>

definition bpf_maps :: "'w ebpf_lib \<Rightarrow> ('w \<Rightarrow> nat \<Rightarrow> mapKey \<rightharpoonup> 32 word) \<Rightarrow> bool" where
  "bpf_maps lib tbl \<longleftrightarrow>
     (\<forall>m k v w w'. MapPut lib (Some m) k v w = (None, w') \<longrightarrow> tbl w' = (tbl w)(m := (tbl w m)(k \<mapsto> v)))
     \<and> (\<forall>m k v w e w'. MapPut lib (Some m) k v w = (Some e, w') \<longrightarrow> tbl w' = tbl w)
     \<and> (\<forall>m k w. case tbl w m k of
          Some v \<Rightarrow> MapLookup lib (Some m) k w = Inr v
        | None \<Rightarrow> (\<exists>e. MapLookup lib (Some m) k w = Inl e))"

lemma bpf_mapsD:
  assumes "bpf_maps lib tbl"
  shows "MapPut lib (Some m) k v w = (None, w') \<Longrightarrow> tbl w' = (tbl w)(m := (tbl w m)(k \<mapsto> v))"
    and "MapPut lib (Some m) k v w = (Some e, w') \<Longrightarrow> tbl w' = tbl w"
    and "tbl w m k = Some x \<Longrightarrow> MapLookup lib (Some m) k w = Inr x"
    and "tbl w m k = None \<Longrightarrow> \<exists>e. MapLookup lib (Some m) k w = Inl e"
proof -
  from assms show "MapPut lib (Some m) k v w = (None, w') \<Longrightarrow> tbl w' = (tbl w)(m := (tbl w m)(k \<mapsto> v))"
    and "MapPut lib (Some m) k v w = (Some e, w') \<Longrightarrow> tbl w' = tbl w"
    unfolding bpf_maps_def by blast+
  have "case tbl w m k of
      Some v \<Rightarrow> MapLookup lib (Some m) k w = Inr v
    | None \<Rightarrow> (\<exists>e. MapLookup lib (Some m) k w = Inl e)"
    using assms unfolding bpf_maps_def by blast
  then show "tbl w m k = Some x \<Longrightarrow> MapLookup lib (Some m) k w = Inr x"
    and "tbl w m k = None \<Longrightarrow> \<exists>e. MapLookup lib (Some m) k w = Inl e"
    by auto
qed

section \<open>Adding rules\<close>

text \<open>Adding one rule after the other, stopping at the first error.\<close>

fun add_all :: "('r \<Rightarrow> 'w \<Rightarrow> (xdp_error + bytes) \<times> 'w) \<Rightarrow> 'r list \<Rightarrow> 'w \<Rightarrow> 'w option" where
  "add_all add [] w = Some w"
| "add_all add (r # rs) w =
     (case add r w of (Inl e, w') \<Rightarrow> None | (Inr s, w') \<Rightarrow> add_all add rs w')"

text \<open>
  The contract of an operation that adds a rule: a rule has a slot, a map and a key in it, and adding
  it sets this slot and nothing else. Then a slot is set after adding a list of rules exactly when it
  was set before or is the slot of one of them.
\<close>

locale rule_table =
  fixes add :: "'w ebpf_lib \<Rightarrow> XDPFilter \<Rightarrow> 'r \<Rightarrow> 'w \<Rightarrow> (xdp_error + bytes) \<times> 'w"
    and slot :: "XDPFilter \<Rightarrow> 'r \<Rightarrow> (nat \<times> mapKey) option"
    and ready :: "XDPFilter \<Rightarrow> bool"
  assumes add_sets: "bpf_maps lib tbl \<Longrightarrow> ready f \<Longrightarrow> add lib f r w = (Inr s, w') \<Longrightarrow>
      \<exists>m k. slot f r = Some (m, k) \<and> tbl w' = (tbl w)(m := (tbl w m)(k \<mapsto> 1))"
begin

lemma slots_set:
  assumes "bpf_maps lib tbl" and "ready f"
  shows "add_all (add lib f) rs w = Some w' \<Longrightarrow>
    tbl w' m k \<noteq> None \<longleftrightarrow> tbl w m k \<noteq> None \<or> (\<exists>r \<in> set rs. slot f r = Some (m, k))"
proof (induction rs arbitrary: w)
  case (Cons r rs)
  then obtain s w1 where "add lib f r w = (Inr s, w1)" and rest: "add_all (add lib f) rs w1 = Some w'"
    by (auto split: prod.splits sum.splits)
  then obtain m' k' where "slot f r = Some (m', k')" "tbl w1 = (tbl w)(m' := (tbl w m')(k' \<mapsto> 1))"
    using add_sets [OF assms] by blast
  then show ?case using Cons.IH [OF rest] by auto
qed simp

lemma all_slots:
  assumes "bpf_maps lib tbl" and "ready f"
  shows "add_all (add lib f) rs w = Some w' \<Longrightarrow> r \<in> set rs \<Longrightarrow> slot f r \<noteq> None"
proof (induction rs arbitrary: w)
  case (Cons r' rs)
  then obtain s w1 where "add lib f r' w = (Inr s, w1)" and rest: "add_all (add lib f) rs w1 = Some w'"
    by (auto split: prod.splits sum.splits)
  then have "slot f r' \<noteq> None" using add_sets [OF assms] by blast
  then show ?case using Cons.IH [OF rest] Cons.prems(2) by auto
qed simp

end

section \<open>Address rules\<close>

definition cidr_slot :: "XDPFilter \<Rightarrow> prefix \<Rightarrow> (nat \<times> mapKey) option" where
  "cidr_slot f p =
     (let q = pfx_masked p; n = of_nat (bitsPlusOne q - 1) in
      case pfx_ip q of
        Addr4 x \<Rightarrow> map_option (\<lambda>m. (m, LpmV4 \<lparr>v4_PrefixLen = n, v4_Addr = le_uint32 (As4 x)\<rparr>)) (cidrRules f)
      | Addr6 x z \<Rightarrow> map_option (\<lambda>m. (m, LpmV6 \<lparr>v6_PrefixLen = n, v6_Addr = As16 x\<rparr>)) (cidrV6Rules f)
      | AddrZero \<Rightarrow> None)"

definition cidr_ready :: "XDPFilter \<Rightarrow> bool" where
  "cidr_ready f \<longleftrightarrow> cidrRules f \<noteq> None \<and> cidrV6Rules f \<noteq> None"

interpretation cidr: rule_table AddCIDR cidr_slot cidr_ready
proof
  fix lib :: "'w ebpf_lib" and tbl f r w s w'
  assume b: "bpf_maps lib tbl" and r: "cidr_ready f" and a: "AddCIDR lib f r w = (Inr s, w')"
  from r obtain m4 m6 where m: "cidrRules f = Some m4" "cidrV6Rules f = Some m6"
    by (auto simp: cidr_ready_def)
  have n: "of_int (int x - 1) = (of_nat (x - 1) :: 32 word)" if "0 \<le> int x - 1" for x
    using that by (cases x) auto
  show "\<exists>m k. cidr_slot f r = Some (m, k) \<and> tbl w' = (tbl w)(m := (tbl w m)(k \<mapsto> 1))"
    using a m n bpf_mapsD(1) [OF b]
    by (auto simp: AddCIDR_def cidr_slot_def ipv4MapUint32_def Prefix_Bits_def Let_def
        split: addr.splits sum.splits prod.splits option.splits if_splits)
qed

text \<open>
  The lookup of the kernel in a trie of prefixes: an entry whose leading bits, from the first byte of
  the stored address on, are those of the address of the packet. The stored address is the memory of
  the key: a 32-bit number has its low byte first.
\<close>

definition same_leading :: "nat \<Rightarrow> bytes \<Rightarrow> bytes \<Rightarrow> bool" where
  "same_leading n bs cs \<longleftrightarrow>
     n \<le> 8 * length cs \<and> length bs = length cs
     \<and> be_val bs div 2 ^ (8 * length cs - n) = be_val cs div 2 ^ (8 * length cs - n)"

definition le_memory :: "32 word \<Rightarrow> bytes" where
  "le_memory x = rev (As4 x)"

definition ip_matches_cidr :: "(nat \<Rightarrow> mapKey \<rightharpoonup> 32 word) \<Rightarrow> XDPFilter \<Rightarrow> addr \<Rightarrow> bool" where
  "ip_matches_cidr t f a =
     (case a of
        Addr4 x \<Rightarrow> (\<exists>m key. cidrRules f = Some m \<and> t m (LpmV4 key) \<noteq> None
                      \<and> same_leading (unat (v4_PrefixLen key)) (le_memory (v4_Addr key)) (As4 x))
      | Addr6 x z \<Rightarrow> (\<exists>m key. cidrV6Rules f = Some m \<and> t m (LpmV6 key) \<noteq> None
                      \<and> same_leading (unat (v6_PrefixLen key)) (v6_Addr key) (As16 x))
      | AddrZero \<Rightarrow> False)"

lemma be_val_As [simp]: "be_val (As4 x) = uint x" "be_val (As16 y) = uint y"
proof -
  have "uint x mod 256 ^ 4 = uint x" "uint y mod 256 ^ 16 = uint y"
    using uint_lt2p [of x] uint_lt2p [of y] by simp_all
  then show "be_val (As4 x) = uint x" "be_val (As16 y) = uint y"
    unfolding As4_def As16_def by (simp_all only: be_val_be_bytes)
qed

lemma le_memory_le_uint32: "length bs = 4 \<Longrightarrow> le_memory (le_uint32 bs) = bs"
proof -
  assume l: "length bs = 4"
  then have "uint (le_uint32 bs) = be_val (rev bs)"
    using be_val_bounds [of "rev bs"] by (simp add: le_uint32_def uint_word_of_int)
  then show ?thesis
    using be_bytes_be_val [of "rev bs"] l by (simp add: le_memory_def As4_def)
qed

lemma pfx_masked_cases:
  obtains "pfx_masked p = PrefixZero"
  | net b where "b \<le> BitLen net" "net \<noteq> AddrZero" "\<not> hasZone net" "pfx_masked p = PrefixFrom net b"
      "\<forall>a. pfx_contains p a \<longleftrightarrow> pfx_contains (pfx_masked p) a"
proof (cases "pfx_masked p = PrefixZero")
  case False
  let ?b = "bitsPlusOne p - 1" and ?net = "withoutZone (pfx_ip p)"
  have b: "bitsPlusOne p \<noteq> 0" "?b \<le> BitLen ?net" "?net \<noteq> AddrZero"
    using False by (auto simp: pfx_masked_def Let_def withoutZone_def BitLen_def split: addr.splits if_splits)
  have m: "pfx_masked p = pfx_masked (PrefixFrom ?net ?b)" and c: "pfx_contains p a \<longleftrightarrow> pfx_contains (PrefixFrom ?net ?b) a" for a
    using b
    by (auto simp: pfx_masked_def pfx_contains_def PrefixFrom_def withoutZone_def BitLen_def Let_def split: addr.splits)
  have "pfx_contains p a \<longleftrightarrow> pfx_contains (pfx_masked p) a" for a
    unfolding m c pfx_contains_masked [OF b(2,3)] pfx_contains_PrefixFrom [OF b(2)] ..
  moreover obtain net where "pfx_masked p = PrefixFrom net ?b" "?b \<le> BitLen net" "net \<noteq> AddrZero" "\<not> hasZone net"
  proof (cases "pfx_ip p")
    case (Addr4 w)
    then show ?thesis using that [of "Addr4 (w AND NOT (mask (32 - ?b)))"] False b
      by (auto simp: pfx_masked_def BitLen_def withoutZone_def Let_def split: if_splits)
  next
    case (Addr6 w z)
    then show ?thesis using that [of "Addr6 (w AND NOT (mask (128 - ?b))) []"] False b
      by (auto simp: pfx_masked_def BitLen_def withoutZone_def PrefixFrom_def Let_def split: if_splits)
  qed (use b in \<open>simp add: withoutZone_def\<close>)
  ultimately show ?thesis using that(2) by blast
qed (rule that)

text \<open>The slot of a prefix is hit by exactly the addresses in the prefix.\<close>

definition slot_hit :: "XDPFilter \<Rightarrow> nat \<times> mapKey \<Rightarrow> addr \<Rightarrow> bool" where
  "slot_hit f mk a =
     (case (mk, a) of
        ((m, LpmV4 key), Addr4 x) \<Rightarrow> cidrRules f = Some m
          \<and> same_leading (unat (v4_PrefixLen key)) (le_memory (v4_Addr key)) (As4 x)
      | ((m, LpmV6 key), Addr6 x z) \<Rightarrow> cidrV6Rules f = Some m
          \<and> same_leading (unat (v6_PrefixLen key)) (v6_Addr key) (As16 x)
      | _ \<Rightarrow> False)"

lemma ip_matches_cidr_slot:
  "ip_matches_cidr t f a \<longleftrightarrow> (\<exists>m k. t m k \<noteq> None \<and> slot_hit f (m, k) a)"
proof -
  have keys: "(\<exists>k. P k) \<longleftrightarrow> (\<exists>n. P (DomainKey n)) \<or> (\<exists>k. P (LpmV4 k)) \<or> (\<exists>k. P (LpmV6 k))
      \<or> (\<exists>k. P (IPPortV4 k)) \<or> (\<exists>k. P (IPPortV6 k))" for P
    by (metis mapKey.exhaust)
  show ?thesis unfolding ip_matches_cidr_def slot_hit_def keys by (cases a) auto
qed

lemma cidr_slot_hit:
  assumes "cidr_slot f p = Some mk" and "\<not> hasZone a"
  shows "slot_hit f mk a \<longleftrightarrow> pfx_contains p a"
proof (cases p rule: pfx_masked_cases)
  case 1
  then show ?thesis using assms(1) by (simp add: cidr_slot_def PrefixZero_def)
next
  case (2 net b)
  have "unat (of_nat b :: 32 word) = b"
    using 2(1) by (cases net) (simp_all add: BitLen_def unat_of_nat)
  then have "slot_hit f mk a \<longleftrightarrow> in_cidr net b a"
    using assms 2(1-4)
    by (cases net; cases a)
       (auto simp: cidr_slot_def slot_hit_def in_cidr_def PrefixFrom_def BitLen_def withoutZone_def
          same_leading_def le_memory_le_uint32)
  then show ?thesis using 2 by (simp add: pfx_contains_PrefixFrom)
qed

lemma cidr_matches:
  assumes "bpf_maps lib tbl" and "cidr_ready f" and "add_all (AddCIDR lib f) ps w = Some w'" and "\<not> hasZone a"
  shows "ip_matches_cidr (tbl w') f a \<longleftrightarrow> ip_matches_cidr (tbl w) f a \<or> (\<exists>p \<in> set ps. pfx_contains p a)"
proof -
  have "ip_matches_cidr (tbl w') f a \<longleftrightarrow>
      ip_matches_cidr (tbl w) f a \<or> (\<exists>p \<in> set ps. \<exists>mk. cidr_slot f p = Some mk \<and> slot_hit f mk a)"
    unfolding ip_matches_cidr_slot cidr.slots_set [OF assms(1-3)] by auto
  moreover have "(\<exists>mk. cidr_slot f p = Some mk \<and> slot_hit f mk a) \<longleftrightarrow> pfx_contains p a" if "p \<in> set ps" for p
    using cidr.all_slots [OF assms(1-3) that] cidr_slot_hit [OF _ assms(4)] by auto
  ultimately show ?thesis by auto
qed

section \<open>Address and port rules\<close>

definition port_slot :: "XDPFilter \<Rightarrow> addr \<times> 16 word \<times> 8 word \<Rightarrow> (nat \<times> mapKey) option" where
  "port_slot f r =
     (case r of (a, port, proto) \<Rightarrow>
        case Unmap a of
          Addr4 x \<Rightarrow> map_option (\<lambda>m. (m, IPPortV4
            \<lparr>p4_Addr = le_uint32 (As4 x), p4_Port = port, p4_Proto = proto, p4_Pad = 0\<rparr>)) (ipPortRules f)
        | Addr6 x z \<Rightarrow> map_option (\<lambda>m. (m, IPPortV6
            \<lparr>p6_Addr = As16 x, p6_Port = port, p6_Proto = proto, p6_Pad = 0\<rparr>)) (ipPortV6Rules f)
        | AddrZero \<Rightarrow> None)"

definition port_ready :: "XDPFilter \<Rightarrow> bool" where
  "port_ready f \<longleftrightarrow> ipPortRules f \<noteq> None \<and> ipPortV6Rules f \<noteq> None"

definition add_port ::
  "'w ebpf_lib \<Rightarrow> XDPFilter \<Rightarrow> addr \<times> 16 word \<times> 8 word \<Rightarrow> 'w \<Rightarrow> (xdp_error + bytes) \<times> 'w" where
  "add_port lib f r w = (case r of (a, port, proto) \<Rightarrow> AddIPPort lib f a port proto w)"

interpretation port: rule_table add_port port_slot port_ready
proof
  fix lib :: "'w ebpf_lib" and tbl f r w s w'
  assume b: "bpf_maps lib tbl" and r: "port_ready f" and a: "add_port lib f r w = (Inr s, w')"
  obtain x port proto where x: "r = (x, port, proto)" by (cases r)
  from r obtain m4 m6 where m: "ipPortRules f = Some m4" "ipPortV6Rules f = Some m6"
    by (auto simp: port_ready_def)
  show "\<exists>m k. port_slot f r = Some (m, k) \<and> tbl w' = (tbl w)(m := (tbl w m)(k \<mapsto> 1))"
    using a m x bpf_mapsD(1) [OF b] Unmap_idem [of x]
    by (auto simp: add_port_def AddIPPort_def port_slot_def ipv4MapUint32_def Let_def simp del: Unmap_idem Unmap_simps
        split: addr.splits sum.splits prod.splits option.splits if_splits)
qed

text \<open>The lookup of the kernel: the key holds the address as it is in the packet.\<close>

definition ip_port_matches ::
  "(nat \<Rightarrow> mapKey \<rightharpoonup> 32 word) \<Rightarrow> XDPFilter \<Rightarrow> addr \<Rightarrow> 16 word \<Rightarrow> 8 word \<Rightarrow> bool" where
  "ip_port_matches t f a port proto =
     (case a of
        Addr4 x \<Rightarrow> (\<exists>m key. ipPortRules f = Some m \<and> t m (IPPortV4 key) \<noteq> None \<and> le_memory (p4_Addr key) = As4 x
                      \<and> p4_Port key = port \<and> p4_Proto key = proto \<and> p4_Pad key = 0)
      | Addr6 x z \<Rightarrow> (\<exists>m key. ipPortV6Rules f = Some m \<and> t m (IPPortV6 key) \<noteq> None \<and> p6_Addr key = As16 x
                      \<and> p6_Port key = port \<and> p6_Proto key = proto \<and> p6_Pad key = 0)
      | AddrZero \<Rightarrow> False)"

lemma As_inject [simp]: "As4 x = As4 y \<longleftrightarrow> x = y" "As16 v = As16 u \<longleftrightarrow> v = u"
  by (metis AddrFromSlice_As4 addr.inject(1) option.inject, metis AddrFromSlice_As16 addr.inject(2) option.inject)

lemma le_memory_inject: "le_memory x = le_memory y \<longleftrightarrow> x = y"
  by (simp add: le_memory_def)

definition port_hit_slot :: "XDPFilter \<Rightarrow> nat \<times> mapKey \<Rightarrow> addr \<Rightarrow> 16 word \<Rightarrow> 8 word \<Rightarrow> bool" where
  "port_hit_slot f mk a port proto =
     (case a of
        Addr4 x \<Rightarrow> ipPortRules f = Some (fst mk)
          \<and> snd mk = IPPortV4 \<lparr>p4_Addr = le_uint32 (As4 x), p4_Port = port, p4_Proto = proto, p4_Pad = 0\<rparr>
      | Addr6 x z \<Rightarrow> ipPortV6Rules f = Some (fst mk)
          \<and> snd mk = IPPortV6 \<lparr>p6_Addr = As16 x, p6_Port = port, p6_Proto = proto, p6_Pad = 0\<rparr>
      | AddrZero \<Rightarrow> False)"

lemma ip_port_matches_slot:
  "ip_port_matches t f a port proto \<longleftrightarrow> (\<exists>m k. t m k \<noteq> None \<and> port_hit_slot f (m, k) a port proto)"
proof (cases a)
  case (Addr4 x)
  have "le_memory y = As4 x \<longleftrightarrow> y = le_uint32 (As4 x)" for y
    using le_memory_le_uint32 [of "As4 x"] le_memory_inject [of y "le_uint32 (As4 x)"] by auto
  then have "le_memory (p4_Addr key) = As4 x \<and> p4_Port key = port \<and> p4_Proto key = proto \<and> p4_Pad key = 0
      \<longleftrightarrow> key = \<lparr>p4_Addr = le_uint32 (As4 x), p4_Port = port, p4_Proto = proto, p4_Pad = 0\<rparr>" for key :: ipPortKey
    by (cases key) simp
  then show ?thesis using Addr4 by (auto simp: ip_port_matches_def port_hit_slot_def)
next
  case (Addr6 x z)
  have "p6_Addr key = As16 x \<and> p6_Port key = port \<and> p6_Proto key = proto \<and> p6_Pad key = 0
      \<longleftrightarrow> key = \<lparr>p6_Addr = As16 x, p6_Port = port, p6_Proto = proto, p6_Pad = 0\<rparr>" for key :: ipPortV6Key
    by (cases key) simp
  then show ?thesis using Addr6 by (auto simp: ip_port_matches_def port_hit_slot_def)
qed (simp add: ip_port_matches_def port_hit_slot_def)

lemma port_slot_hit:
  assumes "port_slot f (a', port', proto') = Some mk" and "\<not> hasZone a"
  shows "port_hit_slot f mk a port proto \<longleftrightarrow> a = withoutZone (Unmap a') \<and> port = port' \<and> proto = proto'"
proof -
  have inj: "le_uint32 (As4 x) = le_uint32 (As4 y) \<longleftrightarrow> x = y" for x y
    by (metis As_inject(1) le_memory_le_uint32 length_As(1))
  show ?thesis
    using assms
    by (cases "Unmap a'"; cases a) (auto simp: port_slot_def port_hit_slot_def withoutZone_def inj simp del: Unmap_simps)
qed

lemma port_matches:
  assumes "bpf_maps lib tbl" and "port_ready f" and "add_all (add_port lib f) rs w = Some w'" and "\<not> hasZone a"
  shows "ip_port_matches (tbl w') f a port proto \<longleftrightarrow> ip_port_matches (tbl w) f a port proto
    \<or> (\<exists>a'. (a', port, proto) \<in> set rs \<and> a = withoutZone (Unmap a'))"
proof -
  have "ip_port_matches (tbl w') f a port proto \<longleftrightarrow> ip_port_matches (tbl w) f a port proto
      \<or> (\<exists>r \<in> set rs. \<exists>mk. port_slot f r = Some mk \<and> port_hit_slot f mk a port proto)"
    unfolding ip_port_matches_slot port.slots_set [OF assms(1-3)] by auto
  moreover have "(\<exists>r \<in> set rs. \<exists>mk. port_slot f r = Some mk \<and> port_hit_slot f mk a port proto)
      \<longleftrightarrow> (\<exists>a' q t. (a', q, t) \<in> set rs \<and> (\<exists>mk. port_slot f (a', q, t) = Some mk \<and> port_hit_slot f mk a port proto))"
    by (simp add: Bex_def)
  moreover have "(\<exists>mk. port_slot f (a', q, t) = Some mk \<and> port_hit_slot f mk a port proto)
      \<longleftrightarrow> a = withoutZone (Unmap a') \<and> port = q \<and> proto = t" if "(a', q, t) \<in> set rs" for a' q t
    using port.all_slots [OF assms(1-3) that] port_slot_hit [OF _ assms(4), of f a' q t] by auto
  ultimately show ?thesis by blast
qed

section \<open>Domain rules\<close>

text \<open>
  The lookup of the kernel for a name in a packet: its bytes with ASCII letters in lower case, padded
  with zero bytes, are the key; the value must have the flag of the protocol.
\<close>

definition pad_name :: "bytes \<Rightarrow> bytes" where
  "pad_name n = n @ replicate (maxDomainLen - length n) (CHR 0x00)"

definition domain_matches :: "(nat \<Rightarrow> mapKey \<rightharpoonup> 32 word) \<Rightarrow> XDPFilter \<Rightarrow> bytes \<Rightarrow> 32 word \<Rightarrow> bool" where
  "domain_matches t f name action \<longleftrightarrow>
     name \<noteq> [] \<and> length name < maxDomainLen
     \<and> (\<exists>m rule. domainRules f = Some m \<and> t m (DomainKey (pad_name (map ascii_lower name))) = Some rule
          \<and> rule AND action \<noteq> 0)"

definition add_domain :: "'w ebpf_lib \<Rightarrow> XDPFilter \<Rightarrow> bytes \<times> 32 word \<Rightarrow> 'w \<Rightarrow> (xdp_error + bytes) \<times> 'w" where
  "add_domain lib f r w = (case r of (d, flags) \<Rightarrow> AddDomainRule lib f d flags w)"

text \<open>The file has its own copy of \<open>normalizeDomain\<close>, which agrees with the one of the rule compiler.\<close>

lemma xdp_normalizeDomain_eq: "xdp_normalizeDomain = normalizeDomain"
  by (rule ext) (simp add: xdp_normalizeDomain_def normalizeDomain_def cut_at_def)

lemma makeDomainKey_Inr_iff: "makeDomainKey d = Inr (key, n) \<longleftrightarrow>
    n = normalizeDomain d \<and> key = pad_name n \<and> n \<noteq> [] \<and> length n < maxDomainLen"
  by (auto simp: makeDomainKey_def Let_def pad_name_def xdp_normalizeDomain_eq)

lemma takeWhile_pad_name: "CHR 0x00 \<notin> set n \<Longrightarrow> takeWhile (\<lambda>c. c \<noteq> CHR 0x00) (pad_name n) = n"
  unfolding pad_name_def by (subst takeWhile_append2) auto

lemma pad_name_inject:
  "CHR 0x00 \<notin> set n \<Longrightarrow> CHR 0x00 \<notin> set n' \<Longrightarrow> pad_name n = pad_name n' \<longleftrightarrow> n = n'"
  by (metis takeWhile_pad_name)

lemma or_and_nonzero:
  fixes a b c :: "'a::len word"
  shows "(a OR b) AND c \<noteq> 0 \<longleftrightarrow> a AND c \<noteq> 0 \<or> b AND c \<noteq> 0"
  by (auto simp: bit_eq_iff bit_simps)

definition flags_at :: "(nat \<Rightarrow> mapKey \<rightharpoonup> 32 word) \<Rightarrow> nat \<Rightarrow> bytes \<Rightarrow> 32 word" where
  "flags_at t m key = (case t m (DomainKey key) of None \<Rightarrow> 0 | Some v \<Rightarrow> v)"

lemma AddDomainRule_flags:
  assumes "bpf_maps lib tbl" and "domainRules f = Some m" and "AddDomainRule lib f d flags w = (Inr n, w')"
  shows "n = normalizeDomain d \<and> n \<noteq> [] \<and> length n < maxDomainLen
    \<and> flags_at (tbl w') m key = flags_at (tbl w) m key OR (if key = pad_name n then flags else 0)"
proof -
  obtain k where k: "makeDomainKey d = Inr (k, n)"
    using assms(3) by (auto simp: AddDomainRule_def Let_def split: sum.splits prod.splits option.splits)
  let ?v = "case MapLookup lib (Some m) (DomainKey k) w of Inr existing \<Rightarrow> flags OR existing | Inl _ \<Rightarrow> flags"
  have "MapPut lib (Some m) (DomainKey k) ?v w = (None, w')"
    using assms(2,3) k by (auto simp: AddDomainRule_def Let_def split: prod.splits option.splits)
  then have "tbl w' = (tbl w)(m := (tbl w m)(DomainKey k \<mapsto> ?v))" by (rule bpf_mapsD(1) [OF assms(1)])
  moreover have "?v = flags_at (tbl w) m k OR flags"
  proof (cases "tbl w m (DomainKey k)")
    case None
    then show ?thesis using bpf_mapsD(4) [OF assms(1) None] by (auto simp: flags_at_def)
  next
    case (Some x)
    then show ?thesis using bpf_mapsD(3) [OF assms(1) Some] by (simp add: flags_at_def or.commute)
  qed
  ultimately show ?thesis using k by (auto simp: flags_at_def makeDomainKey_Inr_iff)
qed

lemma add_domains_flags:
  assumes "bpf_maps lib tbl" and "domainRules f = Some m"
  shows "add_all (add_domain lib f) rs w = Some w' \<Longrightarrow>
    flags_at (tbl w') m key AND action \<noteq> 0 \<longleftrightarrow>
      flags_at (tbl w) m key AND action \<noteq> 0
      \<or> (\<exists>d flags. (d, flags) \<in> set rs \<and> key = pad_name (normalizeDomain d) \<and> flags AND action \<noteq> 0)"
proof (induction rs arbitrary: w)
  case (Cons r rs)
  obtain d flags where r: "r = (d, flags)" by (cases r)
  from Cons.prems obtain n w1 where "add_domain lib f r w = (Inr n, w1)"
    and rest: "add_all (add_domain lib f) rs w1 = Some w'"
    by (auto split: prod.splits sum.splits)
  then have "AddDomainRule lib f d flags w = (Inr n, w1)" by (simp add: r add_domain_def)
  then have "flags_at (tbl w1) m key = flags_at (tbl w) m key OR (if key = pad_name (normalizeDomain d) then flags else 0)"
    using AddDomainRule_flags [OF assms] by blast
  then have "flags_at (tbl w1) m key AND action \<noteq> 0 \<longleftrightarrow>
      flags_at (tbl w) m key AND action \<noteq> 0 \<or> key = pad_name (normalizeDomain d) \<and> flags AND action \<noteq> 0"
    by (simp add: or_and_nonzero)
  then show ?case using Cons.IH [OF rest] r by auto
qed simp

lemma domain_matches_flags: "domainRules f = Some m \<Longrightarrow> domain_matches t f name action \<longleftrightarrow>
    name \<noteq> [] \<and> length name < maxDomainLen \<and> flags_at t m (pad_name (map ascii_lower name)) AND action \<noteq> 0"
  by (auto simp: domain_matches_def flags_at_def split: option.splits)

section \<open>Tail calls\<close>

definition bpf_dispatch :: "'w ebpf_lib \<Rightarrow> ('w \<Rightarrow> nat \<Rightarrow> 32 word \<Rightarrow> nat option) \<Rightarrow> bool" where
  "bpf_dispatch lib progs \<longleftrightarrow>
     (\<forall>d i p w w'. PutProgram lib d i p w = (None, w') \<longrightarrow> progs w' = (progs w)(d := (progs w d)(i := p)))
     \<and> (\<forall>p i flags w. progs (snd (AttachXDP lib p i flags w)) = progs w)"

lemma put_programs_ok:
  assumes "bpf_dispatch lib progs" and "j < 2 ^ 32"
  shows "put_programs lib d i ps w = (None, w') \<Longrightarrow> i + length ps < 2 ^ 32 \<Longrightarrow>
    progs w' d (of_nat j) = (if i \<le> j \<and> j < i + length ps then ps ! (j - i) else progs w d (of_nat j))"
proof (induction ps arbitrary: i w)
  case (Cons p ps)
  then obtain w1 where w1: "PutProgram lib d (of_nat i) p w = (None, w1)"
    and rest: "put_programs lib d (Suc i) ps w1 = (None, w')"
    by (auto split: prod.splits option.splits)
  then have "progs w1 d (of_nat j) = (if of_nat j = (of_nat i :: 32 word) then p else progs w d (of_nat j))"
    using assms(1) by (simp add: bpf_dispatch_def)
  moreover have "of_nat j = (of_nat i :: 32 word) \<longleftrightarrow> j = i"
    using assms(2) Cons.prems(2) by (simp add: word_unat_eq_iff unat_of_nat)
  ultimately show ?case using Cons.IH [OF rest] Cons.prems(2) by (auto simp: nth_Cons')
qed auto

lemma NewXDPFilter_Inr:
  assumes "NewXDPFilter lib bpf iface mode w = (Inr f, w')"
  obtains spec objs w0 w1 w2 d l flags ifindex where
    "RemoveMemlock lib w = (None, w0)" "LoadAndAssign lib spec w0 = (Inr objs, w1)"
    "DispatchRules objs = Some d" "put_programs lib d 0 (dispatch_programs objs) w1 = (None, w2)"
    "AttachXDP lib (Program objs) ifindex flags w2 = (Inr l, w')" "xdpAttachFlags lib mode = Inr flags"
    "f = new_filter objs l iface"
  using assms unfolding NewXDPFilter_def populateDispatchRules_def
  by (auto split: prod.splits option.splits sum.splits if_splits)

section \<open>Kernel objects\<close>

datatype resource = Obj nat | Link nat

text \<open>
  The objects a process holds: loading adds the new objects it assigns, all of them, or nothing if it
  fails; attaching adds a link; closing takes away what it closes; nothing else changes them.
\<close>

definition bpf_objects :: "'w ebpf_lib \<Rightarrow> ('w \<Rightarrow> resource set) \<Rightarrow> bool" where
  "bpf_objects lib held \<longleftrightarrow>
     (\<forall>w. held (snd (RemoveMemlock lib w)) = held w)
     \<and> (\<forall>spec w e w'. LoadAndAssign lib spec w = (Inl e, w') \<longrightarrow> held w' = held w)
     \<and> (\<forall>spec w objs w'. LoadAndAssign lib spec w = (Inr objs, w') \<longrightarrow>
          None \<notin> set (all_objects objs) \<and> held w \<inter> Obj ` the ` set (all_objects objs) = {}
          \<and> held w' = held w \<union> Obj ` the ` set (all_objects objs))
     \<and> (\<forall>d i p w. held (snd (PutProgram lib d i p w)) = held w)
     \<and> (\<forall>p i flags w e w'. AttachXDP lib p i flags w = (Inl e, w') \<longrightarrow> held w' = held w)
     \<and> (\<forall>p i flags w l w'. AttachXDP lib p i flags w = (Inr l, w') \<longrightarrow>
          Link l \<notin> held w \<and> held w' = insert (Link l) (held w))
     \<and> (\<forall>l w. held (snd (CloseLink lib l w)) = held w - {Link l})
     \<and> (\<forall>x w. held (snd (CloseObj lib (Some x) w)) = held w - {Obj x})"

lemma bpf_objectsD:
  assumes "bpf_objects lib held"
  shows "held (snd (RemoveMemlock lib w)) = held w"
    and "LoadAndAssign lib spec w = (Inl e, w') \<Longrightarrow> held w' = held w"
    and "LoadAndAssign lib spec w = (Inr objs, w') \<Longrightarrow>
      None \<notin> set (all_objects objs) \<and> held w \<inter> Obj ` the ` set (all_objects objs) = {}
      \<and> held w' = held w \<union> Obj ` the ` set (all_objects objs)"
    and "held (snd (PutProgram lib d i p w)) = held w"
    and "AttachXDP lib q j flags w = (Inl e, w') \<Longrightarrow> held w' = held w"
    and "AttachXDP lib q j flags w = (Inr l, w') \<Longrightarrow> Link l \<notin> held w \<and> held w' = insert (Link l) (held w)"
    and "held (snd (CloseLink lib l w)) = held w - {Link l}"
    and "held (snd (CloseObj lib (Some x) w)) = held w - {Obj x}"
proof -
  note laws = assms [unfolded bpf_objects_def]
  note rest = laws [THEN conjunct2]
  note rest4 = rest [THEN conjunct2, THEN conjunct2, THEN conjunct2]
  show "held (snd (RemoveMemlock lib w)) = held w" "held (snd (PutProgram lib d i p w)) = held w"
    "held (snd (CloseLink lib l w)) = held w - {Link l}" "held (snd (CloseObj lib (Some x) w)) = held w - {Obj x}"
    using laws by simp_all
  show "LoadAndAssign lib spec w = (Inl e, w') \<Longrightarrow> held w' = held w"
    by (rule rest [THEN conjunct1, rule_format])
  show "LoadAndAssign lib spec w = (Inr objs, w') \<Longrightarrow>
      None \<notin> set (all_objects objs) \<and> held w \<inter> Obj ` the ` set (all_objects objs) = {}
      \<and> held w' = held w \<union> Obj ` the ` set (all_objects objs)"
    by (rule rest [THEN conjunct2, THEN conjunct1, rule_format])
  show "AttachXDP lib q j flags w = (Inl e, w') \<Longrightarrow> held w' = held w"
    by (rule rest4 [THEN conjunct1, rule_format])
  show "AttachXDP lib q j flags w = (Inr l, w') \<Longrightarrow> Link l \<notin> held w \<and> held w' = insert (Link l) (held w)"
    by (rule rest4 [THEN conjunct2, THEN conjunct1, rule_format])
qed

lemma closeObjects_held:
  assumes "bpf_objects lib held"
  shows "None \<notin> set xs \<Longrightarrow> held (closeObjects lib xs w) = held w - Obj ` the ` set xs"
proof (induction xs arbitrary: w)
  case (Cons x xs)
  then obtain h where "x = Some h" by (cases x) auto
  then show ?case using Cons bpf_objectsD(8) [OF assms] by auto
qed simp

lemma put_programs_held:
  assumes "bpf_objects lib held"
  shows "held (snd (put_programs lib d i ps w)) = held w"
proof (induction ps arbitrary: i w)
  case (Cons p ps)
  then show ?case using bpf_objectsD(4) [OF assms, of d "of_nat i" p w] by (auto split: prod.splits option.splits)
qed simp

lemma populateDispatchRules_held:
  "bpf_objects lib held \<Longrightarrow> held (snd (populateDispatchRules lib d ps w)) = held w"
  by (auto simp: populateDispatchRules_def put_programs_held split: option.splits)

lemma loaded_then_closed:
  assumes "bpf_objects lib held" and "LoadAndAssign lib spec w = (Inr objs, w1)" and "held w2 = held w1"
  shows "held (closeObjects lib (all_objects objs) w2) = held w"
  using bpf_objectsD(3) [OF assms(1,2)] closeObjects_held [OF assms(1)] assms(3) by auto

lemma XDPFilter_Close_new_filter:
  "XDPFilter_Close lib (new_filter objs l iface) w = closeObjects lib (all_objects objs) (snd (CloseLink lib l w))"
  by (simp add: XDPFilter_Close_def new_filter_def all_objects_def)

lemma NewXDPFilter_fails_held:
  assumes b: "bpf_objects lib held" and "NewXDPFilter lib bpf iface mode w = (Inl e, w')"
  shows "held w' = held w"
proof (cases "RemoveMemlock lib w")
  case (Pair e0 w0)
  then have w0: "held w0 = held w" using bpf_objectsD(1) [OF b, of w] by simp
  have close: "held (closeObjects lib (all_objects objs) w2) = held w"
    if "LoadAndAssign lib spec w0 = (Inr objs, w1)" "held w2 = held w1" for spec objs w1 w2
    using loaded_then_closed [OF b that] w0 by simp
  have populate: "held w2 = held w1" if "populateDispatchRules lib d ps w1 = (x, w2)" for d ps w1 x w2
    using populateDispatchRules_held [OF b, of d ps w1] that by simp
  show ?thesis
    using assms(2) Pair w0 bpf_objectsD(2) [OF b]
    by (auto simp: NewXDPFilter_def split: prod.splits option.splits sum.splits
        elim!: close dest!: populate bpf_objectsD(5) [OF b])
qed

lemma NewXDPFilter_Close_held:
  assumes b: "bpf_objects lib held" and "NewXDPFilter lib bpf iface mode w = (Inr f, w')" and "held w'' = held w'"
  shows "held (XDPFilter_Close lib f w'') = held w"
proof -
  obtain spec objs w0 w1 w2 d l flags ifindex where n:
    "RemoveMemlock lib w = (None, w0)" "LoadAndAssign lib spec w0 = (Inr objs, w1)"
    "DispatchRules objs = Some d" "put_programs lib d 0 (dispatch_programs objs) w1 = (None, w2)"
    "AttachXDP lib (Program objs) ifindex flags w2 = (Inr l, w')" "f = new_filter objs l iface"
    using NewXDPFilter_Inr [OF assms(2)] by metis
  have w0: "held w0 = held w" using bpf_objectsD(1) [OF b, of w] n(1) by simp
  have w2: "held w2 = held w1" using put_programs_held [OF b, of d 0 "dispatch_programs objs" w1] n(4) by simp
  have "held (snd (CloseLink lib l w'')) = held w1"
    using bpf_objectsD(6) [OF b n(5)] bpf_objectsD(7) [OF b, of l w''] assms(3) w2 by auto
  from loaded_then_closed [OF b n(2) this] show ?thesis
    unfolding n(6) XDPFilter_Close_new_filter w0 .
qed

section \<open>Reading the statistics\<close>

lemma stats_loop_Inr:
  "distinct names \<Longrightarrow> stats_loop lib m i names result w = Inr r \<Longrightarrow>
    dom r = dom result \<union> set names \<and> (\<forall>name. name \<notin> set names \<longrightarrow> r name = result name)
    \<and> (\<forall>j < length names. StatLookup lib m (of_nat (i + j)) w = Inr (the (r (names ! j))))"
proof (induction names arbitrary: i result)
  case (Cons name names)
  then obtain v where v: "StatLookup lib m (of_nat i) w = Inr v"
    and rest: "stats_loop lib m (Suc i) names (result(name \<mapsto> v)) w = Inr r"
    by (auto split: sum.splits)
  note IH = Cons.IH [OF _ rest]
  have "r name = Some v" using IH Cons.prems(1) by simp
  then have "StatLookup lib m (of_nat (i + j)) w = Inr (the (r ((name # names) ! j)))" if "j < length (name # names)" for j
    using that v IH Cons.prems(1) by (cases j) auto
  moreover have "dom r = dom result \<union> set (name # names)" "n \<notin> set (name # names) \<Longrightarrow> r n = result n" for n
    using IH Cons.prems(1) by auto
  ultimately show ?case by blast
qed simp

lemma stats_loop_Inl:
  "stats_loop lib m i names result w = Inl e \<Longrightarrow>
    \<exists>j err. j < length names \<and> StatLookup lib m (of_nat (i + j)) w = Inl err \<and> e = LookupStatError (names ! j) err"
proof (induction names arbitrary: i result)
  case (Cons name names)
  show ?case
  proof (cases "StatLookup lib m (of_nat i) w")
    case (Inl err)
    then show ?thesis using Cons.prems by (intro exI [of _ 0]) auto
  next
    case (Inr v)
    then obtain j err where "j < length names" "StatLookup lib m (of_nat (Suc i + j)) w = Inl err"
      "e = LookupStatError (names ! j) err"
      using Cons.IH [of "Suc i"] Cons.prems by fastforce
    then show ?thesis by (intro exI [of _ "Suc j"]) auto
  qed
qed simp

section \<open>An example kernel\<close>

record sim_kernel =
  k_tbl :: "nat \<Rightarrow> mapKey \<rightharpoonup> 32 word"
  k_progs :: "nat \<Rightarrow> 32 word \<Rightarrow> nat option"
  k_held :: "resource set"

definition sim_objects :: xdp_objects where
  "sim_objects =
     \<lparr>Program = Some 0, IPv4Program = Some 1, IPv6Program = Some 2, TCP4Program = Some 3, UDP4Program = Some 4,
      TCP6Program = Some 5, UDP6Program = Some 6, HTTP4Program = Some 7, TLS4Program = Some 8, HTTP6Program = Some 9,
      TLS6Program = Some 10, DNS4Program = Some 11, DNS6Program = Some 12, DispatchRules = Some 13,
      ScratchDomain = Some 14, DomainRules = Some 15, CidrRules = Some 16, CidrV6Rules = Some 17,
      IPPortRules = Some 18, IPPortV6Rules = Some 19, StatsMap = Some 20\<rparr>"

definition sim_bpf :: "sim_kernel ebpf_lib" where
  "sim_bpf =
     \<lparr>RemoveMemlock = (\<lambda>w. (None, w)),
      LoadCollectionSpec = (\<lambda>bs. if bs = [] then Inl ''EOF'' else Inr 0),
      LoadAndAssign = (\<lambda>spec w. if k_held w = {} then
         (Inr sim_objects, w\<lparr>k_held := Obj ` the ` set (all_objects sim_objects)\<rparr>) else (Inl ''busy'', w)),
      InterfaceByName = (\<lambda>name w. if name = ''eth0'' then Inr 2 else Inl ''no such interface''),
      XDPGenericMode = 2, XDPDriverMode = 4,
      AttachXDP = (\<lambda>p i flags w. if flags = 4 \<or> Link 7 \<in> k_held w then (Inl ''not supported'', w)
         else (Inr 7, w\<lparr>k_held := insert (Link 7) (k_held w)\<rparr>)),
      CloseLink = (\<lambda>l w. (None, w\<lparr>k_held := k_held w - {Link l}\<rparr>)),
      CloseObj = (\<lambda>x w. case x of None \<Rightarrow> (None, w) | Some h \<Rightarrow> (None, w\<lparr>k_held := k_held w - {Obj h}\<rparr>)),
      PutProgram = (\<lambda>d i p w. (None, w\<lparr>k_progs := (k_progs w)(d := (k_progs w d)(i := p))\<rparr>)),
      MapPut = (\<lambda>m k v w. case m of None \<Rightarrow> (Some ''nil map'', w)
         | Some h \<Rightarrow> (None, w\<lparr>k_tbl := (k_tbl w)(h := (k_tbl w h)(k \<mapsto> v))\<rparr>)),
      MapLookup = (\<lambda>m k w. case m of None \<Rightarrow> Inl ''nil map''
         | Some h \<Rightarrow> (case k_tbl w h k of None \<Rightarrow> Inl ''key does not exist'' | Some v \<Rightarrow> Inr v)),
      StatLookup = (\<lambda>m i w. Inr (10 * ucast i))\<rparr>"

definition sim_start :: sim_kernel where
  "sim_start = \<lparr>k_tbl = (\<lambda>_ _. None), k_progs = (\<lambda>_ _. None), k_held = {}\<rparr>"

definition sim_filter :: XDPFilter where
  "sim_filter = new_filter sim_objects 7 ''eth0''"

lemma sim_bpf_maps: "bpf_maps sim_bpf k_tbl"
  unfolding bpf_maps_def by (auto simp: sim_bpf_def split: option.splits)

lemma sim_bpf_dispatch: "bpf_dispatch sim_bpf k_progs"
  unfolding bpf_dispatch_def by (auto simp: sim_bpf_def split: if_splits)

lemma sim_bpf_objects: "bpf_objects sim_bpf k_held"
  unfolding bpf_objects_def by (auto simp: sim_bpf_def all_objects_def sim_objects_def split: if_splits)

lemma sim_New: "\<exists>w'. NewXDPFilter sim_bpf ''ELF'' ''eth0'' '' Generic'' sim_start = (Inr sim_filter, w')"
proof -
  have "xdpAttachFlags sim_bpf '' Generic'' = Inr 2" by code_simp
  then show ?thesis
    by (simp add: NewXDPFilter_def populateDispatchRules_def dispatch_programs_def sim_bpf_def sim_objects_def
        sim_filter_def sim_start_def all_objects_def)
qed

section \<open>Properties\<close>

lemma sim_filter_maps: "cidr_ready sim_filter" "port_ready sim_filter" "domainRules sim_filter = Some 15"
  by (simp_all add: cidr_ready_def port_ready_def sim_filter_def new_filter_def sim_objects_def)

lemma pfx_contains_4_mapped: "Is4 (pfx_ip p) \<Longrightarrow> Unmap a \<noteq> a \<Longrightarrow> \<not> pfx_contains p a"
  by (cases a; cases "pfx_ip p") (auto simp: pfx_contains_def split: if_splits)

text \<open>
  C11: After the prefixes of a rule set were added, the trie lookup of the kernel on the address of a packet
  finds an entry exactly when it did before or when some prefix contains the address; the byte order of the
  keys and the masking are right for every prefix length of both families. So the XDP filter and the
  queue engine agree on every address but the IPv4-mapped IPv6 ones. Those the rule set reads as the IPv4
  address inside, the kernel as they stand: prefixes of IPv4 do not catch them there.
\<close>

theorem xdp_cidr_agrees:
  assumes "bpf_maps lib tbl" and "cidr_ready f" and "add_all (AddCIDR lib f) (Prefixes r) w = Some w'"
    and "\<not> hasZone a"
  shows "(ip_matches_cidr (tbl w') f a \<longleftrightarrow> ip_matches_cidr (tbl w) f a \<or> (\<exists>p \<in> set (Prefixes r). pfx_contains p a))
    \<and> (Unmap a = a \<longrightarrow> (ip_matches_cidr (tbl w') f a \<longleftrightarrow> ip_matches_cidr (tbl w) f a \<or> matchIP r a))
    \<and> (Unmap a \<noteq> a \<and> (\<forall>p \<in> set (Prefixes r). Is4 (pfx_ip p)) \<longrightarrow>
        (ip_matches_cidr (tbl w') f a \<longleftrightarrow> ip_matches_cidr (tbl w) f a))"
  using cidr_matches [OF assms] pfx_contains_4_mapped [of _ a] by (auto simp: matchIP_def list_ex_iff)

definition xdp_rules :: RuleSet where
  "xdp_rules = \<lparr>Domains = {}, DNSPoisonDomains = {},
     Prefixes = [PrefixFrom (Addr4 0x0A010200) 24, PrefixFrom (Addr6 0x20010DB8000000000000000000000000 []) 32],
     IPPorts = {}\<rparr>"

text \<open>The address 10.1.2.99, and the same as an IPv4-mapped IPv6 address.\<close>

definition xdp_rules4 :: RuleSet where
  "xdp_rules4 = xdp_rules\<lparr>Prefixes := [PrefixFrom (Addr4 0x0A010200) 24]\<rparr>"

theorem xdp_cidr_agrees_witness:
  "(\<exists>w'. add_all (AddCIDR sim_bpf sim_filter) (Prefixes xdp_rules) sim_start = Some w'
     \<and> ip_matches_cidr (k_tbl w') sim_filter (Addr4 0x0A010263) \<and> \<not> ip_matches_cidr (k_tbl w') sim_filter (Addr4 0x0A010300))
   \<and> (\<exists>w'. add_all (AddCIDR sim_bpf sim_filter) (Prefixes xdp_rules4) sim_start = Some w'
     \<and> \<not> ip_matches_cidr (k_tbl w') sim_filter (Addr6 0xFFFF0A010263 []) \<and> matchIP xdp_rules4 (Addr6 0xFFFF0A010263 []))"
proof -
  have ok: "add_all (AddCIDR sim_bpf sim_filter) (Prefixes xdp_rules) sim_start \<noteq> None"
    "add_all (AddCIDR sim_bpf sim_filter) (Prefixes xdp_rules4) sim_start \<noteq> None"
    by (simp_all add: xdp_rules_def xdp_rules4_def AddCIDR_def pfx_masked_def PrefixFrom_def BitLen_def withoutZone_def Prefix_Bits_def
        ipv4MapUint32_def sim_bpf_def sim_filter_def new_filter_def sim_objects_def Let_def)
  obtain w1 where w1: "add_all (AddCIDR sim_bpf sim_filter) (Prefixes xdp_rules) sim_start = Some w1" using ok(1) by blast
  obtain w2 where w2: "add_all (AddCIDR sim_bpf sim_filter) (Prefixes xdp_rules4) sim_start = Some w2" using ok(2) by blast
  have empty: "\<not> ip_matches_cidr (k_tbl sim_start) sim_filter a" for a
    by (cases a) (simp_all add: ip_matches_cidr_def sim_start_def)
  have m: "matchIP xdp_rules (Addr4 0x0A010263)" "\<not> matchIP xdp_rules (Addr4 0x0A010300)"
    "matchIP xdp_rules4 (Addr6 0xFFFF0A010263 [])" by code_simp+
  have z: "\<not> hasZone (Addr4 x)" "\<not> hasZone (Addr6 y [])" for x y by simp_all
  have u: "Unmap (Addr6 0xFFFF0A010263 []) \<noteq> Addr6 0xFFFF0A010263 [] \<and> (\<forall>p \<in> set (Prefixes xdp_rules4). Is4 (pfx_ip p))"
    by code_simp
  note agree = xdp_cidr_agrees [OF sim_bpf_maps sim_filter_maps(1) _ z(1), THEN conjunct2, THEN conjunct1, rule_format, OF _ Unmap_simps(2)]
  have "ip_matches_cidr (k_tbl w1) sim_filter (Addr4 0x0A010263)" "\<not> ip_matches_cidr (k_tbl w1) sim_filter (Addr4 0x0A010300)"
    unfolding agree [OF w1] using m(1,2) empty by blast+
  moreover have "\<not> ip_matches_cidr (k_tbl w2) sim_filter (Addr6 0xFFFF0A010263 [])"
    using xdp_cidr_agrees [OF sim_bpf_maps sim_filter_maps(1) w2 z(2)] u empty by blast
  ultimately show ?thesis using w1 w2 m(3) by blast
qed

text \<open>
  C13: Port rules match exactly what was added: after a list of rules was added, the kernel finds the
  endpoint of a packet exactly when it did before or when a rule has its port, its protocol and its
  address, an IPv4-mapped one read as IPv4 and a zone ignored.
\<close>

theorem xdp_ports_exact:
  assumes "bpf_maps lib tbl" and "port_ready f"
    and "add_all (\<lambda>(a, port, proto). AddIPPort lib f a port proto) rules w = Some w'" and "\<not> hasZone a"
  shows "ip_port_matches (tbl w') f a port proto \<longleftrightarrow> ip_port_matches (tbl w) f a port proto
    \<or> (\<exists>a'. (a', port, proto) \<in> set rules \<and> a = withoutZone (Unmap a'))"
proof -
  have "(\<lambda>(a, port, proto). AddIPPort lib f a port proto) = add_port lib f"
    by (auto simp: add_port_def fun_eq_iff)
  then show ?thesis using port_matches [OF assms(1,2) _ assms(4)] assms(3) by simp
qed

definition xdp_ports :: "(addr \<times> 16 word \<times> 8 word) list" where
  "xdp_ports = [(Addr6 0xFFFF08080808 [], 443, protoTCP), (Addr6 1 ''eth0'', 53, protoUDP)]"

theorem xdp_ports_exact_witness:
  "\<exists>w'. add_all (\<lambda>(a, port, proto). AddIPPort sim_bpf sim_filter a port proto) xdp_ports sim_start = Some w'
     \<and> ip_port_matches (k_tbl w') sim_filter (Addr4 0x08080808) 443 protoTCP
     \<and> \<not> ip_port_matches (k_tbl w') sim_filter (Addr4 0x08080808) 53 protoUDP"
proof -
  have "add_all (\<lambda>(a, port, proto). AddIPPort sim_bpf sim_filter a port proto) xdp_ports sim_start \<noteq> None" by code_simp
  then obtain w' where w': "add_all (\<lambda>(a, port, proto). AddIPPort sim_bpf sim_filter a port proto) xdp_ports sim_start = Some w'"
    by blast
  have u: "withoutZone (Unmap (Addr6 0xFFFF08080808 [])) = Addr4 0x08080808" by code_simp
  have "(Addr6 0xFFFF08080808 [], 443, protoTCP) \<in> set xdp_ports" by (simp add: xdp_ports_def)
  moreover have "\<not> ip_port_matches (k_tbl sim_start) sim_filter (Addr4 x) port proto" for x port proto
    by (simp add: ip_port_matches_def sim_start_def)
  moreover have "withoutZone (Unmap (Addr6 1 ''eth0'')) \<noteq> Addr4 0x08080808" "protoTCP \<noteq> protoUDP" by code_simp+
  ultimately show ?thesis
    using xdp_ports_exact [OF sim_bpf_maps sim_filter_maps(2) w', of "Addr4 0x08080808" 443 protoTCP]
      xdp_ports_exact [OF sim_bpf_maps sim_filter_maps(2) w', of "Addr4 0x08080808" 53 protoUDP] w' u
    by (auto simp: xdp_ports_def)
qed

text \<open>
  C12: Domain rules accumulate: after a list of rules was added, the kernel finds a name for a protocol
  exactly when the name is shorter than 64 bytes and it found it before or some rule has this name,
  normalised and without regard to ASCII case, and the flag of the protocol. A later rule for the same
  name never takes away the flags of an earlier one. (Names with zero bytes are left out: padding
  would make them ambiguous.)
\<close>

theorem xdp_domains_accumulate:
  assumes "bpf_maps lib tbl" and "domainRules f = Some m"
    and "add_all (\<lambda>(d, flags). AddDomainRule lib f d flags) rules w = Some w'"
    and "name \<noteq> []" and "CHR 0x00 \<notin> set (map ascii_lower name)"
    and "\<forall>(d, flags) \<in> set rules. CHR 0x00 \<notin> set (normalizeDomain d)"
  shows "domain_matches (tbl w') f name action \<longleftrightarrow> length name < maxDomainLen
    \<and> (domain_matches (tbl w) f name action
       \<or> (\<exists>d flags. (d, flags) \<in> set rules \<and> normalizeDomain d = map ascii_lower name \<and> flags AND action \<noteq> 0))"
proof -
  have a: "(\<lambda>(d, flags). AddDomainRule lib f d flags) = add_domain lib f"
    by (auto simp: add_domain_def fun_eq_iff)
  have "map ascii_lower name = normalizeDomain d \<longleftrightarrow> pad_name (map ascii_lower name) = pad_name (normalizeDomain d)"
    if "(d, flags) \<in> set rules" for d flags
    using pad_name_inject [OF assms(5)] assms(6) that by auto
  then show ?thesis
    using add_domains_flags [OF assms(1,2) assms(3) [unfolded a]] assms(4)
    unfolding domain_matches_flags [OF assms(2)] by fastforce
qed

definition xdp_domains :: "(bytes \<times> 32 word) list" where
  "xdp_domains = [(''https://Example.com/x'', domainTLS), (''other.org'', domainHTTP), (''example.com.'', domainHTTP)]"

theorem xdp_domains_accumulate_witness:
  "\<exists>w'. add_all (\<lambda>(d, flags). AddDomainRule sim_bpf sim_filter d flags) xdp_domains sim_start = Some w'
     \<and> domain_matches (k_tbl w') sim_filter ''EXAMPLE.com'' domainTLS
     \<and> domain_matches (k_tbl w') sim_filter ''example.com'' domainHTTP
     \<and> \<not> domain_matches (k_tbl w') sim_filter ''other.org'' domainTLS"
proof -
  have n: "normalizeDomain ''https://Example.com/x'' = ''example.com''" "normalizeDomain ''example.com.'' = ''example.com''"
    "normalizeDomain ''other.org'' = ''other.org''" by code_simp+
  have l: "map ascii_lower ''EXAMPLE.com'' = ''example.com''" "map ascii_lower ''example.com'' = ''example.com''"
    "map ascii_lower ''other.org'' = ''other.org''" by code_simp+
  have "add_all (\<lambda>(d, flags). AddDomainRule sim_bpf sim_filter d flags) xdp_domains sim_start \<noteq> None" by code_simp
  then obtain w' where w': "add_all (\<lambda>(d, flags). AddDomainRule sim_bpf sim_filter d flags) xdp_domains sim_start = Some w'"
    by blast
  have z: "\<forall>(d, flags) \<in> set xdp_domains. CHR 0x00 \<notin> set (normalizeDomain d)"
    by (simp add: xdp_domains_def n)
  note step = xdp_domains_accumulate [OF sim_bpf_maps sim_filter_maps(3) w' _ _ z]
  have e: "\<not> domain_matches (k_tbl sim_start) sim_filter name action" for name action
    by (simp add: domain_matches_def sim_start_def)
  have rule: "(''https://Example.com/x'', domainTLS) \<in> set xdp_domains" "(''example.com.'', domainHTTP) \<in> set xdp_domains"
    by (simp_all add: xdp_domains_def)
  have flags: "domainTLS AND domainTLS \<noteq> 0" "domainHTTP AND domainHTTP \<noteq> 0"
    by (simp_all add: domainTLS_def domainHTTP_def)
  have other: "flags AND domainTLS = 0" if "(d, flags) \<in> set xdp_domains" "normalizeDomain d = ''other.org''" for d flags
    using that n by (auto simp: xdp_domains_def domainTLS_def domainHTTP_def)
  have "domain_matches (k_tbl w') sim_filter ''EXAMPLE.com'' domainTLS"
    using step [of "''EXAMPLE.com''" domainTLS] rule(1) n(1) flags unfolding l
    by (auto simp: maxDomainLen_def simp del: and.idem)
  moreover have "domain_matches (k_tbl w') sim_filter ''example.com'' domainHTTP"
    using step [of "''example.com''" domainHTTP] rule(2) n(2) flags unfolding l
    by (auto simp: maxDomainLen_def simp del: and.idem)
  moreover have "\<not> domain_matches (k_tbl w') sim_filter ''other.org'' domainTLS"
    using step [of "''other.org''" domainTLS] other e unfolding l by auto
  ultimately show ?thesis using w' by blast
qed

text \<open>
  C14: The loader leaks no kernel object: if it fails, at any step, the process holds what it held
  before, and if it succeeds, closing the filter later gives back the attachment, every program and
  every map.
\<close>

theorem xdp_no_leak:
  assumes "bpf_objects lib held" and "NewXDPFilter lib bpf iface mode w = (r, w')"
  shows "case r of
      Inl e \<Rightarrow> held w' = held w
    | Inr f \<Rightarrow> held w' \<noteq> held w \<and> (\<forall>w''. held w'' = held w' \<longrightarrow> held (XDPFilter_Close lib f w'') = held w)"
proof (cases r)
  case (Inl e)
  then show ?thesis using NewXDPFilter_fails_held [OF assms(1)] assms(2) by simp
next
  case (Inr f)
  obtain spec objs w0 w1 w2 d l flags ifindex where n:
    "RemoveMemlock lib w = (None, w0)" "LoadAndAssign lib spec w0 = (Inr objs, w1)"
    "put_programs lib d 0 (dispatch_programs objs) w1 = (None, w2)"
    "AttachXDP lib (Program objs) ifindex flags w2 = (Inr l, w')"
    using NewXDPFilter_Inr assms(2) Inr by metis
  have "held w \<subseteq> held w2"
    using bpf_objectsD(1) [OF assms(1), of w] bpf_objectsD(3) [OF assms(1) n(2)]
      put_programs_held [OF assms(1), of d 0 "dispatch_programs objs" w1] n(1,3) by auto
  then have "held w' \<noteq> held w" using bpf_objectsD(6) [OF assms(1) n(4)] by auto
  then show ?thesis using NewXDPFilter_Close_held [OF assms(1)] assms(2) Inr by auto
qed

theorem xdp_no_leak_witness:
  "\<exists>w'. NewXDPFilter sim_bpf ''ELF'' ''eth0'' '' Generic'' sim_start = (Inr sim_filter, w')
     \<and> k_held (XDPFilter_Close sim_bpf sim_filter w') = {}"
  using sim_New xdp_no_leak [OF sim_bpf_objects] by (fastforce simp: sim_start_def)

text \<open>
  C15: The tail calls go where the kernel program expects them: a filter that was loaded has, in the
  dispatch table, at the indices 0 to 11 of \<open>filter.bpf.c\<close> the programs for IPv4, IPv6, TCP and UDP over
  either, HTTP and TLS over IPv4 and over IPv6, and DNS over either.
\<close>

theorem xdp_dispatch_table:
  assumes "bpf_dispatch lib progs" and "NewXDPFilter lib bpf iface mode w = (Inr f, w')"
  shows "\<exists>d. dispatchRules f = Some d
    \<and> map (\<lambda>i. progs w' d (of_nat i)) [0..<12] =
        [ipv4Program f, ipv6Program f, tcp4Program f, udp4Program f, tcp6Program f, udp6Program f,
         http4Program f, tls4Program f, http6Program f, tls6Program f, dns4Program f, dns6Program f]"
proof -
  obtain objs w1 w2 d l flags ifindex where n:
    "DispatchRules objs = Some d" "put_programs lib d 0 (dispatch_programs objs) w1 = (None, w2)"
    "AttachXDP lib (Program objs) ifindex flags w2 = (Inr l, w')" "f = new_filter objs l iface"
    using NewXDPFilter_Inr [OF assms(2)] by metis
  have len: "length (dispatch_programs objs) = 12" by (simp add: dispatch_programs_def)
  have p: "progs w' = progs w2" using assms(1) n(3) by (metis bpf_dispatch_def snd_conv)
  have "map (\<lambda>i. progs w' d (of_nat i)) [0..<12] = dispatch_programs objs"
  proof (rule nth_equalityI)
    fix i assume "i < length (map (\<lambda>i. progs w' d (of_nat i)) [0..<12])"
    then show "map (\<lambda>i. progs w' d (of_nat i)) [0..<12] ! i = dispatch_programs objs ! i"
      using put_programs_ok [OF assms(1) _ n(2), of i] p len by simp
  qed (simp add: len)
  then show ?thesis using n(1,4) by (simp add: new_filter_def dispatch_programs_def)
qed

theorem xdp_dispatch_table_witness:
  "\<exists>w'. NewXDPFilter sim_bpf ''ELF'' ''eth0'' '' Generic'' sim_start = (Inr sim_filter, w')
     \<and> k_progs w' 13 10 = Some 11"
proof -
  obtain w' where w': "NewXDPFilter sim_bpf ''ELF'' ''eth0'' '' Generic'' sim_start = (Inr sim_filter, w')"
    using sim_New by blast
  from xdp_dispatch_table [OF sim_bpf_dispatch this] have "k_progs w' 13 10 = Some 11"
    by (simp add: upt_rec sim_filter_def new_filter_def sim_objects_def)
  with w' show ?thesis by blast
qed

text \<open>
  Reading the statistics gives every counter under its own name, or fails with the name of a counter
  that could not be read; there is no partial result.
\<close>

lemma GetStats_complete:
  "case GetStats lib f w of
     Inr result \<Rightarrow> dom result = set statNames
       \<and> list_all (\<lambda>i. StatLookup lib (statsMap f) (of_nat i) w = Inr (the (result (statNames ! i)))) [0..<8]
   | Inl e \<Rightarrow> (\<exists>i err. i < 8 \<and> StatLookup lib (statsMap f) (of_nat i) w = Inl err \<and> e = LookupStatError (statNames ! i) err)"
proof -
  have len: "length statNames = 8" and d: "distinct statNames" by (simp_all add: statNames_def)
  show ?thesis
  proof (cases "GetStats lib f w")
    case (Inl e)
    then show ?thesis using stats_loop_Inl [of lib "statsMap f" 0 statNames] len by (fastforce simp: GetStats_def)
  next
    case (Inr result)
    then show ?thesis using stats_loop_Inr [OF d, of lib "statsMap f" 0] len by (simp add: GetStats_def list_all_iff)
  qed
qed

end
