(* ===== verification/Bpf_Properties.thy ===== *)
theory Bpf_Properties
  imports Bpf_Filter Xdp_Properties Payload_Parsers
begin

text \<open>
  Properties of the eBPF program: the chain of tail calls is one pass over the frame, a poisoned DNS
  answer over IPv6 keeps a valid checksum, and the TLS parser finds the server name of a ClientHello.
\<close>

unbundle bit_operations_syntax

section \<open>The chain of tail calls\<close>

text \<open>The dispatch table as the loader fills it.\<close>

definition bpf_programs :: "bpf_prog list" where
  "bpf_programs = [P_IPv4, P_IPv6, P_TCP4, P_UDP4, P_TCP6, P_UDP6, P_HTTP4, P_TLS4, P_HTTP6, P_TLS6, P_DNS4, P_DNS6]"

definition dispatch_loaded :: "bpf_env \<Rightarrow> bool" where
  "dispatch_loaded env \<longleftrightarrow> map (dispatch_rules env) [0..<12] = map Some bpf_programs"

text \<open>
  The reference: each header is checked once, then the rules of its protocol are applied. It is written
  for both families, with what differs as parameters: the protocol, the lookup of an endpoint and the
  DNS check.
\<close>

definition verdict_of_check :: "bytes \<Rightarrow> xdp_action \<times> xdp_stat \<Rightarrow> verdict" where
  "verdict_of_check pkt v = (fst v, [snd v], pkt)"

definition pass_verdict :: "bytes \<Rightarrow> verdict" where
  "pass_verdict pkt = (XDP_PASS, [STAT_PASSED], pkt)"

definition name_verdict :: "bytes \<Rightarrow> xdp_action \<Rightarrow> xdp_stat \<Rightarrow> verdict" where
  "name_verdict pkt a s = (if a = XDP_DROP then (XDP_DROP, [s], pkt) else pass_verdict pkt)"

definition transport_verdict ::
  "bpf_env \<Rightarrow> bytes \<Rightarrow> nat \<Rightarrow> nat \<Rightarrow> (nat \<Rightarrow> 8 word \<Rightarrow> bool) \<Rightarrow> (nat \<Rightarrow> 8 word \<Rightarrow> bool) \<Rightarrow> verdict \<Rightarrow> verdict" where
  "transport_verdict env pkt proto l4_off listed_dst listed_src dns =
     (if proto = 6 then
        (case parse_tcp_ports pkt l4_off of
           Inl v \<Rightarrow> verdict_of_check pkt v
         | Inr (payload_off, sport, dport) \<Rightarrow>
             if listed_dst dport protoTCP \<or> listed_src sport protoTCP then (XDP_DROP, [STAT_IP_PORT_BLOCKED], pkt)
             else if dport = 80 then name_verdict pkt (check_http_host env pkt payload_off) STAT_HTTP_BLOCKED
             else if dport = 443 then name_verdict pkt (check_tls_sni env pkt payload_off) STAT_TLS_BLOCKED
             else pass_verdict pkt)
      else if proto = 17 then
        (case parse_udp_ports pkt l4_off of
           Inl v \<Rightarrow> verdict_of_check pkt v
         | Inr (sport, dport) \<Rightarrow>
             if listed_dst dport protoUDP \<or> listed_src sport protoUDP then (XDP_DROP, [STAT_IP_PORT_BLOCKED], pkt)
             else if dport = 53 then dns
             else pass_verdict pkt)
      else pass_verdict pkt)"

definition reference_verdict :: "bpf_env \<Rightarrow> bytes \<Rightarrow> verdict" where
  "reference_verdict env pkt =
     (if length pkt < 14 then (XDP_PASS, [STAT_MALFORMED], pkt)
      else if field16 pkt 12 = 0x0800 then
        (case validate_ipv4 env pkt of
           Inl v \<Rightarrow> verdict_of_check pkt v
         | Inr l4_off \<Rightarrow>
             transport_verdict env pkt (byte (pkt ! 23)) l4_off
               (bpf_ip_port_matches env (field_bytes pkt 30 4)) (bpf_ip_port_matches env (field_bytes pkt 26 4))
               (check_dns_v4 env pkt l4_off (l4_off + 8)))
      else if field16 pkt 12 = 0x86DD then
        (case validate_ipv6 env pkt of
           Inl v \<Rightarrow> verdict_of_check pkt v
         | Inr l4_off \<Rightarrow>
             transport_verdict env pkt (byte (pkt ! 20)) l4_off
               (bpf_ip6_port_matches env (field_bytes pkt 38 16)) (bpf_ip6_port_matches env (field_bytes pkt 22 16))
               (check_dns_v6 env pkt l4_off (l4_off + 8)))
      else pass_verdict pkt)"

lemmas verdict_defs = counted_def passed_def verdict_of_check_def pass_verdict_def

lemma exec_Finish [simp]: "exec env n (Finish v) pkt = v"
  by (cases n) simp_all

lemma exec_TailCall [simp]:
  "dispatch_rules env i = Some p \<Longrightarrow> exec env (Suc n) (TailCall i) pkt = exec env n (run_prog env p pkt) pkt"
  by simp

declare exec.simps [simp del]

lemma exec_counted [simp]: "exec env n (counted pkt v) pkt = verdict_of_check pkt v"
  by (simp add: verdict_defs)

lemma exec_passed [simp]: "exec env n (passed pkt) pkt = pass_verdict pkt"
  by (simp add: verdict_defs)

lemma dispatch_loadedD:
  assumes "dispatch_loaded env"
  shows "dispatch_rules env 0 = Some P_IPv4" "dispatch_rules env (Suc 0) = Some P_IPv6" "dispatch_rules env 2 = Some P_TCP4"
    "dispatch_rules env 3 = Some P_UDP4" "dispatch_rules env 4 = Some P_TCP6" "dispatch_rules env 5 = Some P_UDP6"
    "dispatch_rules env 6 = Some P_HTTP4" "dispatch_rules env 7 = Some P_TLS4" "dispatch_rules env 8 = Some P_HTTP6"
    "dispatch_rules env 9 = Some P_TLS6" "dispatch_rules env 10 = Some P_DNS4" "dispatch_rules env 11 = Some P_DNS6"
  using assms by (simp_all add: dispatch_loaded_def bpf_programs_def upt_rec numeral_eq_Suc)

text \<open>A program further down the chain repeats the checks of the ones before it, with the same result.\<close>

lemma tcp4_payload_after_validate:
  "validate_ipv4 env pkt = Inr l4 \<Longrightarrow> byte (pkt ! 23) = 6 \<Longrightarrow> tcp4_payload_for_port pkt port =
    (case parse_tcp_ports pkt l4 of
       Inl v \<Rightarrow> Inl v
     | Inr (off, sport, dport) \<Rightarrow> if dport \<noteq> port then Inl (XDP_PASS, STAT_PASSED) else Inr off)"
  unfolding validate_ipv4_def tcp4_payload_for_port_def Let_def
  by (simp split: if_splits)

lemma tcp6_payload_after_validate:
  "validate_ipv6 env pkt = Inr l4 \<Longrightarrow> byte (pkt ! 20) = 6 \<Longrightarrow> tcp6_payload_for_port pkt port =
    (case parse_tcp_ports pkt l4 of
       Inl v \<Rightarrow> Inl v
     | Inr (off, sport, dport) \<Rightarrow> if dport \<noteq> port then Inl (XDP_PASS, STAT_PASSED) else Inr off)"
  unfolding validate_ipv6_def tcp6_payload_for_port_def
  by (simp split: if_splits)

lemma validate_length: "validate_ipv4 env pkt = Inr l4 \<Longrightarrow> \<not> length pkt < 14" "validate_ipv6 env pkt = Inr l4 \<Longrightarrow> \<not> length pkt < 14"
  by (auto simp: validate_ipv4_def validate_ipv6_def split: if_splits)

lemma exec_name_rule [simp]:
  "exec env n (run_http_rule env pkt off) pkt = name_verdict pkt (check_http_host env pkt off) STAT_HTTP_BLOCKED"
  "exec env n (run_tls_rule env pkt off) pkt = name_verdict pkt (check_tls_sni env pkt off) STAT_TLS_BLOCKED"
  by (simp_all add: run_http_rule_def run_tls_rule_def name_verdict_def verdict_of_check_def)

lemma exec_ipv4:
  assumes "dispatch_loaded env"
  shows "exec env (Suc (Suc (Suc n))) (xdp_ipv4 env pkt) pkt =
    (case validate_ipv4 env pkt of
       Inl v \<Rightarrow> verdict_of_check pkt v
     | Inr l4_off \<Rightarrow>
         transport_verdict env pkt (byte (pkt ! 23)) l4_off
           (bpf_ip_port_matches env (field_bytes pkt 30 4)) (bpf_ip_port_matches env (field_bytes pkt 26 4))
           (check_dns_v4 env pkt l4_off (l4_off + 8)))"
proof (cases "validate_ipv4 env pkt")
  case (Inr l4)
  note d = dispatch_loadedD [OF assms]
  note l = validate_length(1) [OF Inr]
  consider "byte (pkt ! 23) = 6" | "byte (pkt ! 23) = 17" | "byte (pkt ! 23) \<noteq> 6" "byte (pkt ! 23) \<noteq> 17" by blast
  then show ?thesis
  proof cases
    case 1
    then show ?thesis
      using Inr d tcp4_payload_after_validate [OF Inr 1]
      by (auto simp: xdp_ipv4_def xdp_tcp4_def xdp_http4_def xdp_tls4_def transport_verdict_def
          verdict_of_check_def split: sum.split)
  next
    case 2
    then show ?thesis
      using Inr d l
      by (auto simp: xdp_ipv4_def xdp_udp4_def xdp_dns4_def transport_verdict_def verdict_of_check_def split: sum.split)
  next
    case 3
    then show ?thesis using Inr by (simp add: xdp_ipv4_def transport_verdict_def)
  qed
qed (simp add: xdp_ipv4_def)

lemma exec_ipv6:
  assumes "dispatch_loaded env"
  shows "exec env (Suc (Suc (Suc n))) (xdp_ipv6 env pkt) pkt =
    (case validate_ipv6 env pkt of
       Inl v \<Rightarrow> verdict_of_check pkt v
     | Inr l4_off \<Rightarrow>
         transport_verdict env pkt (byte (pkt ! 20)) l4_off
           (bpf_ip6_port_matches env (field_bytes pkt 38 16)) (bpf_ip6_port_matches env (field_bytes pkt 22 16))
           (check_dns_v6 env pkt l4_off (l4_off + 8)))"
proof (cases "validate_ipv6 env pkt")
  case (Inr l4)
  note d = dispatch_loadedD [OF assms]
  note l = validate_length(2) [OF Inr]
  consider "byte (pkt ! 20) = 6" | "byte (pkt ! 20) = 17" | "byte (pkt ! 20) \<noteq> 6" "byte (pkt ! 20) \<noteq> 17" by blast
  then show ?thesis
  proof cases
    case 1
    then show ?thesis
      using Inr d tcp6_payload_after_validate [OF Inr 1]
      by (auto simp: xdp_ipv6_def xdp_tcp6_def xdp_http6_def xdp_tls6_def transport_verdict_def
          verdict_of_check_def split: sum.split)
  next
    case 2
    then show ?thesis
      using Inr d l
      by (auto simp: xdp_ipv6_def xdp_udp6_def xdp_dns6_def transport_verdict_def verdict_of_check_def split: sum.split)
  next
    case 3
    then show ?thesis using Inr by (simp add: xdp_ipv6_def transport_verdict_def)
  qed
qed (simp add: xdp_ipv6_def)

lemma xdp_filter_reference:
  assumes "dispatch_loaded env"
  shows "xdp_filter env pkt =
    (case reference_verdict env pkt of (action, stats, pkt') \<Rightarrow> (action, STAT_TOTAL # stats, pkt'))"
proof -
  have n33: "(33 :: nat) = Suc 32" and n32: "(32 :: nat) = Suc (Suc (Suc 29))" by simp_all
  have tail: "exec env 33 (TailCall i) pkt = exec env 32 (run_prog env p pkt) pkt" if "dispatch_rules env i = Some p" for i p
    unfolding n33 by (rule exec_TailCall [OF that])
  note chain = exec_ipv4 [OF assms, of 29 pkt, folded n32] exec_ipv6 [OF assms, of 29 pkt, folded n32]
  have "exec env 33 (xdp_entry pkt) pkt = reference_verdict env pkt"
    unfolding xdp_entry_def reference_verdict_def
    by (simp add: verdict_of_check_def [of pkt "(XDP_PASS, STAT_MALFORMED)"] chain
        tail [OF dispatch_loadedD(1) [OF assms]] tail [OF dispatch_loadedD(2) [OF assms]])
  then show ?thesis by (simp add: xdp_filter_def)
qed

text \<open>
  C16: The twelve programs and their tail calls are one pass: with the dispatch table the loader fills,
  the filter gives every frame the verdict, the counters and the new contents of a reference that checks
  each header once and then applies the rules of the protocol. No tail call is lost, and the limit of
  33 is never reached.
\<close>

theorem xdp_filter_is_one_pass:
  assumes "dispatch_loaded env"
  shows "xdp_filter env pkt =
    (case reference_verdict env pkt of (action, stats, pkt') \<Rightarrow> (action, STAT_TOTAL # stats, pkt'))"
  by (rule xdp_filter_reference [OF assms])

section \<open>Checksums\<close>

text \<open>The sum of the 16-bit words of a byte string, an odd last byte being padded with zero.\<close>

fun words_sum :: "bytes \<Rightarrow> nat" where
  "words_sum [] = 0"
| "words_sum [a] = 256 * byte a"
| "words_sum (a # b # bs) = 256 * byte a + byte b + words_sum bs"

lemma words_sum_append: "even (length xs) \<Longrightarrow> words_sum (xs @ ys) = words_sum xs + words_sum ys"
  by (induction xs rule: words_sum.induct) auto

definition word16 :: "nat \<Rightarrow> bytes" where
  "word16 x = [char_of (x div 256), char_of (x mod 256)]"

lemma length_word16 [simp]: "length (word16 x) = 2"
  by (simp add: word16_def)

lemma words_sum_word16 [simp]: "x < 65536 \<Longrightarrow> words_sum (word16 x) = x"
  by (simp add: word16_def)

lemma words_sum_two: "length bs = 2 \<Longrightarrow> words_sum bs = field16 bs 0"
  by (cases bs rule: words_sum.cases) (auto simp: field16_def)

lemma fold_carry:
  fixes x :: nat
  shows "(x mod 65536 + x div 65536) mod 65535 = x mod 65535"
proof -
  have "x = x mod 65536 + x div 65536 + 65535 * (x div 65536)"
    using mod_mult_div_eq [of x 65536] by linarith
  then show ?thesis by (metis mod_mult_self2)
qed

lemma mod_shift:
  fixes x y z k m :: nat
  assumes "x mod m = (y + z) mod m"
  shows "(x + k) mod m = (y + k + z) mod m"
proof -
  have "(x + k) mod m = (x mod m + k) mod m" by (simp add: mod_add_left_eq)
  also have "\<dots> = (y + z + k) mod m" unfolding assms by (simp add: mod_add_left_eq)
  finally show ?thesis by (simp add: add.commute add.left_commute)
qed

text \<open>The incremental update keeps the sum of the checksum and the word it covers, in ones' complement.\<close>

lemma csum_replace16_sum:
  assumes "check \<le> 65535" "old \<le> 65535" "new \<le> 65535"
  shows "(csum_replace16 check old new + new) mod 65535 = (check + old) mod 65535"
    and "csum_replace16 check old new \<le> 65535" and "csum_replace16 check old new \<noteq> 0"
proof -
  define s0 where "s0 = (65535 - check) + (65535 - old) + new"
  define s1 where "s1 = s0 mod 65536 + s0 div 65536"
  define s2 where "s2 = s1 mod 65536 + s1 div 65536"
  have "s0 \<le> 196605" using assms by (simp add: s0_def)
  then have "s1 \<le> 65535 + 2" unfolding s1_def by (intro add_mono) auto
  then have "s1 < 65536 \<or> s1 = 65536 \<or> s1 = 65537" by linarith
  then have s2: "s2 \<le> 65535" unfolding s2_def by auto
  have m: "s2 mod 65535 = s0 mod 65535" unfolding s2_def s1_def by (simp add: fold_carry)
  have r: "csum_replace16 check old new = (if 65535 - s2 = 0 then 65535 else 65535 - s2)"
  proof -
    have "csum_replace16 check old new = (if 65535 - s2 mod 65536 = 0 then 65535 else 65535 - s2 mod 65536)"
      by (simp only: csum_replace16_def Let_def s0_def s1_def s2_def)
    then show ?thesis using s2 by simp
  qed
  show "csum_replace16 check old new \<le> 65535" "csum_replace16 check old new \<noteq> 0" by (simp_all add: r)
  have "(csum_replace16 check old new + s2) mod 65535 = 0" using s2 by (simp add: r)
  then have "(csum_replace16 check old new + s0) mod 65535 = 0" using m by (metis mod_add_right_eq)
  then have "(csum_replace16 check old new + s0 + (check + old)) mod 65535 = (check + old) mod 65535"
    by (metis add_0 mod_add_left_eq)
  moreover have "csum_replace16 check old new + s0 + (check + old) = csum_replace16 check old new + new + 2 * 65535"
    using assms by (simp add: s0_def)
  ultimately show "(csum_replace16 check old new + new) mod 65535 = (check + old) mod 65535"
    by (metis mod_mult_self1 mult.commute)
qed

section \<open>Writing fields\<close>

lemma put_bytes_at: "length a = i \<Longrightarrow> length old = length bs \<Longrightarrow> put_bytes (a @ old @ r) i bs = a @ bs @ r"
  by (auto simp: put_bytes_def)

lemma field_bytes_at: "length a = i \<Longrightarrow> length x = n \<Longrightarrow> field_bytes (a @ x @ r) i n = x"
  by (auto simp: field_bytes_def)

lemma field16_at: "length a = i \<Longrightarrow> length x = 2 \<Longrightarrow> field16 (a @ x @ r) i = field16 x 0"
  by (auto simp: field16_def nth_append)

lemma put16_at: "length a = i \<Longrightarrow> length old = 2 \<Longrightarrow> put16 (a @ old @ r) i x = a @ word16 x @ r"
  by (simp add: put16_def word16_def put_bytes_at)

lemma swap_fields_at:
  assumes "length a = i" "length x = n" "length y = n" "j = i + n + length m"
  shows "swap_fields (a @ x @ m @ y @ r) i j n = a @ y @ m @ x @ r"
proof -
  have "field_bytes (a @ x @ m @ y @ r) j n = y"
    using field_bytes_at [of "a @ x @ m" j y n r] assms by simp
  moreover have "field_bytes (a @ x @ m @ y @ r) i n = x" using assms by (simp add: field_bytes_at)
  moreover have "put_bytes (a @ x @ m @ y @ r) i y = a @ y @ m @ y @ r" using assms by (simp add: put_bytes_at)
  moreover have "put_bytes (a @ y @ m @ y @ r) j x = a @ y @ m @ x @ r"
    using put_bytes_at [of "a @ y @ m" j y x r] assms by simp
  ultimately show ?thesis by (simp add: swap_fields_def)
qed

section \<open>Poisoned answers over IPv6\<close>

text \<open>A frame with its headers taken apart: Ethernet, IPv6, UDP and DNS.\<close>

record dns6_frame =
  f_dmac :: bytes
  f_smac :: bytes
  f_type :: bytes
  f_flow :: bytes
  f_saddr :: bytes
  f_daddr :: bytes
  f_sport :: bytes
  f_dport :: bytes
  f_len :: bytes
  f_check :: nat
  f_id :: bytes
  f_flags :: nat
  f_qd :: bytes
  f_an :: nat
  f_ns :: nat
  f_ar :: nat
  f_body :: bytes

definition frame_bytes :: "dns6_frame \<Rightarrow> bytes" where
  "frame_bytes f =
     f_dmac f @ f_smac f @ f_type f @ f_flow f @ f_saddr f @ f_daddr f @ f_sport f @ f_dport f @ f_len f
     @ word16 (f_check f) @ f_id f @ word16 (f_flags f) @ f_qd f @ word16 (f_an f) @ word16 (f_ns f) @ word16 (f_ar f)
     @ f_body f"

definition wf_frame :: "dns6_frame \<Rightarrow> bool" where
  "wf_frame f \<longleftrightarrow>
     length (f_dmac f) = 6 \<and> length (f_smac f) = 6 \<and> length (f_type f) = 2 \<and> length (f_flow f) = 8
     \<and> length (f_saddr f) = 16 \<and> length (f_daddr f) = 16 \<and> length (f_sport f) = 2 \<and> length (f_dport f) = 2
     \<and> length (f_len f) = 2 \<and> length (f_id f) = 2 \<and> length (f_qd f) = 2
     \<and> f_check f < 65536 \<and> f_flags f < 65536 \<and> f_an f < 65536 \<and> f_ns f < 65536 \<and> f_ar f < 65536"

text \<open>
  The UDP checksum over IPv6: the words of the pseudo header (addresses, length, protocol 17), the UDP
  header with the checksum field and the data sum to zero in ones' complement.
\<close>

definition udp6_sum :: "dns6_frame \<Rightarrow> nat" where
  "udp6_sum f =
     words_sum (f_saddr f @ f_daddr f) + (words_sum (f_len f) + 17)
     + words_sum (f_sport f @ f_dport f @ f_len f @ word16 (f_check f) @ f_id f @ word16 (f_flags f) @ f_qd f
         @ word16 (f_an f) @ word16 (f_ns f) @ word16 (f_ar f) @ f_body f)"

definition checksum_ok :: "dns6_frame \<Rightarrow> bool" where
  "checksum_ok f \<longleftrightarrow> udp6_sum f mod 65535 = 0"

definition answer_check :: "dns6_frame \<Rightarrow> nat" where
  "answer_check f =
     csum_replace16 (csum_replace16 (csum_replace16 (csum_replace16 (f_check f) (f_flags f) 0x8183)
       (f_an f) 0) (f_ns f) 0) (f_ar f) 0"

definition answer_frame :: "dns6_frame \<Rightarrow> dns6_frame" where
  "answer_frame f = f\<lparr>f_dmac := f_smac f, f_smac := f_dmac f, f_saddr := f_daddr f, f_daddr := f_saddr f,
     f_sport := f_dport f, f_dport := f_sport f, f_check := answer_check f, f_flags := 0x8183,
     f_an := 0, f_ns := 0, f_ar := 0\<rparr>"

lemma words_sum_parts:
  "wf_frame f \<Longrightarrow> udp6_sum f = words_sum (f_saddr f) + words_sum (f_daddr f) + (2 * words_sum (f_len f) + 17)
     + words_sum (f_sport f) + words_sum (f_dport f) + f_check f + words_sum (f_id f) + f_flags f + words_sum (f_qd f)
     + f_an f + f_ns f + f_ar f + words_sum (f_body f)"
  by (simp add: udp6_sum_def words_sum_append wf_frame_def)

lemma answer_check_sum:
  assumes "wf_frame f"
  shows "(answer_check f + 0x8183) mod 65535 = (f_check f + f_flags f + f_an f + f_ns f + f_ar f) mod 65535"
    and "answer_check f < 65536" and "answer_check f \<noteq> 0"
proof -
  have le: "f_check f \<le> 65535" "f_flags f \<le> 65535" "f_an f \<le> 65535" "f_ns f \<le> 65535" "f_ar f \<le> 65535"
    using assms by (auto simp: wf_frame_def)
  let ?c1 = "csum_replace16 (f_check f) (f_flags f) 0x8183"
  let ?c2 = "csum_replace16 ?c1 (f_an f) 0"
  let ?c3 = "csum_replace16 ?c2 (f_ns f) 0"
  let ?c4 = "csum_replace16 ?c3 (f_ar f) 0"
  note c1 = csum_replace16_sum [where check = "f_check f" and old = "f_flags f" and new = "0x8183"]
  note c2 = csum_replace16_sum [where check = ?c1 and old = "f_an f" and new = 0]
  note c3 = csum_replace16_sum [where check = ?c2 and old = "f_ns f" and new = 0]
  note c4 = csum_replace16_sum [where check = ?c3 and old = "f_ar f" and new = 0]
  have b: "?c1 \<le> 65535" "?c2 \<le> 65535" "?c3 \<le> 65535" "?c4 \<le> 65535" "?c4 \<noteq> 0"
    using c1(2) c2(2) c3(2) c4(2,3) le by simp_all
  have e4: "?c4 mod 65535 = (?c3 + f_ar f) mod 65535" and e3: "?c3 mod 65535 = (?c2 + f_ns f) mod 65535"
    and e2: "?c2 mod 65535 = (?c1 + f_an f) mod 65535"
    and e1: "(?c1 + 0x8183) mod 65535 = (f_check f + f_flags f) mod 65535"
    using c1(1) c2(1) c3(1) c4(1) b le by simp_all
  have "(?c4 + 0x8183) mod 65535 = (?c3 + 0x8183 + f_ar f) mod 65535" by (rule mod_shift [OF e4])
  also have "\<dots> = (?c2 + (0x8183 + f_ar f) + f_ns f) mod 65535"
    using mod_shift [OF e3, of "0x8183 + f_ar f"] by (simp only: add.assoc)
  also have "\<dots> = (?c1 + (0x8183 + f_ar f + f_ns f) + f_an f) mod 65535"
    using mod_shift [OF e2, of "0x8183 + f_ar f + f_ns f"] by (simp only: add.assoc)
  also have "\<dots> = (?c1 + 0x8183 + (f_ar f + f_ns f + f_an f)) mod 65535" by (simp only: add.assoc)
  also have "\<dots> = (f_check f + f_flags f + (f_ar f + f_ns f + f_an f)) mod 65535"
    by (rule mod_add_cong [OF e1 refl])
  also have "f_check f + f_flags f + (f_ar f + f_ns f + f_an f) = f_check f + f_flags f + f_an f + f_ns f + f_ar f"
    by simp
  finally show "(answer_check f + 0x8183) mod 65535 = (f_check f + f_flags f + f_an f + f_ns f + f_ar f) mod 65535"
    by (simp add: answer_check_def)
  show "answer_check f < 65536" "answer_check f \<noteq> 0" using b(4,5) by (simp_all add: answer_check_def)
qed

lemma wf_answer_frame: "wf_frame f \<Longrightarrow> wf_frame (answer_frame f)"
  using answer_check_sum(2) [of f] by (simp add: wf_frame_def answer_frame_def)

lemma answer_frame_checksum:
  assumes "wf_frame f"
  shows "udp6_sum (answer_frame f) mod 65535 = udp6_sum f mod 65535"
proof -
  let ?rest = "words_sum (f_saddr f) + words_sum (f_daddr f) + (2 * words_sum (f_len f) + 17)
     + words_sum (f_sport f) + words_sum (f_dport f) + words_sum (f_id f) + words_sum (f_qd f) + words_sum (f_body f)"
  have "udp6_sum (answer_frame f) = answer_check f + 0x8183 + ?rest"
    unfolding words_sum_parts [OF wf_answer_frame [OF assms]] by (simp add: answer_frame_def)
  moreover have "udp6_sum f = f_check f + f_flags f + f_an f + f_ns f + f_ar f + ?rest"
    by (simp add: words_sum_parts [OF assms])
  ultimately show ?thesis
    using answer_check_sum(1) [OF assms] by (metis mod_add_left_eq)
qed

lemma field16_word16: "x < 65536 \<Longrightarrow> field16 (word16 x) 0 = x"
  by (simp add: field16_def word16_def)

lemma answer_header_at:
  assumes "length a = i + 2" "length q = 2"
  shows "answer_header (a @ word16 fl @ q @ word16 an @ word16 ns @ word16 ar @ r) i
    = a @ word16 0x8183 @ q @ word16 0 @ word16 0 @ word16 0 @ r"
proof -
  have "put16 (a @ word16 fl @ q @ word16 an @ word16 ns @ word16 ar @ r) (i + 2) 0x8183
      = a @ word16 0x8183 @ q @ word16 an @ word16 ns @ word16 ar @ r"
    using assms by (intro put16_at) simp_all
  moreover have "put16 \<dots> (i + 6) 0 = a @ word16 0x8183 @ q @ word16 0 @ word16 ns @ word16 ar @ r"
    using put16_at [of "a @ word16 0x8183 @ q" "i + 6" "word16 an"] assms by simp
  moreover have "put16 \<dots> (i + 8) 0 = a @ word16 0x8183 @ q @ word16 0 @ word16 0 @ word16 ar @ r"
    using put16_at [of "a @ word16 0x8183 @ q @ word16 0" "i + 8" "word16 ns"] assms by simp
  moreover have "put16 \<dots> (i + 10) 0 = a @ word16 0x8183 @ q @ word16 0 @ word16 0 @ word16 0 @ r"
    using put16_at [of "a @ word16 0x8183 @ q @ word16 0 @ word16 0" "i + 10" "word16 ar"] assms by simp
  ultimately show ?thesis by (simp add: answer_header_def)
qed

lemma poison_v6_frame:
  assumes "wf_frame f"
  shows "poison_dns_nxdomain_v6 (frame_bytes f) 54 62 = frame_bytes (answer_frame f)"
proof -
  note l = assms [unfolded wf_frame_def]
  let ?udp = "f_len f @ word16 (f_check f) @ f_id f"
  let ?dns = "word16 (f_flags f) @ f_qd f @ word16 (f_an f) @ word16 (f_ns f) @ word16 (f_ar f) @ f_body f"
  let ?eth = "f_smac f @ f_dmac f @ f_type f @ f_flow f"
  let ?ip = "?eth @ f_daddr f @ f_saddr f"
  let ?ports = "?ip @ f_dport f @ f_sport f"
  have 1: "swap_macs (frame_bytes f) = ?eth @ f_saddr f @ f_daddr f @ f_sport f @ f_dport f @ ?udp @ ?dns"
    using l swap_fields_at [of "[]" 0 "f_dmac f" 6 "f_smac f" 6 "[]"] by (simp add: swap_macs_def frame_bytes_def)
  have 2: "swap_fields (?eth @ f_saddr f @ f_daddr f @ f_sport f @ f_dport f @ ?udp @ ?dns) 22 38 16
      = ?ip @ f_sport f @ f_dport f @ ?udp @ ?dns"
    using l swap_fields_at [of ?eth 22 "f_saddr f" 16 "f_daddr f" 38 "[]"] by simp
  have 3: "swap_fields (?ip @ f_sport f @ f_dport f @ ?udp @ ?dns) 54 (54 + 2) 2 = ?ports @ ?udp @ ?dns"
    using l swap_fields_at [of ?ip 54 "f_sport f" 2 "f_dport f" 56 "[]"] by simp
  let ?p = "?ports @ ?udp @ ?dns"
  have old: "field16 ?p (62 + 2) = f_flags f" "field16 ?p (62 + 6) = f_an f" "field16 ?p (62 + 8) = f_ns f"
    "field16 ?p (62 + 10) = f_ar f"
    using l field16_at [of "?ports @ ?udp" 64 "word16 (f_flags f)"]
      field16_at [of "?ports @ ?udp @ word16 (f_flags f) @ f_qd f" 68 "word16 (f_an f)"]
      field16_at [of "?ports @ ?udp @ word16 (f_flags f) @ f_qd f @ word16 (f_an f)" 70 "word16 (f_ns f)"]
      field16_at [of "?ports @ ?udp @ word16 (f_flags f) @ f_qd f @ word16 (f_an f) @ word16 (f_ns f)" 72 "word16 (f_ar f)"]
    by (simp_all add: field16_word16)
  let ?dns' = "word16 0x8183 @ f_qd f @ word16 0 @ word16 0 @ word16 0 @ f_body f"
  let ?q = "?ports @ ?udp @ ?dns'"
  have 4: "answer_header ?p 62 = ?q"
    using l answer_header_at [of "?ports @ ?udp" 62 "f_qd f"] by simp
  have 5: "field16 ?q (54 + 6) = f_check f"
    using l field16_at [of "?ports @ f_len f" 60 "word16 (f_check f)"] by (simp add: field16_word16)
  have 6: "put16 ?q (54 + 6) (answer_check f) = ?ports @ f_len f @ word16 (answer_check f) @ f_id f @ ?dns'"
    using l put16_at [of "?ports @ f_len f" 60 "word16 (f_check f)"] by simp
  have "poison_dns_nxdomain_v6 (frame_bytes f) 54 62 = put16 ?q (54 + 6) (answer_check f)"
    unfolding poison_dns_nxdomain_v6_def Let_def 1 2 3 old 4 5 answer_check_def ..
  then show ?thesis unfolding 6 by (simp add: frame_bytes_def answer_frame_def)
qed

text \<open>
  C17: A DNS query over IPv6 is turned in place into a valid answer: the frame goes back to its sender,
  with hardware addresses, addresses and ports exchanged, the identifier and the question kept, the
  flags of an NXDOMAIN answer and no records; and its UDP checksum, updated incrementally for the
  changed words only, is right if the one of the query was, and is not zero, which IPv6 forbids.
\<close>

theorem xdp_answer_valid_v6:
  assumes "wf_frame f" and "checksum_ok f"
  shows "\<exists>g. poison_dns_nxdomain_v6 (frame_bytes f) 54 62 = frame_bytes g
    \<and> checksum_ok g \<and> f_check g \<noteq> 0 \<and> f_dmac g = f_smac f \<and> f_smac g = f_dmac f
    \<and> f_saddr g = f_daddr f \<and> f_daddr g = f_saddr f \<and> f_sport g = f_dport f \<and> f_dport g = f_sport f
    \<and> f_id g = f_id f \<and> f_flags g = 0x8183 \<and> f_qd g = f_qd f \<and> f_an g = 0 \<and> f_ns g = 0 \<and> f_ar g = 0
    \<and> f_body g = f_body f"
proof -
  have "checksum_ok (answer_frame f)"
    using assms(2) answer_frame_checksum [OF assms(1)] by (simp add: checksum_ok_def)
  then show ?thesis
    using poison_v6_frame [OF assms(1)] answer_check_sum(3) [OF assms(1)]
    by (intro exI [of _ "answer_frame f"]) (simp add: answer_frame_def)
qed

definition example_frame :: dns6_frame where
  "example_frame =
     \<lparr>f_dmac = ''dddddd'', f_smac = ''ssssss'', f_type = [CHR 0x86, CHR 0xDD], f_flow = replicate 8 (CHR 0x60),
      f_saddr = ''source-address--'', f_daddr = ''destination-addr'', f_sport = [CHR 0xC3, CHR 0x50], f_dport = [CHR 0x00, CHR 0x35],
      f_len = [CHR 0x00, CHR 0x1A], f_check = 40211, f_id = ''id'', f_flags = 0x0100, f_qd = [CHR 0x00, CHR 0x01],
      f_an = 0, f_ns = 0, f_ar = 1, f_body = [CHR 0x01, CHR ''x'', CHR 0x00, CHR 0x00, CHR 0x01, CHR 0x00, CHR 0x01]\<rparr>"

theorem xdp_answer_valid_v6_witness:
  "\<exists>g. poison_dns_nxdomain_v6 (frame_bytes example_frame) 54 62 = frame_bytes g \<and> checksum_ok g \<and> f_saddr g = ''destination-addr''"
proof -
  have "wf_frame example_frame" by (simp add: wf_frame_def example_frame_def)
  moreover have "checksum_ok example_frame"
    by (simp add: checksum_ok_def udp6_sum_def example_frame_def word16_def)
  ultimately show ?thesis
    using xdp_answer_valid_v6 [of example_frame] by (auto simp: example_frame_def)
qed

section \<open>Reading bytes of a frame\<close>

lemma load_u8_at:
  "pkt = a @ c # r \<Longrightarrow> pos = length a \<Longrightarrow> pos < MAX_PACKET_READ \<Longrightarrow> load_u8 pkt pos = Some (byte c)"
  by (simp add: load_u8_def)

lemma load_be16_at:
  assumes "pkt = a @ be16 n @ r" "n < 65536" "pos = length a" "pos + 1 < MAX_PACKET_READ"
  shows "load_be16 pkt pos = Some n"
proof -
  have "load_u8 pkt pos = Some (byte (char_of (n div 256) :: char))"
    using assms by (intro load_u8_at [where a = a]) (auto simp: be16_def)
  moreover have "load_u8 pkt (pos + 1) = Some (byte (char_of (n mod 256) :: char))"
    using assms by (intro load_u8_at [where a = "a @ [char_of (n div 256)]"]) (auto simp: be16_def)
  moreover have "n div 256 < 256" using assms(2) by simp
  ultimately show ?thesis by (simp add: load_be16_def)
qed

lemma packet_name_at:
  "pkt = a @ name @ r \<Longrightarrow> off = length a \<Longrightarrow> off + length name \<le> MAX_PACKET_READ \<Longrightarrow>
    packet_name pkt off (length name) = Some (map ascii_lower name)"
proof (induction name arbitrary: a off)
  case (Cons c name)
  have "load_u8 pkt off = Some (byte c)" using Cons.prems by (intro load_u8_at [where a = a]) auto
  moreover have "packet_name pkt (Suc off) (length name) = Some (map ascii_lower name)"
    using Cons.prems by (intro Cons.IH [of "a @ [c]"]) auto
  ultimately show ?case by simp
qed simp

text \<open>What a rule for a name and a protocol says, in the terms of the map.\<close>

definition name_listed :: "bpf_env \<Rightarrow> bytes \<Rightarrow> 32 word \<Rightarrow> bool" where
  "name_listed env name action \<longleftrightarrow>
     (\<exists>rule. domain_rules env (pad_name (map ascii_lower name)) = Some rule \<and> rule AND action \<noteq> 0)"

lemma domain_from_packet_at:
  assumes "pkt = a @ name @ r" "off = length a" "off + length name \<le> MAX_PACKET_READ" "name \<noteq> []"
    "length name < maxDomainLen"
  shows "domain_from_packet_matches env pkt off (length name) action \<longleftrightarrow> name_listed env name action"
  using packet_name_at [OF assms(1-3)] assms(3-5)
  by (cases "length name")
     (auto simp: domain_from_packet_matches_def bpf_domain_matches_def name_listed_def pad_name_def split: option.split)

section \<open>The TLS parser of the kernel\<close>

lemma ext_loop_skip:
  assumes "pkt = a @ tls_ext t d @ r" "0 < t" "t < 65536" "length a + 4 + length d \<le> e" "e \<le> lim" "lim \<le> MAX_PACKET_READ"
    "length d \<le> MAX_TLS_SCAN"
  shows "ext_loop pkt lim e (Suc n) (length a) = ext_loop pkt lim e n (length (a @ tls_ext t d))"
proof -
  have d: "length d < 65536" using assms(7) by (simp add: MAX_TLS_SCAN_def)
  have "load_be16 pkt (length a) = Some t"
    using assms by (intro load_be16_at [where a = a and r = "be16 (length d) @ d @ r"]) (auto simp: tls_ext_def)
  moreover have "load_be16 pkt (length a + 2) = Some (length d)"
    using assms d by (intro load_be16_at [where a = "a @ be16 t" and r = "d @ r"]) (auto simp: tls_ext_def)
  moreover have "length (a @ tls_ext t d) = length a + 4 + length d" by (simp add: tls_ext_def)
  moreover have "\<not> lim - (length a + 4) < length d" "\<not> e - length a < 4" using assms(4,5) by linarith+
  ultimately show ?thesis
    using assms(2,4,5,7) by (simp del: add_2_eq_Suc' length_append)
qed

lemma ext_loop_skip_all:
  assumes "pkt = a @ concat (map (\<lambda>(t, d). tls_ext t d) xs) @ r" "\<forall>(t, d) \<in> set xs. 0 < t \<and> t < 65536"
    "length a + length (concat (map (\<lambda>(t, d). tls_ext t d) xs)) \<le> e" "e \<le> lim" "lim \<le> MAX_PACKET_READ"
    "length (concat (map (\<lambda>(t, d). tls_ext t d) xs)) \<le> MAX_TLS_SCAN"
  shows "ext_loop pkt lim e (length xs + n) (length a)
    = ext_loop pkt lim e n (length (a @ concat (map (\<lambda>(t, d). tls_ext t d) xs)))"
  using assms
proof (induction xs arbitrary: a)
  case (Cons x xs)
  obtain t d where x: "x = (t, d)" by fastforce
  have "ext_loop pkt lim e (Suc (length xs + n)) (length a) = ext_loop pkt lim e (length xs + n) (length (a @ tls_ext t d))"
    using Cons.prems x by (intro ext_loop_skip) (auto simp: tls_ext_def)
  also have "\<dots> = ext_loop pkt lim e n (length ((a @ tls_ext t d) @ concat (map (\<lambda>(t, d). tls_ext t d) xs)))"
    using Cons.prems x by (intro Cons.IH) auto
  finally show ?case using x by simp
qed simp

lemma ext_loop_found:
  assumes "pkt = a @ tls_ext 0 (sni_data name others) @ r" "name \<noteq> []" "length name < maxDomainLen"
    and "length a + length (tls_ext 0 (sni_data name others)) \<le> e" "e \<le> lim" "lim \<le> MAX_PACKET_READ"
    and "length (sni_data name others) \<le> MAX_TLS_SCAN"
  shows "ext_loop pkt lim e (Suc n) (length a) = Some (length a + 9, length name)"
proof -
  let ?d = "sni_data name others"
  let ?l = "be16 (length name + 3 + length others)"
  let ?hd = "a @ be16 0 @ be16 (length ?d)"
  have len: "length ?d = length name + length others + 5" by (simp add: sni_data_def)
  have s: "pkt = ?hd @ ?l @ CHR 0x00 # be16 (length name) @ name @ others @ r"
    using assms(1) by (simp add: tls_ext_def sni_data_def)
  have b: "length a + 9 + length name + length others \<le> lim" "length name + length others + 5 \<le> 512"
    using assms(4,5,7) by (simp_all add: tls_ext_def len MAX_TLS_SCAN_def)
  have "load_be16 pkt (length a) = Some 0"
    using s b assms(6) by (intro load_be16_at [where a = a]) auto
  moreover have "load_be16 pkt (length a + 2) = Some (length ?d)"
    using s b assms(6) by (intro load_be16_at [where a = "a @ be16 0"]) (auto simp: len)
  moreover have "load_be16 pkt (length a + 4) = Some (length name + 3 + length others)"
    using s b assms(6) by (intro load_be16_at [where a = ?hd]) auto
  moreover have "load_u8 pkt (length a + 4 + 2) = Some (byte (CHR 0x00))"
    using s b assms(6) by (intro load_u8_at [where a = "?hd @ ?l"]) auto
  moreover have "load_be16 pkt (length a + 4 + 3) = Some (length name)"
    using s b assms(6) by (intro load_be16_at [where a = "?hd @ ?l @ [CHR 0x00]"]) auto
  moreover have "\<not> lim - (length a + 4 + 5) < length name" "\<not> lim - (length a + 4) < length name + length others + 5"
    "\<not> e - length a < 4"
    using assms(4,5) b(1) by (simp_all add: tls_ext_def len)
  ultimately show ?thesis
    using assms(2-7) b len by (simp add: sni_name_def tls_ext_def del: add_2_eq_Suc')
qed

lemma find_tls_sni_steps:
  assumes "load_u8 pkt p = Some 0x16" "load_u8 pkt (p + 1) = Some 0x03" "load_u8 pkt (p + 5) = Some 0x01"
    and "load_u8 pkt (p + 43) = Some s" and b: "b = p + 43 + 1 + s"
    and "load_be16 pkt b = Some c" and d: "d = b + 2 + c"
    and "load_u8 pkt d = Some m" and g: "g = d + 1 + m"
    and "load_be16 pkt g = Some x" and lim: "lim = min (p + MAX_TLS_SCAN) MAX_PACKET_READ"
    and "g + 2 + x \<le> lim" "c \<le> MAX_TLS_SCAN" "m \<le> 32"
  shows "find_tls_sni pkt p = ext_loop pkt lim (g + 2 + x) 16 (g + 2)"
proof -
  have "g + 2 \<le> MAX_PACKET_READ" using assms(12) lim by linarith
  then have "\<not> MAX_PACKET_READ \<le> p" "\<not> MAX_PACKET_READ - 6 < p" "\<not> MAX_PACKET_READ - 44 < p"
    using b d g by (simp_all add: MAX_PACKET_READ_def)
  moreover have "\<not> lim < b" "\<not> lim < b + 2" "\<not> MAX_TLS_SCAN < c" "\<not> lim < d" "\<not> lim < d + 1" "\<not> 32 < m"
    "\<not> lim < g" "\<not> lim < g + 2" "\<not> lim < g + 2 + x"
    using assms(12-14) b d g by linarith+
  ultimately show ?thesis
    unfolding find_tls_sni_def Let_def
    by (simp only: assms(1-4,6,8,10) b [symmetric] d [symmetric] g [symmetric] lim [symmetric]
        Option.bind.bind_lunit simp_thms if_False if_True)
qed

text \<open>A ClientHello within the limits of the program.\<close>

definition small_hello :: "nat \<Rightarrow> client_hello \<Rightarrow> bool" where
  "small_hello payload_off ch \<longleftrightarrow>
     5 + length (hello_body ch) \<le> MAX_TLS_SCAN \<and> payload_off + 5 + length (hello_body ch) \<le> MAX_PACKET_READ
     \<and> length (compressions ch) \<le> 32 \<and> length (exts_before ch) < 16 \<and> length (server_name ch) < maxDomainLen"

lemma find_tls_sni_hello:
  assumes "wf_hello ch" and "small_hello (length hdr) ch" and "pkt = hdr @ hello_record minor ch @ trailing"
  shows "\<exists>off r. find_tls_sni pkt (length hdr) = Some (off, length (server_name ch))
    \<and> pkt = take off pkt @ server_name ch @ r \<and> off + length (server_name ch) \<le> MAX_PACKET_READ \<and> off \<le> length pkt"
proof -
  let ?n = "length (hello_body ch)"
  define befores where "befores = concat (map (\<lambda>(t, d). tls_ext t d) (exts_before ch))"
  define sni where "sni = tls_ext 0 (sni_data (server_name ch) (other_names ch))"
  let ?ex = "hello_exts ch"
  have exts: "?ex = befores @ sni @ exts_after ch"
    by (simp add: hello_exts_def befores_def sni_def)
  define A where "A = hdr @ [CHR 0x16, CHR 0x03, minor] @ be16 ?n @ CHR 0x01 # hs_length ch @ version ch @ random ch"
  define B where "B = A @ char_of (length (session_id ch)) # session_id ch"
  define C where "C = B @ be16 (length (ciphers ch)) @ ciphers ch"
  define D where "D = C @ char_of (length (compressions ch)) # compressions ch"
  define E where "E = D @ be16 (length ?ex)"
  have pE: "pkt = E @ ?ex @ trailing" and pD: "pkt = D @ be16 (length ?ex) @ ?ex @ trailing"
    and pC: "pkt = C @ char_of (length (compressions ch)) # compressions ch @ be16 (length ?ex) @ ?ex @ trailing"
    and pB: "pkt = B @ be16 (length (ciphers ch)) @ ciphers ch @ char_of (length (compressions ch)) # compressions ch
      @ be16 (length ?ex) @ ?ex @ trailing"
    and pA: "pkt = A @ char_of (length (session_id ch)) # session_id ch @ be16 (length (ciphers ch)) @ ciphers ch
      @ char_of (length (compressions ch)) # compressions ch @ be16 (length ?ex) @ ?ex @ trailing"
    using assms(3) by (simp_all add: A_def B_def C_def D_def E_def hello_record_def hello_body_def)
  let ?p = "length hdr" and ?lim = "min (length hdr + MAX_TLS_SCAN) MAX_PACKET_READ"
  have wf: "length (session_id ch) < 256" "length (compressions ch) < 256" "server_name ch \<noteq> []"
    "\<forall>(t, d) \<in> set (exts_before ch). 0 < t \<and> t < 65536"
    and hs: "length (hs_length ch) = 3" "length (version ch) = 2" "length (random ch) = 32"
    using assms(1) by (auto simp: wf_hello_def)
  have A: "length A = ?p + 43" by (simp add: A_def hs)
  have B: "length B = ?p + 43 + 1 + length (session_id ch)" by (simp add: B_def A)
  have C: "length C = length B + 2 + length (ciphers ch)" by (simp add: C_def)
  have D: "length D = length C + 1 + length (compressions ch)" by (simp add: D_def)
  have E: "length E = length D + 2" by (simp add: E_def)
  have n: "?p + 5 + ?n = length E + length ?ex"
    by (simp add: E D C B A hello_body_def hs)
  have lim: "length E + length ?ex \<le> ?lim" "?lim \<le> MAX_PACKET_READ" "length ?ex + 49 \<le> MAX_TLS_SCAN"
    "length (ciphers ch) \<le> MAX_TLS_SCAN" "length (compressions ch) \<le> 32" "length (exts_before ch) < 16"
    "length (server_name ch) < maxDomainLen"
    using assms(2) n unfolding small_hello_def A B C D E by simp_all
  have ex: "9 \<le> length ?ex" by (simp add: exts sni_def tls_ext_def sni_data_def)
  have loop: "ext_loop pkt ?lim (length E + length ?ex) 16 (length E)
      = Some (length (E @ befores) + 9, length (server_name ch))"
  proof -
    obtain k where k: "16 = length (exts_before ch) + Suc k"
      using lim(6) by (metis add_Suc_right less_imp_Suc_add)
    have "ext_loop pkt ?lim (length E + length ?ex) (length (exts_before ch) + Suc k) (length E)
        = ext_loop pkt ?lim (length E + length ?ex) (Suc k) (length (E @ befores))"
      unfolding befores_def
      by (rule ext_loop_skip_all [OF _ wf(4)]) (use pE exts lim in \<open>auto simp: befores_def\<close>)
    also have "\<dots> = Some (length (E @ befores) + 9, length (server_name ch))"
      by (rule ext_loop_found [where others = "other_names ch" and r = "exts_after ch @ trailing"])
         (use pE exts lim wf(3) in \<open>auto simp: sni_def tls_ext_def\<close>)
    finally show ?thesis unfolding k [symmetric] .
  qed
  have b: "?p + 54 \<le> MAX_PACKET_READ" using lim(1,2) ex A B C D E by linarith
  have fits: "length E \<le> MAX_PACKET_READ" using lim(1,2) by linarith
  have "find_tls_sni pkt ?p = ext_loop pkt ?lim (length D + 2 + length ?ex) 16 (length D + 2)"
  proof (rule find_tls_sni_steps [OF _ _ _ _ B _ C _ D _ refl])
    show "load_u8 pkt ?p = Some 0x16" "load_u8 pkt (?p + 1) = Some 0x03" "load_u8 pkt (?p + 5) = Some 0x01"
      using b assms(3) load_u8_at [of pkt hdr "CHR 0x16"] load_u8_at [of pkt "hdr @ [CHR 0x16]" "CHR 0x03"]
        load_u8_at [of pkt "hdr @ [CHR 0x16, CHR 0x03, minor] @ be16 ?n" "CHR 0x01"]
      by (simp_all add: hello_record_def hello_body_def)
    show "load_u8 pkt (?p + 43) = Some (length (session_id ch))"
      using load_u8_at [OF pA A [symmetric]] b wf(1) by simp
    show "load_be16 pkt (length B) = Some (length (ciphers ch))"
      using load_be16_at [OF pB _ refl] lim(4) fits E D C by (simp add: MAX_TLS_SCAN_def)
    show "load_u8 pkt (length C) = Some (length (compressions ch))"
      using load_u8_at [OF pC refl] wf(2) fits E D by simp
    show "load_be16 pkt (length D) = Some (length ?ex)"
      using load_be16_at [OF pD _ refl] lim(3) fits E by (simp add: MAX_TLS_SCAN_def)
    show "length D + 2 + length ?ex \<le> ?lim" using lim(1) E by simp
  qed (use lim in auto)
  then have "find_tls_sni pkt ?p = ext_loop pkt ?lim (length E + length ?ex) 16 (length E)" by (simp only: E)
  then have "find_tls_sni pkt ?p = Some (length (E @ befores) + 9, length (server_name ch))" using loop by simp
  moreover have "pkt = (E @ befores @ be16 0 @ be16 (length (sni_data (server_name ch) (other_names ch)))
      @ be16 (length (server_name ch) + 3 + length (other_names ch)) @ CHR 0x00 # be16 (length (server_name ch)))
      @ server_name ch @ other_names ch @ exts_after ch @ trailing" (is "_ = ?F @ _ @ ?r")
    by (simp add: pE exts sni_def tls_ext_def sni_data_def)
  moreover have "length ?F = length (E @ befores) + 9" by simp
  moreover have "length (E @ befores) + 9 + length (server_name ch) \<le> MAX_PACKET_READ"
    using lim(1,2) by (simp add: exts sni_def tls_ext_def sni_data_def)
  ultimately show ?thesis
    by (intro exI [of _ "length (E @ befores) + 9"] exI [of _ ?r]) (metis append_eq_conv_conj length_append le_add1)
qed

end
