(* ===== verification/Bpf_Domains.thy ===== *)
theory Bpf_Domains
  imports Bpf_Properties
begin

text \<open>
  The names the eBPF program finds in a frame, against the rules of the domain map: the \<open>server_name\<close> of a
  ClientHello, the Host header of a request and the question name of a DNS query.
\<close>

unbundle bit_operations_syntax

section \<open>TLS\<close>

text \<open>
  The eBPF program finds the host name the Go parser finds: in a TLS record with a well-formed
  ClientHello, within the limits of the program (512 bytes of TLS, below offset 1024 of the frame, at most
  15 extensions before the name, a name shorter than 64 bytes), the frame is dropped exactly if the domain
  map has a rule for the name, in lower case, with the TLS flag.
\<close>

lemma check_tls_sni_hello:
  assumes "wf_hello ch" and "small_hello (length hdr) ch"
  shows "check_tls_sni env (hdr @ hello_record minor ch @ trailing) (length hdr) = XDP_DROP
    \<longleftrightarrow> name_listed env (server_name ch) domainTLS"
proof -
  let ?pkt = "hdr @ hello_record minor ch @ trailing"
  obtain off r where f: "find_tls_sni ?pkt (length hdr) = Some (off, length (server_name ch))"
      "?pkt = take off ?pkt @ server_name ch @ r" "off + length (server_name ch) \<le> MAX_PACKET_READ" "off \<le> length ?pkt"
    using find_tls_sni_hello [OF assms refl] by blast
  have "server_name ch \<noteq> []" "length (server_name ch) < maxDomainLen"
    using assms by (auto simp: wf_hello_def small_hello_def)
  then have "domain_from_packet_matches env ?pkt off (length (server_name ch)) domainTLS
      \<longleftrightarrow> name_listed env (server_name ch) domainTLS"
    using domain_from_packet_at [OF f(2) _ f(3)] f(4) by simp
  then show ?thesis by (simp add: check_tls_sni_def f(1))
qed

definition example_env :: bpf_env where
  "example_env =
     \<lparr>domain_rules = (\<lambda>key. if key = pad_name ''example.com'' then Some (domainTLS OR domainDNSPoison) else None),
      cidr_rules = (\<lambda>_. None), cidr_v6_rules = (\<lambda>_. None), ip_port_rules = (\<lambda>_. None),
      ip_port_v6_rules = (\<lambda>key. if p6_Addr key = ''destination-addr'' \<and> p6_Port key = 22 \<and> p6_Proto key = protoTCP then Some 1 else None),
      dispatch_rules = (\<lambda>i. if i < length bpf_programs then Some (bpf_programs ! i) else None)\<rparr>"

section \<open>HTTP\<close>

text \<open>The characters that end a host name, and those that may stand before it.\<close>

definition host_stops :: "char set" where
  "host_stops = {CHR 0x0D, CHR 0x0A, CHR '' '', CHR 0x09, CHR '':''}"

definition host_blanks :: "char set" where
  "host_blanks = {CHR '' '', CHR 0x09}"

lemma host_scan_at:
  "pkt = a @ name @ c # r \<Longrightarrow> off = length a \<Longrightarrow> off + length name < MAX_PACKET_READ \<Longrightarrow> set name \<inter> host_stops = {} \<Longrightarrow>
    c \<in> host_stops \<Longrightarrow> host_scan pkt off n = min n (length name)"
proof (induction n arbitrary: a name off)
  case (Suc n)
  note prems = Suc.prems
  show ?case
  proof (cases name)
    case Nil
    then have "load_u8 pkt off = Some (byte c)" using prems by (intro load_u8_at [where a = a]) auto
    then show ?thesis using Nil prems(5) by (simp add: host_stops_def)
  next
    case (Cons d ds)
    then have "load_u8 pkt off = Some (byte d)" using prems by (intro load_u8_at [where a = a]) auto
    moreover have "host_scan pkt (Suc off) n = min n (length ds)"
      using prems Cons by (intro Suc.IH [of "a @ [d]"]) auto
    moreover have "d \<notin> host_stops" using prems(4) Cons by auto
    ultimately show ?thesis using Cons by (simp add: host_stops_def)
  qed
qed simp

lemma skip_blank_at:
  assumes "pkt = a @ c # r" "off = length a" "Suc off < MAX_PACKET_READ"
  shows "skip_blank pkt off = Some (if c \<in> host_blanks then Suc off else off)"
proof -
  have "load_u8 pkt off = Some (byte c)" using assms by (intro load_u8_at [where a = a]) auto
  then show ?thesis using assms(3) by (auto simp: skip_blank_def host_blanks_def)
qed

text \<open>Up to two blanks are skipped.\<close>

lemma skip_blanks_at:
  assumes "pkt = a @ bl @ c # r" "off = length a" "off + length bl + 2 < MAX_PACKET_READ"
    and "set bl \<subseteq> host_blanks" "length bl \<le> 2" "c \<notin> host_blanks"
  shows "Option.bind (skip_blank pkt off) (skip_blank pkt) = Some (off + length bl)"
proof -
  consider "bl = []" | b where "bl = [b]" | b b' where "bl = [b, b']"
    using assms(5) by (cases bl; cases "tl bl") auto
  then show ?thesis
  proof cases
    case 1
    then show ?thesis using assms skip_blank_at [of pkt a c r off] by simp
  next
    case 2
    then show ?thesis
      using assms skip_blank_at [of pkt a b "c # r" off] skip_blank_at [of pkt "a @ [b]" c r "Suc off"] by simp
  next
    case 3
    then show ?thesis
      using assms skip_blank_at [of pkt a b "b' # c # r" off] skip_blank_at [of pkt "a @ [b]" b' "c # r" "Suc off"] by simp
  qed
qed

lemma find_http_host_at:
  assumes "length line = 16" "length k = 4" "set bl \<subseteq> host_blanks" "length bl \<le> 2"
    and "name \<noteq> []" "set name \<inter> host_stops = {}" "c \<in> host_stops"
    and "pkt = hdr @ line @ k @ colon # bl @ name @ c # rest" "length (hdr @ line @ k @ colon # bl @ name) + 2 < MAX_PACKET_READ"
  shows "find_http_host pkt (length hdr) 16 =
    (if map ascii_lower k = ''host'' \<and> colon = CHR '':''
     then Some (length (hdr @ line @ k @ colon # bl), min 63 (length name)) else None)"
proof -
  obtain d ds where name: "name = d # ds" using assms(5) by (cases name) auto
  obtain h o1 s t where k: "k = [h, o1, s, t]" using assms(2) by (auto simp: numeral_eq_Suc length_Suc_conv)
  let ?a = "hdr @ line" and ?off = "length hdr + 16"
  have pkt: "pkt = ?a @ h # o1 # s # t # colon # bl @ name @ c # rest" and a: "length ?a = ?off"
    and off: "?off + 4 < MAX_PACKET_READ"
    using assms(1,8,9) k by simp_all
  have l: "load_u8 pkt ?off = Some (byte h)"
    using pkt a off by (intro load_u8_at [where a = ?a]) auto
  have l1: "load_u8 pkt (?off + 1) = Some (byte o1)"
    using pkt a off by (intro load_u8_at [where a = "?a @ [h]"]) auto
  have l2: "load_u8 pkt (?off + 2) = Some (byte s)"
    using pkt a off by (intro load_u8_at [where a = "?a @ [h, o1]"]) auto
  have l3: "load_u8 pkt (?off + 3) = Some (byte t)"
    using pkt a off by (intro load_u8_at [where a = "?a @ [h, o1, s]"]) auto
  have l4: "load_u8 pkt (?off + 4) = Some (byte colon)"
    using pkt a off by (intro load_u8_at [where a = "?a @ [h, o1, s, t]"]) auto
  have "d \<notin> host_blanks" using assms(6) name by (auto simp: host_blanks_def host_stops_def)
  then have skip: "Option.bind (skip_blank pkt (?off + 5)) (skip_blank pkt) = Some (?off + 5 + length bl)"
    using assms(1,3,4,8,9) k name
    by (intro skip_blanks_at [where a = "?a @ k @ [colon]" and c = d and r = "ds @ c # rest"]) auto
  have "host_scan pkt (?off + 5 + length bl) (maxDomainLen - 1) = min (maxDomainLen - 1) (length name)"
    using assms(1,6-9) k by (intro host_scan_at [where a = "?a @ k @ colon # bl" and c = c and r = rest]) auto
  then have scan: "Option.bind (Option.bind (skip_blank pkt (?off + 5)) (skip_blank pkt))
      (\<lambda>host_off. Some (host_off, host_scan pkt host_off (maxDomainLen - 1))) = Some (?off + 5 + length bl, min 63 (length name))"
    unfolding skip by (simp add: maxDomainLen_def)
  have b: "\<not> MAX_PACKET_READ \<le> length hdr" "\<not> MAX_PACKET_READ - 16 < length hdr" "\<not> MAX_PACKET_READ \<le> ?off + 5"
    using assms(1,9) k by simp_all
  show ?thesis
    using b l l1 l2 l3 l4 scan k assms(1)
    by (simp add: find_http_host_def Let_def Option.bind_assoc del: add_2_eq_Suc')
qed

text \<open>
  C19: What the eBPF program blocks of HTTP: a packet is dropped exactly if the header that starts 16
  bytes into the payload, which is where \<open>GET / HTTP/1.1\<close> ends, is a Host header, in any case, whose name, cut
  to 63 bytes, has a rule with the HTTP flag. With anything else at that place the packet passes, and a
  name of more than 63 bytes is taken for the name of its first 63.
\<close>

theorem xdp_http_host:
  assumes "length line = 16" and "length k = 4" and "set bl \<subseteq> host_blanks" and "length bl \<le> 2"
    and "name \<noteq> []" and "set name \<inter> host_stops = {}" and "c \<in> host_stops"
    and "length (hdr @ line @ k @ colon # bl @ name) + 2 < MAX_PACKET_READ"
  shows "check_http_host env (hdr @ line @ k @ colon # bl @ name @ c # rest) (length hdr) = XDP_DROP
    \<longleftrightarrow> map ascii_lower k = ''host'' \<and> colon = CHR '':'' \<and> name_listed env (take 63 name) domainHTTP"
proof -
  let ?pkt = "hdr @ line @ k @ colon # bl @ name @ c # rest" and ?off = "length (hdr @ line @ k @ colon # bl)"
  have "domain_from_packet_matches env ?pkt ?off (length (take 63 name)) domainHTTP \<longleftrightarrow> name_listed env (take 63 name) domainHTTP"
    using assms(5,8)
    by (intro domain_from_packet_at [where a = "hdr @ line @ k @ colon # bl" and r = "drop 63 name @ c # rest"])
       (auto simp: maxDomainLen_def)
  then show ?thesis
    unfolding check_http_host_def check_http_host_at_def find_http_host_at [OF assms(1-7) refl assms(8)]
    by (cases "map ascii_lower k = ''host'' \<and> colon = CHR '':''") (auto simp: min.commute)
qed

theorem xdp_http_host_witness:
  "check_http_host (example_env\<lparr>domain_rules := (\<lambda>key. if key = pad_name ''example.com'' then Some domainHTTP else None)\<rparr>)
     (''GET / HTTP/1.1'' @ [CHR 0x0D, CHR 0x0A] @ ''HOST: Example.com:80'') 0 = XDP_DROP"
proof -
  have "map ascii_lower ''HOST'' = ''host''" "map ascii_lower ''Example.com'' = ''example.com''" by code_simp+
  moreover have "domainHTTP AND domainHTTP \<noteq> 0" by code_simp
  ultimately show ?thesis
    using xdp_http_host [of "''GET / HTTP/1.1'' @ [CHR 0x0D, CHR 0x0A]" "''HOST''" "'' ''" "''Example.com''" "CHR '':''" "[]"
        "CHR '':''" "example_env\<lparr>domain_rules := (\<lambda>key. if key = pad_name ''example.com'' then Some domainHTTP else None)\<rparr>" "''80''"]
    by (simp add: host_blanks_def host_stops_def MAX_PACKET_READ_def name_listed_def)
qed

section \<open>DNS\<close>

text \<open>A name on the wire is its labels, each after its length, and a zero byte.\<close>

definition dns_label :: "bytes \<Rightarrow> bytes" where
  "dns_label l = char_of (length l) # l"

definition dns_labels :: "bytes list \<Rightarrow> bytes" where
  "dns_labels ls = concat (map dns_label ls)"

definition wf_label :: "bytes \<Rightarrow> bool" where
  "wf_label l \<longleftrightarrow> l \<noteq> [] \<and> length l \<le> 63"

text \<open>The name after one label, and after a list of labels.\<close>

definition add_label :: "bytes \<Rightarrow> bytes \<Rightarrow> bytes" where
  "add_label name l = (if name = [] then [] else name @ ''.'') @ map ascii_lower l"

lemma length_add_label: "length (add_label name l) = length name + length l + (if name = [] then 0 else 1)"
  by (simp add: add_label_def)

lemma length_fold_label: "length name \<le> length (foldl add_label name ls)"
proof (induction ls arbitrary: name)
  case (Cons l ls)
  have "length name \<le> length (add_label name l)" by (simp add: length_add_label)
  then show ?case using Cons.IH [of "add_label name l"] by simp
qed simp

lemma fold_label_Join:
  "\<forall>l \<in> set ls. l \<noteq> [] \<Longrightarrow> name \<noteq> [] \<Longrightarrow>
    foldl add_label name ls = name @ (if ls = [] then [] else ''.'' @ map ascii_lower (Join ls ''.''))"
proof (induction ls arbitrary: name)
  case (Cons l ls)
  have dot: "ascii_lower (CHR ''.'') = CHR ''.''" by code_simp
  have "foldl add_label (add_label name l) ls
      = add_label name l @ (if ls = [] then [] else ''.'' @ map ascii_lower (Join ls ''.''))"
    using Cons.prems by (intro Cons.IH) (auto simp: add_label_def)
  moreover have "add_label name l = name @ ''.'' @ map ascii_lower l" using Cons.prems by (simp add: add_label_def)
  ultimately show ?case using dot by (cases ls) simp_all
qed simp

lemma fold_label_Join_Nil:
  "\<forall>l \<in> set ls. l \<noteq> [] \<Longrightarrow> foldl add_label [] ls = map ascii_lower (Join ls ''.'')"
proof (cases ls)
  case (Cons l ls')
  have dot: "ascii_lower (CHR ''.'') = CHR ''.''" by code_simp
  have "add_label [] l = map ascii_lower l" by (simp add: add_label_def)
  moreover assume "\<forall>l \<in> set ls. l \<noteq> []"
  ultimately show ?thesis
    using dot Cons fold_label_Join [of ls' "map ascii_lower l"] by (cases ls') simp_all
qed simp

lemma label_length_bits: "n < 64 \<Longrightarrow> n AND 0xc0 = (0 :: nat)"
proof -
  have "\<forall>n \<in> set [0..<64]. n AND 0xc0 = (0 :: nat)" by code_simp
  then show "n < 64 \<Longrightarrow> ?thesis" by simp
qed

text \<open>The scan copies the bytes of a label if there are iterations left and the name stays below 64 bytes.\<close>

lemma dns_scan_short: "n \<le> k \<Longrightarrow> dns_scan pkt e n pos name k labels = None"
proof (induction n arbitrary: k pos name)
  case (Suc n)
  then show ?case by (auto split: Option.bind_split)
qed simp

lemma dns_scan_label:
  assumes "pkt = a @ l @ r" "pos = length a" "length (a @ l) \<le> e" "e \<le> MAX_PACKET_READ" "length name \<le> 63"
  shows "dns_scan pkt e (length l + n) pos name (length l) labels
    = (if length name + length l \<le> 63 then dns_scan pkt e n (pos + length l) (name @ map ascii_lower l) 0 labels else None)"
  using assms
proof (induction l arbitrary: a pos name)
  case (Cons c l)
  have c: "load_u8 pkt pos = Some (byte c)" using Cons.prems by (intro load_u8_at [where a = a]) auto
  show ?case
  proof (cases "length name = 63")
    case False
    then have "dns_scan pkt e (length l + n) (Suc pos) (name @ [ascii_lower c]) (length l) labels
        = (if length (name @ [ascii_lower c]) + length l \<le> 63
           then dns_scan pkt e n (Suc pos + length l) ((name @ [ascii_lower c]) @ map ascii_lower l) 0 labels else None)"
      using Cons.prems by (intro Cons.IH [of "a @ [c]"]) auto
    then show ?thesis using Cons.prems False c by (simp add: maxDomainLen_def)
  qed (use Cons.prems in \<open>simp add: maxDomainLen_def\<close>)
qed simp

lemma dns_scan_start:
  assumes "pkt = a @ dns_label l @ r" "wf_label l" "length a < e" "e \<le> MAX_PACKET_READ"
  shows "dns_scan pkt e (Suc n) (length a) name 0 k =
    (if k < MAX_DNS_LABELS \<and> (name = [] \<or> length name < 63)
     then dns_scan pkt e n (length a + 1) (if name = [] then [] else name @ ''.'') (length l) (Suc k) else None)"
proof -
  have l: "0 < length l" "length l < 64" using assms(2) by (auto simp: wf_label_def)
  have "load_u8 pkt (length a) = Some (byte (char_of (length l)))"
    using assms by (intro load_u8_at [where a = a and r = "l @ r"]) (auto simp: dns_label_def)
  then have "load_u8 pkt (length a) = Some (length l)" using l by simp
  then show ?thesis using assms(3) l label_length_bits [OF l(2)] by (auto simp: maxDomainLen_def)
qed

lemma dns_scan_labels:
  assumes "pkt = a @ dns_labels ls @ CHR 0x00 # r" "\<forall>l \<in> set ls. wf_label l" "length (a @ dns_labels ls) < e"
    "e \<le> MAX_PACKET_READ" "length name \<le> 63"
  shows "dns_scan pkt e n (length a) name 0 k =
    (if length (dns_labels ls) < n \<and> (ls = [] \<or> k + length ls \<le> MAX_DNS_LABELS) \<and> length (foldl add_label name ls) \<le> 63
     then Some (length (a @ dns_labels ls) + 1, foldl add_label name ls) else None)"
  using assms
proof (induction ls arbitrary: a name n k)
  case Nil
  have "load_u8 pkt (length a) = Some (byte (CHR 0x00))"
    using Nil.prems by (intro load_u8_at [where a = a and r = r]) (auto simp: dns_labels_def)
  then show ?case using Nil.prems by (cases n) (auto simp: dns_labels_def)
next
  case (Cons l ls)
  let ?name = "if name = [] then [] else name @ ''.''"
  have s: "dns_labels (l # ls) = dns_label l @ dns_labels ls" and len: "length (dns_label l) = Suc (length l)"
    by (simp_all add: dns_labels_def dns_label_def)
  have add: "length (add_label name l) \<le> length (foldl add_label name (l # ls))"
    using length_fold_label [of "add_label name l" ls] by simp
  note al = length_add_label [of name l]
  show ?case
  proof (cases n)
    case (Suc m)
    have wf: "wf_label l" using Cons.prems(2) by simp
    have st: "dns_scan pkt e n (length a) name 0 k =
        (if k < MAX_DNS_LABELS \<and> (name = [] \<or> length name < 63)
         then dns_scan pkt e m (length a + 1) ?name (length l) (Suc k) else None)"
      unfolding Suc using Cons.prems s wf by (intro dns_scan_start [where r = "dns_labels ls @ CHR 0x00 # r"]) auto
    consider "\<not> (k < MAX_DNS_LABELS \<and> (name = [] \<or> length name < 63))" | "m \<le> length l"
      | j where "m = length l + j" "k < MAX_DNS_LABELS" "name = [] \<or> length name < 63"
      by (metis le_add_diff_inverse nat_le_linear)
    then show ?thesis
    proof cases
      case 1
      then have "\<not> length (add_label name l) \<le> 63 \<or> MAX_DNS_LABELS < k + length (l # ls)"
        using wf Cons.prems(5) by (auto simp: al wf_label_def)
      then show ?thesis using st 1 add by auto
    next
      case 2
      then have "dns_scan pkt e m (length a + 1) ?name (length l) (Suc k) = None" by (rule dns_scan_short)
      then show ?thesis using st 2 Suc by (auto simp: s len)
    next
      case 3
      have nm: "length ?name \<le> 63" using 3 by auto
      have "dns_scan pkt e m (length a + 1) ?name (length l) (Suc k) = (if length ?name + length l \<le> 63
          then dns_scan pkt e j (length a + 1 + length l) (?name @ map ascii_lower l) 0 (Suc k) else None)"
        unfolding 3(1) using Cons.prems s nm
        by (intro dns_scan_label [where a = "a @ [char_of (length l)]" and r = "dns_labels ls @ CHR 0x00 # r"])
           (auto simp: dns_label_def)
      also have "\<dots> = (if length (add_label name l) \<le> 63
          then dns_scan pkt e j (length (a @ dns_label l)) (add_label name l) 0 (Suc k) else None)"
        by (simp add: add_label_def len)
      also have "\<dots> = (if length (add_label name l) \<le> 63 \<and> length (dns_labels ls) < j
          \<and> (ls = [] \<or> Suc k + length ls \<le> MAX_DNS_LABELS) \<and> length (foldl add_label (add_label name l) ls) \<le> 63
          then Some (length ((a @ dns_label l) @ dns_labels ls) + 1, foldl add_label (add_label name l) ls) else None)"
        using Cons.IH [of "a @ dns_label l" "add_label name l" j "Suc k"] Cons.prems s by auto
      finally show ?thesis using st 3 add Suc by (auto simp: s len)
    qed
  qed simp
qed

lemma length_dns_labels: "ls \<noteq> [] \<Longrightarrow> length (dns_labels ls) = Suc (length (Join ls ''.''))"
proof (induction ls)
  case (Cons l ls)
  then show ?case by (cases ls) (simp_all add: dns_labels_def dns_label_def)
qed simp

lemma Join_not_Nil: "ls \<noteq> [] \<Longrightarrow> \<forall>l \<in> set ls. l \<noteq> [] \<Longrightarrow> Join ls sep \<noteq> []"
  by (cases ls; cases "tl ls") auto

text \<open>
  C18: The eBPF program reads the question name of a DNS query: the payload of a well-formed query matches
  exactly if the name has at most 8 labels and at most 62 bytes and the domain map has a rule for it, in
  lower case, with the DNS flag. The loader accepts names of 63 bytes and with any number of labels
  (\<open>maxDomainLen\<close> in \<open>xdp.go\<close>); for a longer one than the scan of 64 bytes can finish, its DNS rule never
  matches.
\<close>

theorem xdp_dns_name_limit:
  assumes "length h = 12" and "field16 h 2 AND 0x8000 = 0" and "field16 h 4 \<noteq> 0"
    and "ls \<noteq> []" and "\<forall>l \<in> set ls. wf_label l" and "4 \<le> length question"
    and "payload = h @ dns_labels ls @ CHR 0x00 # question" and "length (hdr @ payload) \<le> MAX_PACKET_READ"
  shows "dns_domain_matches env (hdr @ payload @ trailing) (length hdr) (length payload)
    \<longleftrightarrow> length ls \<le> MAX_DNS_LABELS \<and> length (Join ls ''.'') \<le> 62 \<and> name_listed env (Join ls ''.'') domainDNSPoison"
proof -
  let ?pkt = "hdr @ payload @ trailing" and ?name = "Join ls ''.''"
  have ne: "\<forall>l \<in> set ls. l \<noteq> []" using assms(5) by (auto simp: wf_label_def)
  have h: "field16 ?pkt (length hdr + i) = field16 h i" if "i < 11" for i
    using assms(1,7) that by (simp add: field16_def nth_append)
  have "dns_scan ?pkt (length hdr + length payload) MAX_DNS_SCAN (length (hdr @ h)) [] 0 0 =
      (if length (dns_labels ls) < MAX_DNS_SCAN \<and> (ls = [] \<or> 0 + length ls \<le> MAX_DNS_LABELS) \<and> length (foldl add_label [] ls) \<le> 63
       then Some (length ((hdr @ h) @ dns_labels ls) + 1, foldl add_label [] ls) else None)"
    using assms by (intro dns_scan_labels [where r = "question @ trailing"]) auto
  also have "\<dots> = (if length ls \<le> MAX_DNS_LABELS \<and> length ?name \<le> 62
      then Some (length hdr + length payload - length question, map ascii_lower ?name) else None)"
    using assms(4,7) by (simp add: fold_label_Join_Nil [OF ne] length_dns_labels MAX_DNS_SCAN_def)
  finally have scan: "dns_scan ?pkt (length hdr + length payload) MAX_DNS_SCAN (length hdr + 12) [] 0 0 = \<dots>"
    by (simp add: assms(1))
  have "?name \<noteq> []" using assms(4) ne by (rule Join_not_Nil)
  then show ?thesis
    using assms(1-3,6-8) h [of 2] h [of 4] scan
    by (auto simp: dns_domain_matches_def bpf_domain_matches_def name_listed_def pad_name_def MAX_PACKET_READ_def
        maxDomainLen_def split: option.split)
qed

theorem xdp_dns_name_limit_witness:
  "\<exists>hdr payload. hdr = replicate 62 (CHR 0x00) \<and> dns_domain_matches example_env (hdr @ payload @ []) (length hdr) (length payload)"
proof -
  define hdr where "hdr = replicate 62 (CHR 0x00)"
  define h where "h = ''id'' @ [CHR 0x01, CHR 0x00, CHR 0x00, CHR 0x01] @ replicate 6 (CHR 0x00)"
  define q where "q = [CHR 0x00, CHR 0x01, CHR 0x00, CHR 0x01]"
  define payload where "payload = h @ dns_labels [''Example'', ''com''] @ CHR 0x00 # q"
  have h: "length h = 12" "field16 h 2 = 0x0100" "field16 h 4 = 1" by (simp_all add: h_def field16_def)
  have "(0x0100 :: nat) AND 0x8000 = 0" by simp
  then have f: "field16 h 2 AND 0x8000 = 0" "field16 h 4 \<noteq> 0" by (simp_all add: h)
  have len: "length (hdr @ payload) \<le> MAX_PACKET_READ"
    by (simp add: hdr_def payload_def h q_def dns_labels_def dns_label_def MAX_PACKET_READ_def)
  have "map ascii_lower ''Example.com'' = ''example.com''" by code_simp
  moreover have "(domainTLS OR domainDNSPoison) AND domainDNSPoison \<noteq> 0" by code_simp
  ultimately have "name_listed example_env ''Example.com'' domainDNSPoison"
    by (simp add: name_listed_def example_env_def)
  then have "dns_domain_matches example_env (hdr @ payload @ []) (length hdr) (length payload)"
    using xdp_dns_name_limit [OF h(1) f _ _ _ payload_def len, of example_env "[]"]
    by (simp add: wf_label_def MAX_DNS_LABELS_def q_def)
  then show ?thesis unfolding hdr_def by blast
qed

section \<open>The chain on a frame\<close>

text \<open>An IPv6 frame with a TCP segment for a port that has a rule.\<close>

definition example_tcp_frame :: bytes where
  "example_tcp_frame =
     ''ddddddssssss'' @ [CHR 0x86, CHR 0xDD, CHR 0x60, CHR 0x00, CHR 0x00, CHR 0x00, CHR 0x00, CHR 0x14, CHR 0x06, CHR 0x40]
     @ ''source-address--'' @ ''destination-addr'' @ [CHR 0xC3, CHR 0x50, CHR 0x00, CHR 0x16] @ replicate 8 (CHR 0x00)
     @ [CHR 0x50] @ replicate 7 (CHR 0x00)"

lemma example_dispatch: "dispatch_loaded example_env"
  by (simp add: dispatch_loaded_def example_env_def bpf_programs_def upt_rec)

theorem xdp_filter_is_one_pass_witness:
  "xdp_filter example_env example_tcp_frame = (XDP_DROP, [STAT_TOTAL, STAT_IP_PORT_BLOCKED], example_tcp_frame)"
proof -
  have l: "length example_tcp_frame = 74" "field16 example_tcp_frame 12 = 0x86DD" "byte (example_tcp_frame ! 14) = 0x60"
    "byte (example_tcp_frame ! 20) = 6" "field16 example_tcp_frame 56 = 22" "byte (example_tcp_frame ! 66) = 0x50"
    "field_bytes example_tcp_frame 38 16 = ''destination-addr''"
    by (simp_all add: example_tcp_frame_def field16_def field_bytes_def nth_append)
  have "validate_ipv6 example_env example_tcp_frame = Inr 54"
    by (simp add: validate_ipv6_def l bpf_ip6_matches_cidr_def example_env_def)
  moreover have "bpf_ip6_port_matches example_env ''destination-addr'' 22 protoTCP"
    by (simp add: bpf_ip6_port_matches_def example_env_def)
  moreover have "parse_tcp_ports example_tcp_frame 54 = Inr (74, field16 example_tcp_frame 54, 22)"
    by (simp add: parse_tcp_ports_def l)
  ultimately have "reference_verdict example_env example_tcp_frame = (XDP_DROP, [STAT_IP_PORT_BLOCKED], example_tcp_frame)"
    by (simp add: reference_verdict_def transport_verdict_def l)
  then show ?thesis by (simp add: xdp_filter_is_one_pass [OF example_dispatch])
qed

end
