(* ===== verification/Xdp_System.thy ===== *)
theory Xdp_System
  imports Bpf_Domains
begin

text \<open>
  The XDP filter as a whole: the rules that the loader writes to the maps, as the eBPF program reads
  them from there, decide what happens to a frame.
\<close>

unbundle bit_operations_syntax

section \<open>The maps on both sides\<close>

text \<open>
  What the lookups of the eBPF program return, in terms of the contents of the maps: the value at the
  key in a hash table, some entry that covers the address in a trie.
\<close>

definition kernel_env :: "(nat \<Rightarrow> mapKey \<rightharpoonup> 32 word) \<Rightarrow> XDPFilter \<Rightarrow> bpf_env \<Rightarrow> bool" where
  "kernel_env t f env \<longleftrightarrow>
     (\<forall>k. domain_rules env k = Option.bind (domainRules f) (\<lambda>m. t m (DomainKey k)))
     \<and> (\<forall>x. cidr_rules env \<lparr>v4_PrefixLen = 32, v4_Addr = x\<rparr> \<noteq> None \<longleftrightarrow>
          (\<exists>m k. cidrRules f = Some m \<and> t m (LpmV4 k) \<noteq> None
             \<and> same_leading (unat (v4_PrefixLen k)) (le_memory (v4_Addr k)) (le_memory x)))
     \<and> (\<forall>x. cidr_v6_rules env \<lparr>v6_PrefixLen = 128, v6_Addr = x\<rparr> \<noteq> None \<longleftrightarrow>
          (\<exists>m k. cidrV6Rules f = Some m \<and> t m (LpmV6 k) \<noteq> None \<and> same_leading (unat (v6_PrefixLen k)) (v6_Addr k) x))
     \<and> (\<forall>k. ip_port_rules env k = Option.bind (ipPortRules f) (\<lambda>m. t m (IPPortV4 k)))
     \<and> (\<forall>k. ip_port_v6_rules env k = Option.bind (ipPortV6Rules f) (\<lambda>m. t m (IPPortV6 k)))"

text \<open>The lookups of the program are those that the properties of the loader are about.\<close>

lemma kernel_env_cidr:
  assumes "kernel_env t f env"
  shows "bpf_ip_matches_cidr env (As4 x) \<longleftrightarrow> ip_matches_cidr t f (Addr4 x)"
    and "bpf_ip6_matches_cidr env (As16 y) \<longleftrightarrow> ip_matches_cidr t f (Addr6 y z)"
  using assms by (simp_all add: kernel_env_def bpf_ip_matches_cidr_def bpf_ip6_matches_cidr_def ip_matches_cidr_def
      le_memory_le_uint32)

lemma kernel_env_port:
  assumes "kernel_env t f env"
  shows "bpf_ip_port_matches env (As4 x) n proto \<longleftrightarrow> ip_port_matches t f (Addr4 x) (of_nat n) proto"
    and "bpf_ip6_port_matches env (As16 y) n proto \<longleftrightarrow> ip_port_matches t f (Addr6 y z) (of_nat n) proto"
proof -
  have e: "(\<exists>m k. t m k \<noteq> None \<and> port_hit_slot f (m, k) (Addr4 x) (of_nat n) proto)
      \<longleftrightarrow> (\<exists>m. ipPortRules f = Some m \<and> t m (IPPortV4 \<lparr>p4_Addr = le_uint32 (As4 x), p4_Port = of_nat n, p4_Proto = proto, p4_Pad = 0\<rparr>) \<noteq> None)"
    "(\<exists>m k. t m k \<noteq> None \<and> port_hit_slot f (m, k) (Addr6 y z) (of_nat n) proto)
      \<longleftrightarrow> (\<exists>m. ipPortV6Rules f = Some m \<and> t m (IPPortV6 \<lparr>p6_Addr = As16 y, p6_Port = of_nat n, p6_Proto = proto, p6_Pad = 0\<rparr>) \<noteq> None)"
    by (auto simp: port_hit_slot_def)
  have l: "ip_port_rules env k \<noteq> None \<longleftrightarrow> (\<exists>m. ipPortRules f = Some m \<and> t m (IPPortV4 k) \<noteq> None)"
    "ip_port_v6_rules env k' \<noteq> None \<longleftrightarrow> (\<exists>m. ipPortV6Rules f = Some m \<and> t m (IPPortV6 k') \<noteq> None)" for k k'
    using assms by (auto simp: kernel_env_def split: Option.bind_split)
  show "bpf_ip_port_matches env (As4 x) n proto \<longleftrightarrow> ip_port_matches t f (Addr4 x) (of_nat n) proto"
    "bpf_ip6_port_matches env (As16 y) n proto \<longleftrightarrow> ip_port_matches t f (Addr6 y z) (of_nat n) proto"
    unfolding ip_port_matches_slot e bpf_ip_port_matches_def bpf_ip6_port_matches_def l by (rule refl)+
qed

lemma kernel_env_name:
  "kernel_env t f env \<Longrightarrow> name \<noteq> [] \<Longrightarrow> length name < maxDomainLen \<Longrightarrow>
    name_listed env name action \<longleftrightarrow> domain_matches t f name action"
  by (auto simp: kernel_env_def name_listed_def domain_matches_def split: Option.bind_split)

lemma kernel_env_exists: "\<exists>env. kernel_env t f env \<and> dispatch_loaded env"
proof -
  define env where "env =
    \<lparr>domain_rules = (\<lambda>k. Option.bind (domainRules f) (\<lambda>m. t m (DomainKey k))),
     cidr_rules = (\<lambda>q. if \<exists>m k. cidrRules f = Some m \<and> t m (LpmV4 k) \<noteq> None
        \<and> same_leading (unat (v4_PrefixLen k)) (le_memory (v4_Addr k)) (le_memory (v4_Addr q)) then Some 1 else None),
     cidr_v6_rules = (\<lambda>q. if \<exists>m k. cidrV6Rules f = Some m \<and> t m (LpmV6 k) \<noteq> None
        \<and> same_leading (unat (v6_PrefixLen k)) (v6_Addr k) (v6_Addr q) then Some 1 else None),
     ip_port_rules = (\<lambda>k. Option.bind (ipPortRules f) (\<lambda>m. t m (IPPortV4 k))),
     ip_port_v6_rules = (\<lambda>k. Option.bind (ipPortV6Rules f) (\<lambda>m. t m (IPPortV6 k))),
     dispatch_rules = (\<lambda>i. if i < length bpf_programs then Some (bpf_programs ! i) else None)\<rparr>"
  have "kernel_env t f env" by (simp add: kernel_env_def env_def)
  moreover have "dispatch_loaded env" by (simp add: dispatch_loaded_def env_def bpf_programs_def upt_rec)
  ultimately show ?thesis by blast
qed

section \<open>Loading\<close>

text \<open>The rules of a filter: prefixes, endpoints and names with their flags, added to empty maps.\<close>

record xdp_rule_set =
  x_prefixes :: "prefix list"
  x_ports :: "(addr \<times> 16 word \<times> 8 word) list"
  x_domains :: "(bytes \<times> 32 word) list"

definition load_rules :: "'w ebpf_lib \<Rightarrow> XDPFilter \<Rightarrow> xdp_rule_set \<Rightarrow> 'w \<Rightarrow> 'w option" where
  "load_rules lib f rs w = do {
     w \<leftarrow> add_all (AddCIDR lib f) (x_prefixes rs) w;
     w \<leftarrow> add_all (add_port lib f) (x_ports rs) w;
     add_all (add_domain lib f) (x_domains rs) w }"

definition filter_ready :: "XDPFilter \<Rightarrow> bool" where
  "filter_ready f \<longleftrightarrow> cidr_ready f \<and> port_ready f \<and> domainRules f \<noteq> None"

text \<open>Operations for one kind of rule leave the entries of the other kinds alone.\<close>

definition same_cidr :: "(nat \<Rightarrow> mapKey \<rightharpoonup> 32 word) \<Rightarrow> (nat \<Rightarrow> mapKey \<rightharpoonup> 32 word) \<Rightarrow> bool" where
  "same_cidr t t' \<longleftrightarrow> (\<forall>m k. (t m (LpmV4 k) \<noteq> None) = (t' m (LpmV4 k) \<noteq> None) \<and> (\<forall>k'. (t m (LpmV6 k') \<noteq> None) = (t' m (LpmV6 k') \<noteq> None)))"

definition same_port :: "(nat \<Rightarrow> mapKey \<rightharpoonup> 32 word) \<Rightarrow> (nat \<Rightarrow> mapKey \<rightharpoonup> 32 word) \<Rightarrow> bool" where
  "same_port t t' \<longleftrightarrow> (\<forall>m k. (t m (IPPortV4 k) \<noteq> None) = (t' m (IPPortV4 k) \<noteq> None) \<and> (\<forall>k'. (t m (IPPortV6 k') \<noteq> None) = (t' m (IPPortV6 k') \<noteq> None)))"

lemma same_cidr_matches: "same_cidr t t' \<Longrightarrow> ip_matches_cidr t f a \<longleftrightarrow> ip_matches_cidr t' f a"
  unfolding ip_matches_cidr_def same_cidr_def by (cases a) simp_all

lemma same_port_matches: "same_port t t' \<Longrightarrow> ip_port_matches t f a p q \<longleftrightarrow> ip_port_matches t' f a p q"
  unfolding ip_port_matches_def same_port_def by (cases a) simp_all

lemma add_cidrs_keep:
  assumes "bpf_maps lib tbl" "cidr_ready f" "add_all (AddCIDR lib f) rs w = Some w'"
  shows "same_port (tbl w) (tbl w')"
proof -
  have "cidr_slot f r \<noteq> Some (m, IPPortV4 k)" "cidr_slot f r \<noteq> Some (m, IPPortV6 k')" for r m k k'
    by (auto simp: cidr_slot_def Let_def split: addr.splits)
  then show ?thesis unfolding same_port_def cidr.slots_set [OF assms] by blast
qed

lemma add_ports_keep:
  assumes "bpf_maps lib tbl" "port_ready f" "add_all (add_port lib f) rs w = Some w'"
  shows "same_cidr (tbl w) (tbl w')"
proof -
  have "port_slot f r \<noteq> Some (m, LpmV4 k)" "port_slot f r \<noteq> Some (m, LpmV6 k')" for r m k k'
    by (auto simp: port_slot_def split: addr.splits prod.splits)
  then show ?thesis unfolding same_cidr_def port.slots_set [OF assms] by blast
qed

lemma add_domain_keep:
  assumes "bpf_maps lib tbl" "add_domain lib f r w = (Inr s, w')" "domainRules f \<noteq> None" "\<forall>n. k \<noteq> DomainKey n"
  shows "tbl w' m k = tbl w m k"
  using assms bpf_mapsD(1) [OF assms(1)]
  by (auto simp: add_domain_def AddDomainRule_def Let_def split: prod.splits sum.splits option.splits)

lemma add_domains_keep:
  assumes "bpf_maps lib tbl" "domainRules f \<noteq> None" "\<forall>n. k \<noteq> DomainKey n"
  shows "add_all (add_domain lib f) rs w = Some w' \<Longrightarrow> tbl w' m k = tbl w m k"
proof (induction rs arbitrary: w)
  case (Cons r rs)
  then obtain s w1 where a: "add_domain lib f r w = (Inr s, w1)" and rest: "add_all (add_domain lib f) rs w1 = Some w'"
    by (auto split: prod.splits sum.splits)
  then show ?case using Cons.IH [OF rest] add_domain_keep [OF assms(1) a assms(2,3)] by simp
qed simp

text \<open>What a rule set lists.\<close>

definition listed_address :: "xdp_rule_set \<Rightarrow> addr \<Rightarrow> bool" where
  "listed_address rs a \<longleftrightarrow> (\<exists>p \<in> set (x_prefixes rs). pfx_contains p a)"

definition listed_endpoint :: "xdp_rule_set \<Rightarrow> addr \<Rightarrow> 16 word \<Rightarrow> 8 word \<Rightarrow> bool" where
  "listed_endpoint rs a port proto \<longleftrightarrow> (\<exists>a'. (a', port, proto) \<in> set (x_ports rs) \<and> a = withoutZone (Unmap a'))"

definition listed_name :: "xdp_rule_set \<Rightarrow> bytes \<Rightarrow> 32 word \<Rightarrow> bool" where
  "listed_name rs name action \<longleftrightarrow>
     (\<exists>d flags. (d, flags) \<in> set (x_domains rs) \<and> normalizeDomain d = map ascii_lower name \<and> flags AND action \<noteq> 0)"

text \<open>Names in rules without zero bytes, which the padding of the keys would confuse.\<close>

definition zero_free :: "xdp_rule_set \<Rightarrow> bool" where
  "zero_free rs \<longleftrightarrow> (\<forall>(d, flags) \<in> set (x_domains rs). CHR 0x00 \<notin> set (normalizeDomain d))"

lemma listed_name_pad:
  assumes "zero_free rs" and "CHR 0x00 \<notin> set (map ascii_lower name)"
  shows "listed_name rs name action \<longleftrightarrow>
    (\<exists>d flags. (d, flags) \<in> set (x_domains rs) \<and> pad_name (map ascii_lower name) = pad_name (normalizeDomain d) \<and> flags AND action \<noteq> 0)"
proof -
  have "pad_name (map ascii_lower name) = pad_name (normalizeDomain d) \<longleftrightarrow> normalizeDomain d = map ascii_lower name"
    if "(d, flags) \<in> set (x_domains rs)" for d flags
    using pad_name_inject [OF assms(2), of "normalizeDomain d"] assms(1) that by (auto simp: zero_free_def)
  then show ?thesis unfolding listed_name_def by blast
qed

lemma load_rules_matches:
  assumes "bpf_maps lib tbl" and "filter_ready f" and "\<forall>m k. tbl w m k = None" and "load_rules lib f rs w = Some w'"
  shows "\<not> hasZone a \<Longrightarrow> ip_matches_cidr (tbl w') f a \<longleftrightarrow> listed_address rs a"
    and "\<not> hasZone a \<Longrightarrow> ip_port_matches (tbl w') f a p q \<longleftrightarrow> listed_endpoint rs a p q"
    and "name \<noteq> [] \<Longrightarrow> length name < maxDomainLen \<Longrightarrow> zero_free rs \<Longrightarrow> CHR 0x00 \<notin> set (map ascii_lower name) \<Longrightarrow>
      domain_matches (tbl w') f name action \<longleftrightarrow> listed_name rs name action"
proof -
  obtain w1 w2 where a1: "add_all (AddCIDR lib f) (x_prefixes rs) w = Some w1"
    and a2: "add_all (add_port lib f) (x_ports rs) w1 = Some w2" and a3: "add_all (add_domain lib f) (x_domains rs) w2 = Some w'"
    using assms(4) by (auto simp: load_rules_def split: Option.bind_splits)
  obtain m where cr: "cidr_ready f" and pr: "port_ready f" and dr: "domainRules f = Some m"
    using assms(2) by (auto simp: filter_ready_def)
  note keep = add_domains_keep [OF assms(1) _ _ a3]
  have c2: "same_cidr (tbl w1) (tbl w2)" by (rule add_ports_keep [OF assms(1) pr a2])
  have c3: "same_cidr (tbl w2) (tbl w')" and p3: "same_port (tbl w2) (tbl w')"
    unfolding same_cidr_def same_port_def using keep dr by simp_all
  have p1: "same_port (tbl w) (tbl w1)" by (rule add_cidrs_keep [OF assms(1) cr a1])
  have empty: "\<not> ip_matches_cidr (tbl w) f a" "\<not> ip_port_matches (tbl w) f a p q"
    by (simp_all add: ip_matches_cidr_slot ip_port_matches_slot assms(3))
  show "\<not> hasZone a \<Longrightarrow> ip_matches_cidr (tbl w') f a \<longleftrightarrow> listed_address rs a"
    using cidr_matches [OF assms(1) cr a1, of a] empty(1)
    by (simp add: listed_address_def same_cidr_matches [OF c2, symmetric] same_cidr_matches [OF c3, symmetric])
  show "\<not> hasZone a \<Longrightarrow> ip_port_matches (tbl w') f a p q \<longleftrightarrow> listed_endpoint rs a p q"
    using port_matches [OF assms(1) pr a2, of a p q] empty(2)
    by (simp add: listed_endpoint_def same_port_matches [OF p1, symmetric] same_port_matches [OF p3, symmetric])
  assume n: "name \<noteq> []" "length name < maxDomainLen" "zero_free rs" "CHR 0x00 \<notin> set (map ascii_lower name)"
  have "cidr_slot f r \<noteq> Some (m, DomainKey k)" "port_slot f r' \<noteq> Some (m, DomainKey k)" for r r' k
    by (auto simp: cidr_slot_def port_slot_def Let_def split: addr.splits prod.splits)
  then have "tbl w2 m (DomainKey k) = None" for k
    using cidr.slots_set [OF assms(1) cr a1, of m "DomainKey k"] port.slots_set [OF assms(1) pr a2, of m "DomainKey k"] assms(3)
    by auto
  then have z: "flags_at (tbl w2) m k = 0" for k by (simp add: flags_at_def)
  show "domain_matches (tbl w') f name action \<longleftrightarrow> listed_name rs name action"
    unfolding domain_matches_flags [OF dr] add_domains_flags [OF assms(1) dr a3] z listed_name_pad [OF n(3,4)]
    using n(1,2) by simp
qed

section \<open>Frames with a TCP segment\<close>

text \<open>An unfragmented IPv4 frame with a TCP segment whose payload starts at \<open>payload_off\<close>.\<close>

definition tcp4_frame :: "bytes \<Rightarrow> 32 word \<Rightarrow> 32 word \<Rightarrow> 16 word \<Rightarrow> 16 word \<Rightarrow> nat \<Rightarrow> bool" where
  "tcp4_frame pkt src dst sport dport payload_off \<longleftrightarrow>
     (let ihl = byte (pkt ! 14) mod 16; l4 = 14 + ihl * 4; doff = byte (pkt ! (l4 + 12)) div 16 in
      field16 pkt 12 = 0x0800 \<and> byte (pkt ! 14) div 16 = 4 \<and> 5 \<le> ihl \<and> field16 pkt 20 AND 0x3fff = 0
      \<and> byte (pkt ! 23) = 6 \<and> field_bytes pkt 26 4 = As4 src \<and> field_bytes pkt 30 4 = As4 dst
      \<and> l4 + 20 \<le> length pkt \<and> 5 \<le> doff \<and> payload_off = l4 + doff * 4 \<and> payload_off \<le> length pkt
      \<and> field16 pkt l4 = unat sport \<and> field16 pkt (l4 + 2) = unat dport)"

lemma tcp4_frame_verdict:
  assumes "tcp4_frame pkt src dst sport dport off"
  shows "reference_verdict env pkt =
    (if bpf_ip_matches_cidr env (As4 src) \<or> bpf_ip_matches_cidr env (As4 dst) then (XDP_DROP, [STAT_IP_BLOCKED], pkt)
     else if bpf_ip_port_matches env (As4 dst) (unat dport) protoTCP \<or> bpf_ip_port_matches env (As4 src) (unat sport) protoTCP
       then (XDP_DROP, [STAT_IP_PORT_BLOCKED], pkt)
     else if unat dport = 80 then name_verdict pkt (check_http_host env pkt off) STAT_HTTP_BLOCKED
     else if unat dport = 443 then name_verdict pkt (check_tls_sni env pkt off) STAT_TLS_BLOCKED
     else pass_verdict pkt)"
proof -
  define ihl where "ihl = byte (pkt ! 14) mod 16"
  define doff where "doff = byte (pkt ! (14 + ihl * 4 + 12)) div 16"
  note f = assms [unfolded tcp4_frame_def Let_def, folded ihl_def, folded doff_def]
  have ihl: "ihl < 16" by (simp add: ihl_def)
  have "byte (pkt ! (14 + ihl * 4 + 12)) < 256" by (rule byte_less)
  then have doff: "doff < 16" unfolding doff_def by (intro less_mult_imp_div_less) simp
  have v: "validate_ipv4 env pkt =
      (if bpf_ip_matches_cidr env (As4 src) \<or> bpf_ip_matches_cidr env (As4 dst) then Inl (XDP_DROP, STAT_IP_BLOCKED)
       else Inr (14 + ihl * 4))"
    unfolding validate_ipv4_def Let_def ihl_def [symmetric] using f ihl by simp
  have t: "parse_tcp_ports pkt (14 + ihl * 4) = Inr (off, unat sport, unat dport)"
    unfolding parse_tcp_ports_def Let_def doff_def [symmetric] using f doff by simp
  show ?thesis
    using f by (simp add: reference_verdict_def v t transport_verdict_def verdict_of_check_def)
qed

section \<open>From the rules to the verdict\<close>

text \<open>
  C5: The XDP filter enforces its rules, end to end: when prefixes, endpoints and names were added to an empty
  filter, and the program runs on their maps with the dispatch table loaded, an IPv4 frame with a
  ClientHello for port 443 is dropped, and counted as blocked for its address, for an endpoint or for
  its server name, exactly if some prefix contains one of its addresses, else if a rule names one of
  its endpoints, else if a rule names its server name for TLS; all other such frames pass, unchanged.
\<close>

theorem xdp_enforces_rules:
  assumes "bpf_maps lib tbl" and "filter_ready f" and "\<forall>m k. tbl w m k = None" and "load_rules lib f rs w = Some w'"
    and "zero_free rs" and "kernel_env (tbl w') f env" and "dispatch_loaded env"
    and "pkt = hdr @ hello_record minor ch @ trailing" and "tcp4_frame pkt src dst sport 443 (length hdr)"
    and "wf_hello ch" and "small_hello (length hdr) ch" and "CHR 0x00 \<notin> set (map ascii_lower (server_name ch))"
  shows "xdp_filter env pkt =
    (if listed_address rs (Addr4 src) \<or> listed_address rs (Addr4 dst) then (XDP_DROP, [STAT_TOTAL, STAT_IP_BLOCKED], pkt)
     else if listed_endpoint rs (Addr4 dst) 443 protoTCP \<or> listed_endpoint rs (Addr4 src) sport protoTCP
       then (XDP_DROP, [STAT_TOTAL, STAT_IP_PORT_BLOCKED], pkt)
     else if listed_name rs (server_name ch) domainTLS then (XDP_DROP, [STAT_TOTAL, STAT_TLS_BLOCKED], pkt)
     else (XDP_PASS, [STAT_TOTAL, STAT_PASSED], pkt))"
proof -
  note m = load_rules_matches [OF assms(1-4)]
  have name: "server_name ch \<noteq> []" "length (server_name ch) < maxDomainLen"
    using assms(10,11) by (auto simp: wf_hello_def small_hello_def)
  have n: "check_tls_sni env pkt (length hdr) = XDP_DROP \<longleftrightarrow> listed_name rs (server_name ch) domainTLS"
    unfolding assms(8) check_tls_sni_hello [OF assms(10,11)] kernel_env_name [OF assms(6) name] m(3) [OF name assms(5,12)] ..
  have a: "bpf_ip_matches_cidr env (As4 x) \<longleftrightarrow> listed_address rs (Addr4 x)" for x
    using kernel_env_cidr(1) [OF assms(6)] m(1) [of "Addr4 x"] by simp
  have p: "bpf_ip_port_matches env (As4 x) (unat q) protoTCP \<longleftrightarrow> listed_endpoint rs (Addr4 x) q protoTCP" for x q
    using kernel_env_port(1) [OF assms(6)] m(2) [of "Addr4 x"] by simp
  show ?thesis
    unfolding xdp_filter_reference [OF assms(7)] tcp4_frame_verdict [OF assms(9)] a p
    by (simp add: name_verdict_def pass_verdict_def n)
qed

text \<open>A frame from 192.0.2.1 to 198.51.100.7 with a ClientHello, and rules that name its server.\<close>

definition example_headers :: bytes where
  "example_headers =
     ''ddddddssssss'' @ [CHR 0x08, CHR 0x00, CHR 0x45, CHR 0x00, CHR 0x00, CHR 0x7D, CHR 0x00, CHR 0x00, CHR 0x40, CHR 0x00, CHR 0x40, CHR 0x06,
       CHR 0x00, CHR 0x00, CHR 0xC0, CHR 0x00, CHR 0x02, CHR 0x01, CHR 0xC6, CHR 0x33, CHR 0x64, CHR 0x07,
       CHR 0xC3, CHR 0x50, CHR 0x01, CHR 0xBB, CHR 0x00, CHR 0x00, CHR 0x00, CHR 0x00, CHR 0x00, CHR 0x00, CHR 0x00, CHR 0x00,
       CHR 0x50, CHR 0x18, CHR 0x00, CHR 0x00, CHR 0x00, CHR 0x00, CHR 0x00, CHR 0x00]"

definition example_rule_set :: xdp_rule_set where
  "example_rule_set =
     \<lparr>x_prefixes = [PrefixFrom (Addr4 0x0A010200) 24], x_ports = [(Addr4 0x08080808, 53, protoUDP)],
      x_domains = [(''https://Example.com/x'', domainTLS), (''other.org'', domainHTTP)]\<rparr>"

lemma example_load: "load_rules sim_bpf sim_filter example_rule_set sim_start \<noteq> None"
  by code_simp

lemma example_headers_tcp4: "tcp4_frame (example_headers @ payload) 0xC0000201 0xC6336407 50000 443 (length example_headers)"
proof -
  have "As4 0xC0000201 = [CHR 0xC0, CHR 0x00, CHR 0x02, CHR 0x01]" "As4 0xC6336407 = [CHR 0xC6, CHR 0x33, CHR 0x64, CHR 0x07]"
    by code_simp+
  moreover have "(0x4000 :: nat) AND 0x3fff = 0" by simp
  ultimately show ?thesis
    by (simp add: tcp4_frame_def example_headers_def field16_def field_bytes_def Let_def)
qed

theorem xdp_enforces_rules_witness:
  "\<exists>w' env. load_rules sim_bpf sim_filter example_rule_set sim_start = Some w' \<and> kernel_env (k_tbl w') sim_filter env
     \<and> xdp_filter env (example_headers @ hello_record (CHR 0x01) example_hello @ [])
       = (XDP_DROP, [STAT_TOTAL, STAT_TLS_BLOCKED], example_headers @ hello_record (CHR 0x01) example_hello @ [])"
proof -
  obtain w' where w': "load_rules sim_bpf sim_filter example_rule_set sim_start = Some w'" using example_load by blast
  obtain env where env: "kernel_env (k_tbl w') sim_filter env" "dispatch_loaded env" using kernel_env_exists by blast
  have n: "normalizeDomain ''https://Example.com/x'' = ''example.com''" "normalizeDomain ''other.org'' = ''other.org''"
    and l: "map ascii_lower ''example.com'' = ''example.com''" by code_simp+
  have ready: "filter_ready sim_filter" using sim_filter_maps by (simp add: filter_ready_def)
  have zf: "zero_free example_rule_set" by (simp add: zero_free_def example_rule_set_def n)
  have small: "wf_hello example_hello" "small_hello (length example_headers) example_hello"
    by (simp_all add: wf_hello_def small_hello_def example_hello_def hello_body_def hello_exts_def tls_ext_def
        sni_data_def MAX_TLS_SCAN_def MAX_PACKET_READ_def maxDomainLen_def example_headers_def)
  have name: "server_name example_hello = ''example.com''" by (simp add: example_hello_def)
  have "\<not> pfx_contains (PrefixFrom (Addr4 0x0A010200) 24) (Addr4 0xC0000201)"
    "\<not> pfx_contains (PrefixFrom (Addr4 0x0A010200) 24) (Addr4 0xC6336407)" by code_simp+
  then have addr: "\<not> listed_address example_rule_set (Addr4 0xC0000201)" "\<not> listed_address example_rule_set (Addr4 0xC6336407)"
    by (simp_all add: listed_address_def example_rule_set_def)
  have "protoTCP \<noteq> protoUDP" by code_simp
  then have port: "\<not> listed_endpoint example_rule_set a q protoTCP" for a q
    by (simp add: listed_endpoint_def example_rule_set_def)
  have "domainTLS AND domainTLS \<noteq> 0" by code_simp
  then have "listed_name example_rule_set ''example.com'' domainTLS"
    unfolding listed_name_def using n(1) l by (intro exI [of _ "''https://Example.com/x''"] exI [of _ domainTLS])
      (simp add: example_rule_set_def del: and.idem)
  then show ?thesis
    using xdp_enforces_rules [OF sim_bpf_maps ready _ w' zf env refl example_headers_tcp4 small, of "CHR 0x01" "[]"] w' env(1)
      addr port l by (auto simp: name sim_start_def)
qed

end
