(* ===== verification/Spec2Isabelle.thy ===== *)
theory Spec2Isabelle
  imports Main_Program Stats_Snapshot Verdict_Trace Xdp_System
begin

text \<open>
  A verification library of the traffic filter, a Linux program that takes packets from a netfilter
  queue, looks at addresses, ports, HTTP host names, TLS server names and DNS questions, and drops or
  answers what its configuration lists. It also has an alternative loader for an XDP filter.

  \<^bold>\<open>The program.\<close> \<open>main.go\<close> reads the command line and the configuration (\<open>config.go\<close>), makes an engine
  (\<open>engine.go\<close>) and prints statistics until the engine returns. The engine (\<open>nfqueue_engine_linux.go\<close>)
  installs firewall rules that send packets to a queue (\<open>firewall_linux.go\<close>), gives each packet to the
  classifier (\<open>packet_classifier.go\<close>), which asks the compiled rules (\<open>rules.go\<close>), counts the decision,
  sends a forged DNS answer if there is one, and sets the verdict. \<open>xdp.go\<close>, under a build tag, loads the
  eBPF program \<open>bpf/filter.bpf.c\<close> and writes the rules to its maps.

  \<^bold>\<open>The theories\<close>, in the order of their dependencies:
  \<^item> \<open>Go_Prelude\<close>, \<open>Go_Unicode\<close>, \<open>Go_Strings\<close>, \<open>Go_Netip\<close>: Go values (bytes, slices with length and capacity,
    a panic as \<^const>\<open>None\<close>) and what the program uses of the standard library: UTF-8 and case mapping,
    \<open>strings\<close> and \<open>bytes\<close>, addresses and prefixes of \<open>net/netip\<close> with their parsers.
  \<^item> \<open>Config\<close>: the structs of \<open>config.go\<close> and the parsers of single fields.
  \<^item> \<open>Rules\<close>: \<open>rules.go\<close>; the set-like specification of what an entry of the configuration stands for,
    and that compiling and matching implement it. The locale of a deduplicating loop is here.
  \<^item> \<open>Payload_Parsers\<close>: \<open>httpHost\<close> and \<open>tlsSNI\<close>, with every index and slice expression checked; panic
    freedom of \<open>tlsSNI\<close>, the inputs on which \<open>httpHost\<close> panics, and what both find.
  \<^item> \<open>Classifier\<close>: the rest of \<open>packet_classifier.go\<close>; the order-free policy \<open>blocked\<close> that the cascade of
    checks implements, the coherence of verdicts, and the forged DNS answers.
  \<^item> \<open>Firewall\<close>, \<open>Firewall_Kernel\<close>, \<open>Firewall_Properties\<close>: \<open>firewall_linux.go\<close> over a host that looks up and
    runs tools; laws of \<open>iptables\<close> and \<open>nft\<close> as predicates on the host, about the commands the program runs;
    what installing (also half-way) and cleaning up do to the chains and to the nft table of the program,
    and an example machine on which the laws hold.
  \<^item> \<open>Engine\<close>, \<open>Verdict_Trace\<close>, \<open>Lifecycle\<close>, \<open>Stats_Snapshot\<close>: \<open>nfqueue_engine_linux.go\<close>; the counters; the
    calls to the library as a trace, with one verdict for each packet and the protocol of the sockets; a run
    from the installation to the clean-up; and the loads of \<open>Stats\<close> interleaved with the packet callback,
    as an inductive step relation.
  \<^item> \<open>Go_Json\<close>, \<open>Load_Config\<close>, \<open>Load_Config_Properties\<close>: \<open>encoding/json\<close> as far as \<open>loadConfig\<close> uses it (lexer,
    parser, field names up to case, duplicate and unknown fields), \<open>time.ParseDuration\<close>, and \<open>loadConfig\<close>.
  \<^item> \<open>Main_Program\<close>: \<open>main.go\<close>, with the flag parser and the event loop.
  \<^item> \<open>Xdp\<close>, \<open>Xdp_Properties\<close>: \<open>xdp.go\<close> over a record of the calls of the eBPF library; what the kernel
    finds in the maps, the table of tail calls, and that no kernel object is leaked.
  \<^item> \<open>Bpf_Filter\<close>: the eBPF program, function by function: the parsers of headers, of HTTP, TLS and DNS names,
    the forged DNS answers, the twelve programs and their tail calls.
  \<^item> \<open>Bpf_Properties\<close>, \<open>Bpf_Domains\<close>: the chain of tail calls is one pass over the frame; the incremental
    checksum of a forged answer is right; which names the three parsers find, and which they miss.
  \<^item> \<open>Xdp_System\<close>: the loader and the eBPF program together, from the rules to the verdict of a frame.
  \<^item> This theory: the properties that span components, from the configuration file to the verdict, from
    the installation to the clean-up, and from the arguments to the last line printed.

  \<^bold>\<open>Parameters.\<close> Code outside the repository is an argument of the definitions that use it: the packet
  decoder and DNS codec (record \<open>gopacket\<close>), the machine and its tools (\<open>host\<close>), the queue library and
  the raw sockets (\<open>nfq_lib\<close>), the file system (\<open>os_Open\<close>), the eBPF library (\<open>ebpf_lib\<close>), and the lookups of the
  eBPF machine (\<open>bpf_env\<close>). What a property needs of them is a named hypothesis (\<open>dns_codec\<close>,
  \<open>iptables_tools\<close>, \<open>nft_tool\<close>, \<open>firewall_tools\<close>, \<open>lib_keeps\<close>, \<open>bpf_maps\<close>, \<open>bpf_dispatch\<close>, \<open>bpf_objects\<close>, \<open>kernel_env\<close>,
  \<open>dispatch_loaded\<close>), and each holds of an example in its theory.

  \<^bold>\<open>Bounds and termination.\<close> All functions are total. Loops over bytes are recursions on what is left.
  The deletion of a firewall rule stops after twenty rounds, as in the source, so properties about
  leftover copies bound their number by twenty. JSON nesting is limited to a depth of 10000, as in the
  library. Counters are 64-bit words and wrap; ports, protocols, queue numbers and addresses have their
  widths. A duration is an integer in the range of the source, whose checks for overflow are modelled.
  The loops of the eBPF program have the bounds of the source (64 bytes of a name, 16 extensions, 512 bytes of
  TLS, 1024 bytes of a frame), and a run makes at most 33 tail calls, of which it needs three.

  \<^bold>\<open>Not modelled.\<close> Log lines other than the statistics; the text of errors where a constructor names the
  place; signals, which are events of the main loop; interleavings of the packet callback with itself,
  since the library delivers packets one at a time; of the eBPF program, what the verifier of the kernel
  checks, and that it adds to the counters atomically on several processors: the model lists which
  counters a frame adds to.
\<close>

section \<open>From the configuration to the verdict\<close>

lemma newEngine_classifier:
  assumes "newEngine h cfg w = Inr e"
  shows "\<exists>r. compileRuleSet (Rules cfg) = Inr r \<and> e_classifier e = newPacketClassifier r (DNSMode (NFQueue cfg))
    \<and> e_stats e = zero_stats \<and> newFirewallManager h (NFQueue cfg) w = Inr (e_firewall e) \<and> Engine cfg = ''nfqueue''"
  using assms by (auto simp: newEngine_def newNFQueueEngine_def split: if_splits sum.splits)

text \<open>
  C1: The engine enforces the configured policy, end to end: for an engine made from a configuration,
  after any packets handled before, the verdict set for a packet is "drop" exactly when some rule of
  the configuration applies to that packet, and "accept" otherwise.
\<close>

theorem engine_enforces_policy:
  assumes "newEngine h cfg w0 = Inr e0"
    and "handle_all gp nf before (e0\<lparr>e_firewall := fw, e_nfq := True\<rparr>, w) = Inr (e, w1)"
    and "PacketID attr = Some pid" and "Payload attr = Some p"
    and "handlePacket gp nf attr (e, w1) = Inr (e', w')"
  shows "\<exists>w2. w' = snd (nfq_SetVerdict nf pid (if blocked gp (Rules cfg) p then NfDrop else NfAccept) w2)"
proof -
  obtain r where r: "compileRuleSet (Rules cfg) = Inr r"
    and c: "e_classifier e0 = newPacketClassifier r (DNSMode (NFQueue cfg))"
    using newEngine_classifier [OF assms(1)] by blast
  have ce: "e_classifier e = newPacketClassifier r (DNSMode (NFQueue cfg))"
    using handle_all_Inr [OF assms(2)] c by simp
  obtain v where v: "Classify gp (e_classifier e) p = Some v" and w': "w' = act_on nf pid v w1"
    using assms(3-5) by (auto simp: handlePacket_def Let_def split: option.splits)
  have "Kind v = verdictDrop \<longleftrightarrow> blocked gp (Rules cfg) p"
    using Classify_drop_iff_blocked [OF r] v ce by simp
  then show ?thesis
    unfolding w' act_on_def by (cases "Kind v") (auto simp: Let_def)
qed

definition example_app :: AppConfig where
  "example_app = e_cfg example_engine"

lemma newEngine_example:
  "newEngine sim_host example_app example_machine = Inr (example_engine\<lparr>e_nfq := False\<rparr>)"
  by (simp add: newEngine_def newNFQueueEngine_def example_app_def example_engine_def compile_example
      newFirewallManager_def example_classifier_def)

theorem engine_enforces_policy_witness:
  "\<exists>e' w'. handlePacket example_gp log_lib http_attr (example_engine, ((), [])) = Inr (e', w')
     \<and> (\<exists>w2. w' = snd (nfq_SetVerdict log_lib 8 (if blocked example_gp example_rules (full_slice ''Eh'') then NfDrop else NfAccept) w2))"
proof -
  obtain e' w' where h: "handlePacket example_gp log_lib http_attr (example_engine, ((), [])) = Inr (e', w')"
    by (simp add: handlePacket_def http_attr_def Let_def Classify_example_http example_engine_def)
  have "example_engine\<lparr>e_nfq := False, e_firewall := None, e_nfq := True\<rparr> = example_engine" "Rules example_app = example_rules"
    by (simp_all add: example_engine_def example_app_def)
  then show ?thesis
    using engine_enforces_policy [OF newEngine_example, of example_gp log_lib "[]" None "((), [])" example_engine "((), [])"
        http_attr 8 "full_slice ''Eh''" e' w'] h
    by (auto simp: http_attr_def)
qed

section \<open>From the start to the end of a run\<close>

text \<open>
  C3: A run restores the packet filter. Whenever \<open>Run\<close> returns, with or without an error of the queue,
  after the firewall rules were installed, every rule of the manager's iptables backends is gone from the
  available tools, also copies left from before, every rule of others has as many copies as before,
  and the nft table of the program is gone if nftables is among the manager's backends, and as it was
  otherwise. The queue and the sockets are assumed not to change the packet filter.
\<close>

theorem Run_restores_firewall:
  assumes "firewall_tools h Background rules table"
    and "lib_keeps nf rules" and "lib_keeps nf table" and "lib_keeps nf (LookPath h)"
    and "e_firewall e = Some m" and "\<forall>b \<in> set (manager_backends m). wf_backend b"
    and "count_list (rules w bin c) s + length (manager_backends m) \<le> 20"
    and "Run gp h nf attrs (e, w) = (Returned err, e', w')" and "\<forall>x. err \<noteq> Some (InstallError x)"
  shows "((\<exists>b \<in> set (manager_backends m). backend_owns_rule b bin c s) \<and> LookPath h w bin = None
        \<longrightarrow> count_list (rules w' bin c) s = 0)
    \<and> (\<not> (\<exists>b \<in> set (manager_backends m). backend_owns_rule b bin c s)
        \<longrightarrow> count_list (rules w' bin c) s = count_list (rules w bin c) s)
    \<and> table w' = (if \<exists>b \<in> set (manager_backends m). backend_owns_table b then [] else table w)"
  by (rule Run_restores [OF assms])

definition fw_engine :: nfQueueEngine where
  "fw_engine = example_engine\<lparr>e_firewall := Some (Plain (Iptables example_iptables)), e_nfq := False\<rparr>"

lemma LookPath_on_machine: "LookPath (on_machine h) = LookPath h \<circ> fst"
  by (rule ext) (simp add: on_machine_def split_beta)

definition auto_engine :: nfQueueEngine where
  "auto_engine = example_engine\<lparr>e_firewall := Some example_auto, e_nfq := False\<rparr>"

theorem Run_restores_firewall_witness:
  "\<exists>e' w'. Run example_gp (on_machine sim_host) log_lib [http_attr] (auto_engine, (used_machine, [])) = (Returned None, e', w')
     \<and> count_list (m_rules (fst w') ''iptables'' ''INPUT'') example_rule = 1 \<and> m_nft (fst w') = []"
proof -
  have "fst (Run example_gp (on_machine sim_host) log_lib [http_attr] (auto_engine, (used_machine, []))) = Returned None"
    by code_simp
  then obtain e' w' where run: "Run example_gp (on_machine sim_host) log_lib [http_attr] (auto_engine, (used_machine, []))
      = (Returned None, e', w')"
    by (metis surj_pair fst_conv)
  have others: "\<not> (\<exists>b \<in> set (manager_backends example_auto). backend_owns_rule b ''iptables'' ''INPUT'' example_rule)"
    by (simp add: example_auto_def manager_backends_def backend_owns_rule_def own_rule_def example_specs example_rule_def)
  have table: "\<exists>b \<in> set (manager_backends example_auto). backend_owns_table b"
    by (simp add: example_auto_def manager_backends_def backend_owns_table_def)
  have copies: "count_list ((m_rules \<circ> fst) (used_machine, [] :: net_event list) ''iptables'' ''INPUT'') example_rule = 1"
    by (simp add: used_machine_def example_specs example_rule_def)
  have few: "count_list ((m_rules \<circ> fst) (used_machine, [] :: net_event list) ''iptables'' ''INPUT'') example_rule
      + length (manager_backends example_auto) \<le> 20"
    unfolding copies by (simp add: example_auto_def manager_backends_def)
  have m: "e_firewall auto_engine = Some example_auto" by (simp add: auto_engine_def)
  from Run_restores_firewall [OF on_machine_firewall_tools [OF sim_firewall_tools] log_lib_keeps log_lib_keeps
      log_lib_keeps [where v = "LookPath sim_host", folded LookPath_on_machine] m example_auto_wf few run]
  show ?thesis using run others table copies by auto
qed

text \<open>
  C21: With an explicit iptables backend, a panic in the packet callback ends the process without the
  deferred clean-up: the rules stay in front of every configured chain, so that the kernel goes on
  queueing packets nobody answers.
\<close>

theorem crash_leaves_rules:
  assumes "iptables_tools h SignalContext rules" and "lib_keeps nf rules"
    and "e_firewall e = Some (Plain (Iptables f))" and "wf_iptables f"
    and "Run gp h nf attrs (e, w) = (Crashed, e', w')"
    and "chain \<in> set (normalizedChains (Chains (ipt_cfg f)))" and "bin \<in> {ipv4Bin f, ipv6Bin f}"
    and "LookPath h w bin = None"
  shows "\<exists>rest. rules w' bin (ToUpper chain) = rev (rule_specs f) @ rest"
proof -
  obtain m1 w1 e2 w2 where i: "Install h SignalContext (Plain (Iptables f)) w = (None, m1, w1)"
    and q: "run_queue gp nf attrs (e\<lparr>e_firewall := Some m1\<rparr>, w1) = (Crashed, e2, w2)" and d: "w' = w2"
    using Run_installed [OF assms(3,5)] by auto
  from i have "iptables_Install h f SignalContext w = (None, w1)"
    by (auto simp: Install_def backend_Install_def split: prod.splits)
  from iptables_Install_top [OF assms(1,4) this assms(6-8)] show ?thesis
    using run_queue_keeps [OF assms(2) q] d by auto
qed

text \<open>A packet whose HTTP payload has one invalid byte before the header.\<close>

definition panic_gp :: gopacket where
  "panic_gp = example_gp\<lparr>NewPacketIPv4 := (\<lambda>s. http_packet
     \<lparr>tcpLayer := Some \<lparr>TCP_SrcPort = 50000, TCP_DstPort = 80, TCP_Payload = full_slice (bad_byte # crlf_host)\<rparr>\<rparr>)\<rparr>"

lemma Classify_panic: "Classify panic_gp example_classifier (full_slice ''Eh'') = None"
proof -
  let ?p = "http_packet\<lparr>tcpLayer := Some \<lparr>TCP_SrcPort = 50000, TCP_DstPort = 80, TCP_Payload = full_slice (bad_byte # crlf_host)\<rparr>\<rparr>"
  have "decode_ip panic_gp (full_slice ''Eh'') = Some ?p" by (simp add: decode_ip_def panic_gp_def)
  moreover have "endpoints ?p = Some (Addr4 0x0A000007, Addr4 0x08080808)" by code_simp
  moreover have "\<not> matchIP example_ruleset (Addr4 0x0A000007)" "\<not> matchIP example_ruleset (Addr4 0x08080808)"
    "\<not> matchIPPort example_ruleset (Addr4 0x0A000007) 50000 protoTCP"
    "\<not> matchIPPort example_ruleset (Addr4 0x08080808) 80 protoTCP"
    by code_simp+
  moreover have "httpHost (full_slice (bad_byte # crlf_host)) = None"
    using httpHost_panics [of "[]"] by simp
  ultimately show ?thesis
    unfolding Classify_None_iff by (auto simp: example_classifier_def newPacketClassifier_def)
qed

theorem crash_leaves_rules_witness:
  "\<exists>e' w' rest. Run panic_gp (on_machine sim_host) log_lib [http_attr] (fw_engine, (example_machine, [])) = (Crashed, e', w')
     \<and> m_rules (fst w') ''iptables'' ''INPUT'' = rev (rule_specs example_iptables) @ rest"
proof -
  let ?m = "Plain (Iptables example_iptables)"
  obtain m1 w1 where i: "Install (on_machine sim_host) SignalContext ?m (example_machine, [] :: net_event list) = (None, m1, w1)"
  proof -
    have "fst (Install (on_machine sim_host) SignalContext ?m (example_machine, [] :: net_event list)) = None" by code_simp
    then show ?thesis using that by (metis surj_pair fst_conv)
  qed
  have "fst (Run panic_gp (on_machine sim_host) log_lib [http_attr] (fw_engine, (example_machine, []))) = Crashed"
    using i Classify_panic
    by (simp add: Run_def run_queue_def handlePacket_def fw_engine_def example_engine_def http_attr_def log_lib_def Let_def)
  then obtain e' w' where run: "Run panic_gp (on_machine sim_host) log_lib [http_attr] (fw_engine, (example_machine, []))
      = (Crashed, e', w')"
    by (metis surj_pair fst_conv)
  have "ToUpper ''input'' = ''INPUT''" by code_simp
  moreover have "\<exists>rest. (m_rules \<circ> fst) w' ''iptables'' (ToUpper ''input'') = rev (rule_specs example_iptables) @ rest"
  proof (rule crash_leaves_rules [OF on_machine_tools [OF sim_iptables_tools] log_lib_keeps _ wf_example_iptables run])
    show "e_firewall fw_engine = Some (Plain (Iptables example_iptables))" by (simp add: fw_engine_def)
    show "''input'' \<in> set (normalizedChains (Chains (ipt_cfg example_iptables)))"
      using example_chains by (simp add: example_iptables_def)
    show "''iptables'' \<in> {ipv4Bin example_iptables, ipv6Bin example_iptables}" by (simp add: example_iptables_def)
    show "LookPath (on_machine sim_host) (example_machine, []) ''iptables'' = None"
      using example_LookPath by (simp add: on_machine_def)
  qed
  ultimately show ?thesis using run by auto
qed





text \<open>
  Starting an engine from a valid configuration: only the nfqueue engine starts, and it starts
  exactly when its rules compile and its firewall manager is available; it then has the compiled rules,
  the configured DNS mode, zeroed counters, and no manager exactly when rules are not to be installed.
  No valid configuration is rejected as an unknown engine or an unknown backend.
\<close>

lemma newEngine_valid:
  assumes "validateNFQueueConfig (NFQueue cfg) = None" and "Engine cfg \<in> {''nfqueue'', ''af_xdp'', ''xdp_fast_path''}"
  shows "case newEngine h cfg w of
      Inr e \<Rightarrow> Engine cfg = ''nfqueue'' \<and> e_stats e = zero_stats
        \<and> (\<exists>r. compileRuleSet (Rules cfg) = Inr r \<and> e_classifier e = newPacketClassifier r (DNSMode (NFQueue cfg)))
        \<and> (e_firewall e = None \<longleftrightarrow> \<not> InstallRules (NFQueue cfg) \<or> FirewallBackend (NFQueue cfg) \<in> {''none'', ''disabled''})
    | Inl (RulesError _) \<Rightarrow> Engine cfg = ''nfqueue'' \<and> \<not> (\<exists>r. compileRuleSet (Rules cfg) = Inr r)
    | Inl (FirewallError err) \<Rightarrow> Engine cfg = ''nfqueue'' \<and> \<not> (\<exists>b. err = UnknownBackend b)
    | Inl (EngineNotImplemented name) \<Rightarrow> Engine cfg = name \<and> name \<noteq> ''nfqueue''
    | Inl _ \<Rightarrow> False"
proof -
  have none: "newFirewallManager h (NFQueue cfg) w = Inr None \<longleftrightarrow>
      \<not> InstallRules (NFQueue cfg) \<or> FirewallBackend (NFQueue cfg) \<in> {''none'', ''disabled''}"
    and known: "newFirewallManager h (NFQueue cfg) w \<noteq> Inl (UnknownBackend b)" for b
    using newFirewallManager_cases [OF assms(1), of h w] by blast+
  show ?thesis
    using assms(2) none known
    by (auto simp: newEngine_def newNFQueueEngine_def simp del: insert_iff empty_iff split: sum.splits)
qed

section \<open>The whole program\<close>

lemma run_queue_Returned:
  assumes "run_queue gp nf attrs (e, w) = (Returned None, e', w')"
  shows "\<exists>w1 w2. handle_all gp nf attrs (e\<lparr>e_nfq := True\<rparr>, w1) = Inr (e', w2)"
  using assms
  by (auto simp: run_queue_def deferred_close_def Let_def split: prod.splits option.splits sum.splits)

lemma Run_Returned_stats:
  assumes "Run gp h nf attrs (e, w) = (Returned None, e', w')"
  shows "e_stats e' = fold (count_packet gp (e_classifier e)) attrs (e_stats e)
    \<and> (\<forall>attr \<in> set attrs. complete attr \<longleftrightarrow> verdict_of gp (e_classifier e) attr \<noteq> None)"
proof -
  obtain fw w0 e1 w1 where q: "run_queue gp nf attrs (e\<lparr>e_firewall := fw\<rparr>, w0) = (Returned None, e1, w1)"
    and st: "e_stats e' = e_stats e1"
  proof (cases "e_firewall e")
    case None
    then have e: "e\<lparr>e_firewall := None\<rparr> = e" by (cases e) simp
    have "run_queue gp nf attrs (e, w) = (Returned None, e', w')" using None assms by (simp add: Run_def)
    then show ?thesis by (intro that [of None w e' w'], unfold e) simp_all
  next
    case (Some m)
    obtain m1 w0 e1 w1 where q: "run_queue gp nf attrs (e\<lparr>e_firewall := Some m1\<rparr>, w0) = (Returned None, e1, w1)"
      and d: "(e', w') = deferred_cleanup h (e1, w1)"
      using Run_installed [OF Some assms] by auto
    from d have "e_stats e' = e_stats e1" by (auto simp: deferred_cleanup_def split: option.splits prod.splits)
    with q show ?thesis by (rule that)
  qed
  obtain w2 w3 where "handle_all gp nf attrs (e\<lparr>e_firewall := fw, e_nfq := True\<rparr>, w2) = Inr (e1, w3)"
    using run_queue_Returned [OF q] by auto
  from handle_all_Inr [OF this] st show ?thesis by simp
qed

text \<open>
  C4: The last line the program prints is a true account of its run: when it ends without an error, its
  configuration was loaded and its rules compiled, and the last line gives as total the number of
  packets the queue delivered whole, and as passed the number of those the classifier of that
  configuration accepts, counted modulo the width of the counters; and the line balances.
\<close>

theorem run_final_report:
  assumes "run gp h nf os_Open euid args attrs events w = (Done, lines, w')" and "no_return events"
  shows "\<exists>path cfg r before st.
     parse_flags defaultConfigPath args = Inr (path, []) \<and> loadConfig os_Open path = Inr cfg
     \<and> compileRuleSet (Rules cfg) = Inr r \<and> lines = before @ [printStats st]
     \<and> Total st = of_nat (length (filter complete attrs))
     \<and> Passed st = of_nat (length (filter (is_accepted gp (newPacketClassifier r (DNSMode (NFQueue cfg)))) attrs))
     \<and> Total st = Passed st + HTTPBlocked st + TLSBlocked st + DNSPoisoned st + DNSBlocked st + IPBlocked st + IPPortBlocked st"
proof -
  obtain cfg e e' w1 before where s: "start_up os_Open euid h args w = Starts cfg e"
    and R: "Run gp h nf attrs (e, w) = (Returned None, e', w1)" and l: "lines = before @ [printStats (Stats e')]"
    using run_Done [OF assms] by metis
  obtain path where path: "parse_flags defaultConfigPath args = Inr (path, [])" "loadConfig os_Open path = Inr cfg"
    and new: "newEngine h cfg w = Inr e"
    using s by (auto simp: start_up_def split: sum.splits prod.splits if_splits)
  obtain r where r: "compileRuleSet (Rules cfg) = Inr r" "e_classifier e = newPacketClassifier r (DNSMode (NFQueue cfg))"
    "e_stats e = zero_stats"
    using newEngine_classifier [OF new] by blast
  let ?c = "newPacketClassifier r (DNSMode (NFQueue cfg))"
  have st: "e_stats e' = fold (count_packet gp ?c) attrs zero_stats"
    and v: "\<forall>attr \<in> set attrs. complete attr \<longleftrightarrow> verdict_of gp ?c attr \<noteq> None"
    using Run_Returned_stats [OF R] r(2,3) by simp_all
  have "filter (\<lambda>a. verdict_of gp ?c a \<noteq> None) attrs = filter complete attrs"
    using v by (auto intro: filter_cong)
  then have "Total (Stats e') = of_nat (length (filter complete attrs))"
    "Passed (Stats e') = of_nat (length (filter (is_accepted gp ?c) attrs))"
    by (simp_all add: Stats_def st fold_count_counters zero_stats_def)
  moreover have "balanced (e_stats e')"
    unfolding st by (rule fold_count_balanced) (simp add: balanced_def zero_stats_def)
  ultimately show ?thesis
    using path r(1) l by (auto simp: balanced_def Stats_def)
qed

text \<open>A run without firewall rules, from a configuration file to the last line.\<close>

definition quiet_cfg :: AppConfig where
  "quiet_cfg = example_cfg\<lparr>NFQueue := (NFQueue example_cfg)\<lparr>FirewallBackend := ''none''\<rparr>\<rparr>"

definition quiet_file :: "bytes \<Rightarrow> bytes option" where
  "quiet_file path = Some (print_json (config_json quiet_cfg) @ [CHR 0x0A])"

lemma load_quiet:
  "\<exists>cfg. loadConfig quiet_file '' my.json'' = Inr cfg \<and> 0 < statsEvery cfg \<and> Engine cfg = ''nfqueue''
     \<and> Rules cfg = example_rules \<and> FirewallBackend (NFQueue cfg) = ''none'' \<and> DNSMode (NFQueue cfg) = ''nxdomain''"
proof -
  let ?cfg = "quiet_cfg\<lparr>statsEvery := 5000000000\<rparr>"
  have plain: "plain_config quiet_cfg" and nl: "ends_number [CHR 0x0A]" by code_simp+
  have "loadConfig quiet_file '' my.json'' = finish_config ?cfg"
    using Decode_written [OF plain nl] by (simp add: quiet_file_def loadConfig_def TrimSpace_path)
  moreover have "normalizeChoice (Engine ?cfg) ''nfqueue'' = ''nfqueue''"
    "stats_interval (?cfg\<lparr>Engine := ''nfqueue''\<rparr>) = Inr 90000000000"
    "validateNFQueueConfig (finish_nfqueue (NFQueue ?cfg)) = None"
    "FirewallBackend (finish_nfqueue (NFQueue ?cfg)) = ''none''" "DNSMode (finish_nfqueue (NFQueue ?cfg)) = ''nxdomain''"
    by code_simp+
  moreover have "compileRuleSet (Rules ?cfg) = Inr example_ruleset" "Rules ?cfg = example_rules"
    by (simp_all add: quiet_cfg_def example_cfg_def compile_example)
  ultimately show ?thesis by (simp add: finish_config_def Let_def)
qed

definition quiet_events :: "(main_event \<times> EngineStats) list" where
  "quiet_events = [(Tick, Stats example_engine), (CtxDone, Stats example_engine)]"

lemma run_quiet: "\<exists>lines w'. run example_gp (on_machine sim_host) log_lib quiet_file 0 [''-config= my.json'']
    [bare_attr, http_attr] quiet_events (example_machine, []) = (Done, lines, w')"
proof -
  obtain cfg where cfg: "loadConfig quiet_file '' my.json'' = Inr cfg" "0 < statsEvery cfg" "Engine cfg = ''nfqueue''"
    "Rules cfg = example_rules" "FirewallBackend (NFQueue cfg) = ''none''" "DNSMode (NFQueue cfg) = ''nxdomain''"
    using load_quiet by blast
  have flags: "parse_flags defaultConfigPath [''-config= my.json''] = Inr ('' my.json'', [])" by code_simp
  have "newFirewallManager (on_machine sim_host) (NFQueue cfg) (example_machine, [] :: net_event list) = Inr None"
    using cfg(5) by (simp add: newFirewallManager_def)
  then obtain e where e: "newEngine (on_machine sim_host) cfg (example_machine, [] :: net_event list) = Inr e"
    "e_firewall e = None" "e_classifier e = example_classifier"
    using cfg by (simp add: newEngine_def newNFQueueEngine_def compile_example example_classifier_def)
  have s: "start_up quiet_file 0 (on_machine sim_host) [''-config= my.json''] (example_machine, [] :: net_event list) = Starts cfg e"
    using cfg e(1) flags by (simp add: start_up_def)
  obtain e' w' where "Run example_gp (on_machine sim_host) log_lib [bare_attr, http_attr] (e, (example_machine, [])) = (Returned None, e', w')"
    using e(2,3) by (simp add: Run_def run_queue_def log_lib_def deferred_close_def handlePacket_def bare_attr_def http_attr_def
        Classify_example_http Let_def)
  with s show ?thesis by (simp add: run_def quiet_events_def)
qed

theorem run_final_report_witness:
  "\<exists>lines w' before st. run example_gp (on_machine sim_host) log_lib quiet_file 0 [''-config= my.json'']
       [bare_attr, http_attr] quiet_events (example_machine, []) = (Done, lines, w')
     \<and> lines = before @ [printStats st] \<and> Total st = 1 \<and> Passed st = 0"
proof -
  obtain lines w' where r: "run example_gp (on_machine sim_host) log_lib quiet_file 0 [''-config= my.json'']
       [bare_attr, http_attr] quiet_events (example_machine, []) = (Done, lines, w')"
    using run_quiet by blast
  have n: "no_return quiet_events" by (simp add: no_return_def quiet_events_def)
  have flags: "parse_flags defaultConfigPath [''-config= my.json''] = Inr ('' my.json'', [])" by code_simp
  obtain cfg where cfg: "loadConfig quiet_file '' my.json'' = Inr cfg" "Rules cfg = example_rules" "DNSMode (NFQueue cfg) = ''nxdomain''"
    using load_quiet by blast
  have counts: "filter complete [bare_attr, http_attr] = [http_attr]"
    "filter (is_accepted example_gp example_classifier) [bare_attr, http_attr] = []"
    by (simp_all add: complete_def bare_attr_def http_attr_def is_accepted_def verdict_of_def Classify_example_http)
  then have report: "lines = before @ [printStats st] \<Longrightarrow> Total st = 1 \<Longrightarrow> Passed st = 0 \<Longrightarrow> ?thesis" for before st
    using r by blast
  obtain path cfg' r' before st where p: "parse_flags defaultConfigPath [''-config= my.json''] = Inr (path, [])"
    "loadConfig quiet_file path = Inr cfg'" "compileRuleSet (Rules cfg') = Inr r'" "lines = before @ [printStats st]"
    "Total st = of_nat (length (filter complete [bare_attr, http_attr]))"
    "Passed st = of_nat (length (filter (is_accepted example_gp (newPacketClassifier r' (DNSMode (NFQueue cfg')))) [bare_attr, http_attr]))"
    using run_final_report [OF r n] by blast
  have "path = '' my.json''" using p(1) unfolding flags by simp
  then have c: "cfg' = cfg" using p(2) cfg(1) by simp
  then have "r' = example_ruleset" using p(3) cfg(2) compile_example by simp
  with c p(4-6) show ?thesis
    using report counts by (simp add: cfg example_classifier_def)
qed

end
